(* ===== verification/Prelude.thy ===== *)
theory Prelude
  imports Complex_Main "HOL-Library.Word" "HOL-Library.Multiset"
begin

text \<open>
  Shared vocabulary of the development: the machine-integer types of the Rust sources,
  Rust's \<open>Result\<close> as a sum type with \<open>and_then\<close> for the question-mark operator, the checked
  and saturating operations of the unsigned integers, the stable \<open>sort_by\<close> and
  \<open>min_by\<close>/\<open>max_by\<close> of the standard library, and the lemmas about them that the component
  theories share.  The collection \<open>rust_simps\<close> holds the rewriting facts about results and
  checked arithmetic.
\<close>

named_theorems rust_simps \<open>rewriting facts on results and checked integer operations\<close>

section \<open>Machine integers\<close>

type_synonym u8 = "8 word"
type_synonym u16 = "16 word"
type_synonym u32 = "32 word"
type_synonym u64 = "64 word"
type_synonym u128 = "128 word"
type_synonym bytes = "8 word list"

abbreviation u64_MAX :: u64 where "u64_MAX \<equiv> - 1"

text \<open>
  The release profile of the workspace leaves overflow checks off, so plain \<open>+\<close>, \<open>-\<close> and
  \<open>*\<close> wrap as on words.  The checked and saturating variants are written out here.
\<close>

definition checked_add :: "'a::len word \<Rightarrow> 'a word \<Rightarrow> 'a word option" where
  "checked_add a b = (if unat a + unat b < 2 ^ LENGTH('a) then Some (a + b) else None)"

definition checked_sub :: "'a::len word \<Rightarrow> 'a word \<Rightarrow> 'a word option" where
  "checked_sub a b = (if b \<le> a then Some (a - b) else None)"

definition checked_mul :: "'a::len word \<Rightarrow> 'a word \<Rightarrow> 'a word option" where
  "checked_mul a b = (if unat a * unat b < 2 ^ LENGTH('a) then Some (a * b) else None)"

definition checked_div :: "'a::len word \<Rightarrow> 'a word \<Rightarrow> 'a word option" where
  "checked_div a b = (if b = 0 then None else Some (a div b))"

fun checked_pow :: "'a::len word \<Rightarrow> nat \<Rightarrow> 'a word option" where
  "checked_pow b 0 = Some 1"
| "checked_pow b (Suc n) = Option.bind (checked_pow b n) (\<lambda>r. checked_mul r b)"

definition saturating_sub :: "'a::len word \<Rightarrow> 'a word \<Rightarrow> 'a word" where
  "saturating_sub a b = (if b \<le> a then a - b else 0)"

definition saturating_mul :: "'a::len word \<Rightarrow> 'a word \<Rightarrow> 'a word" where
  "saturating_mul a b = (if unat a * unat b < 2 ^ LENGTH('a) then a * b else - 1)"

lemma unat_less_pow [simp]: "unat (a :: 'a::len word) < 2 ^ LENGTH('a)"
  by (rule unsigned_less)

lemma checked_add_Some_iff [rust_simps]:
  "checked_add a b = Some c \<longleftrightarrow> unat c = unat a + unat b"
proof
  assume "checked_add a b = Some c"
  then show "unat c = unat a + unat b"
    by (auto simp: checked_add_def unat_word_ariths split: if_splits)
next
  assume eq: "unat c = unat a + unat b"
  then have "unat a + unat b < 2 ^ LENGTH('a)"
    by (metis unat_less_pow)
  moreover from this eq have "c = a + b"
    by (simp add: word_unat_eq_iff unat_word_ariths)
  ultimately show "checked_add a b = Some c"
    by (simp add: checked_add_def)
qed

lemma checked_sub_Some_iff [rust_simps]:
  "checked_sub a b = Some c \<longleftrightarrow> unat a = unat c + unat b"
proof
  assume "checked_sub a b = Some c"
  then show "unat a = unat c + unat b"
    by (auto simp: checked_sub_def unat_sub word_le_nat_alt split: if_splits)
next
  assume eq: "unat a = unat c + unat b"
  then have "b \<le> a" by (simp add: word_le_nat_alt)
  moreover from this eq have "c = a - b"
    by (simp add: word_unat_eq_iff unat_sub)
  ultimately show "checked_sub a b = Some c"
    by (simp add: checked_sub_def)
qed

lemma checked_mul_Some_iff [rust_simps]:
  "checked_mul a b = Some c \<longleftrightarrow> unat c = unat a * unat b"
proof
  assume "checked_mul a b = Some c"
  then show "unat c = unat a * unat b"
    by (auto simp: checked_mul_def unat_word_ariths split: if_splits)
next
  assume eq: "unat c = unat a * unat b"
  then have "unat a * unat b < 2 ^ LENGTH('a)"
    by (metis unat_less_pow)
  moreover from this eq have "c = a * b"
    by (simp add: word_unat_eq_iff unat_word_ariths)
  ultimately show "checked_mul a b = Some c"
    by (simp add: checked_mul_def)
qed

lemma checked_div_Some_iff [rust_simps]:
  "checked_div a b = Some c \<longleftrightarrow> unat b \<noteq> 0 \<and> unat c = unat a div unat b"
  by (auto simp: checked_div_def unat_div word_unat_eq_iff)

lemma checked_add_None_iff [rust_simps]:
  "checked_add (a :: 'a::len word) b = None \<longleftrightarrow> 2 ^ LENGTH('a) \<le> unat a + unat b"
  by (auto simp: checked_add_def)

lemma checked_sub_None_iff [rust_simps]: "checked_sub a b = None \<longleftrightarrow> unat a < unat b"
  by (auto simp: checked_sub_def word_le_nat_alt)

lemma checked_mul_None_iff [rust_simps]:
  "checked_mul (a :: 'a::len word) b = None \<longleftrightarrow> 2 ^ LENGTH('a) \<le> unat a * unat b"
  by (auto simp: checked_mul_def)

lemma checked_div_None_iff [rust_simps]: "checked_div a b = None \<longleftrightarrow> b = 0"
  by (auto simp: checked_div_def)

lemma checked_pow_Some_iff [rust_simps]:
  "0 < unat b \<Longrightarrow> checked_pow b n = Some c \<longleftrightarrow> unat c = unat b ^ n"
proof (induction n arbitrary: c)
  case 0
  then show ?case by (auto simp: word_unat_eq_iff)
next
  case (Suc n)
  show ?case
  proof
    assume "checked_pow b (Suc n) = Some c"
    then obtain r where "checked_pow b n = Some r" and "checked_mul r b = Some c"
      by (auto simp: bind_eq_Some_conv)
    moreover from this Suc have "unat r = unat b ^ n" by blast
    ultimately show "unat c = unat b ^ Suc n"
      by (simp add: checked_mul_Some_iff)
  next
    assume c: "unat c = unat b ^ Suc n"
    define r :: "'a word" where "r = of_nat (unat b ^ n)"
    have "unat b ^ n \<le> unat b ^ Suc n" using Suc.prems by simp
    also have "\<dots> < 2 ^ LENGTH('a)" using c by (metis unat_less_pow)
    finally have r: "unat r = unat b ^ n"
      unfolding r_def by (simp add: unat_of_nat del: of_nat_power)
    then have "checked_pow b n = Some r" using Suc by simp
    moreover have "checked_mul r b = Some c"
      using r c by (simp add: checked_mul_Some_iff)
    ultimately show "checked_pow b (Suc n) = Some c" by simp
  qed
qed

lemma unat_saturating_sub: "unat (saturating_sub a b) = unat a - unat b"
  by (auto simp: saturating_sub_def unat_sub word_le_nat_alt)

lemma saturating_sub_le: "saturating_sub a b \<le> a"
  by (simp add: word_le_nat_alt unat_saturating_sub)

lemma unat_saturating_mul:
  "unat (saturating_mul a b) = min (unat a * unat b) (2 ^ LENGTH('a) - 1)"
  for a b :: "'a::len word"
proof (cases "unat a * unat b < 2 ^ LENGTH('a)")
  case True
  then show ?thesis by (simp add: saturating_mul_def unat_word_ariths)
next
  case False
  then have "min (unat a * unat b) (2 ^ LENGTH('a) - 1) = 2 ^ LENGTH('a) - 1" by linarith
  with False show ?thesis
    by (simp add: saturating_mul_def unsigned_minus_1_eq_mask mask_eq_exp_minus_1)
qed

lemma unat_min: "unat (min a b) = min (unat a) (unat b)"
  by (simp add: min_def word_le_nat_alt)

lemma unat_max: "unat (max a b) = max (unat a) (unat b)"
  by (simp add: max_def word_le_nat_alt)

lemma unat_div_mult: "unat (a div b * b) = unat a div unat b * unat b" for a b :: "'a::len word"
proof -
  have "unat a div unat b * unat b < 2 ^ LENGTH('a)"
    using unat_less_pow [of a] by (meson div_times_less_eq_dividend le_less_trans)
  then show ?thesis by (simp add: unat_word_ariths(2) unat_div)
qed

section \<open>Results\<close>

text \<open>\<open>Result<'a, 'e>\<close> is \<open>'e + 'a\<close>: \<open>Inl\<close> is \<open>Err\<close>, \<open>Inr\<close> is \<open>Ok\<close>.\<close>

definition and_then :: "'e + 'a \<Rightarrow> ('a \<Rightarrow> 'e + 'b) \<Rightarrow> 'e + 'b" where
  "and_then m f = (case m of Inl e \<Rightarrow> Inl e | Inr a \<Rightarrow> f a)"

text \<open>A panic aborts the process (\<open>panic = "abort"\<close>); functions that can panic return \<open>panic + 'a\<close>.\<close>

datatype panic = Panic

text \<open>\<open>std::process::ExitCode\<close>, the result of the command-line tools.\<close>

datatype exit_code = ExitSuccess | ExitFailure

definition ok_or :: "'e \<Rightarrow> 'a option \<Rightarrow> 'e + 'a" where
  "ok_or e x = (case x of None \<Rightarrow> Inl e | Some a \<Rightarrow> Inr a)"

definition map_err :: "('e \<Rightarrow> 'f) \<Rightarrow> 'e + 'a \<Rightarrow> 'f + 'a" where
  "map_err f m = (case m of Inl e \<Rightarrow> Inl (f e) | Inr a \<Rightarrow> Inr a)"

definition is_ok :: "'e + 'a \<Rightarrow> bool" where
  "is_ok m = (case m of Inl _ \<Rightarrow> False | Inr _ \<Rightarrow> True)"

lemma and_then_simps [simp]:
  "and_then (Inl e) f = Inl e"
  "and_then (Inr a) f = f a"
  by (simp_all add: and_then_def)

lemma and_then_Inr_iff [rust_simps]:
  "and_then m f = Inr b \<longleftrightarrow> (\<exists>a. m = Inr a \<and> f a = Inr b)"
  by (cases m) auto

lemma and_then_Inl_iff [rust_simps]:
  "and_then m f = Inl e \<longleftrightarrow> m = Inl e \<or> (\<exists>a. m = Inr a \<and> f a = Inl e)"
  by (cases m) auto

lemma and_then_total:
  "\<exists>a. m = Inr a \<Longrightarrow> (\<And>a. \<exists>b. f a = Inr b) \<Longrightarrow> \<exists>b. and_then m f = Inr b"
  by auto

lemma ok_or_simps [simp]:
  "ok_or e None = Inl e"
  "ok_or e (Some a) = Inr a"
  by (simp_all add: ok_or_def)

lemma ok_or_Inr_iff [rust_simps]: "ok_or e x = Inr a \<longleftrightarrow> x = Some a"
  by (cases x) auto

lemma ok_or_Inl_iff [rust_simps]: "ok_or e x = Inl e' \<longleftrightarrow> x = None \<and> e' = e"
  by (cases x) auto

lemma map_err_simps [simp]:
  "map_err f (Inl e) = Inl (f e)"
  "map_err f (Inr a) = Inr a"
  by (simp_all add: map_err_def)

lemma is_ok_simps [simp]:
  "is_ok (Inr a)"
  "\<not> is_ok (Inl e)"
  by (simp_all add: is_ok_def)

lemma is_ok_iff: "is_ok m \<longleftrightarrow> (\<exists>a. m = Inr a)"
  by (cases m) auto

section \<open>Stable sorting by a comparison\<close>

text \<open>
  \<open>slice::sort_by\<close> is a stable sort.  For a comparison that is a strict weak order the
  stable sorted permutation is unique, so an insertion sort that keeps equal elements in
  their order is a model of it.  The argument \<open>lt\<close> is the comparison's \<open>Ordering::Less\<close>.
\<close>

fun insert_by :: "('a \<Rightarrow> 'a \<Rightarrow> bool) \<Rightarrow> 'a \<Rightarrow> 'a list \<Rightarrow> 'a list" where
  "insert_by lt x [] = [x]"
| "insert_by lt x (y # ys) = (if lt y x then y # insert_by lt x ys else x # y # ys)"

definition sort_by :: "('a \<Rightarrow> 'a \<Rightarrow> bool) \<Rightarrow> 'a list \<Rightarrow> 'a list" where
  "sort_by lt xs = foldr (insert_by lt) xs []"

lemma sort_by_simps [simp]:
  "sort_by lt [] = []"
  "sort_by lt (x # xs) = insert_by lt x (sort_by lt xs)"
  by (simp_all add: sort_by_def)

lemma mset_insert_by [simp]: "mset (insert_by lt x xs) = add_mset x (mset xs)"
  by (induction xs) auto

lemma mset_sort_by [simp]: "mset (sort_by lt xs) = mset xs"
  by (induction xs) auto

lemma set_insert_by [simp]: "set (insert_by lt x xs) = insert x (set xs)"
  by (metis mset_insert_by set_mset_add_mset_insert set_mset_mset)

lemma set_sort_by [simp]: "set (sort_by lt xs) = set xs"
  by (metis mset_sort_by set_mset_mset)

lemma length_sort_by [simp]: "length (sort_by lt xs) = length xs"
  by (metis mset_sort_by size_mset)

lemma sort_by_eq_Nil [simp]: "sort_by lt xs = [] \<longleftrightarrow> xs = []"
  by (metis length_0_conv length_sort_by)

text \<open>What makes the result sorted: the comparison is a strict weak order on the elements.\<close>

definition weak_order_on :: "('a \<Rightarrow> 'a \<Rightarrow> bool) \<Rightarrow> 'a set \<Rightarrow> bool" where
  "weak_order_on lt A \<longleftrightarrow>
     (\<forall>x\<in>A. \<forall>y\<in>A. lt x y \<longrightarrow> \<not> lt y x) \<and>
     (\<forall>x\<in>A. \<forall>y\<in>A. \<forall>z\<in>A. \<not> lt y x \<longrightarrow> \<not> lt z y \<longrightarrow> \<not> lt z x)"

lemma weak_order_on_subset: "weak_order_on lt B \<Longrightarrow> A \<subseteq> B \<Longrightarrow> weak_order_on lt A"
  unfolding weak_order_on_def by blast

lemma weak_order_asym: "weak_order_on lt A \<Longrightarrow> x \<in> A \<Longrightarrow> y \<in> A \<Longrightarrow> lt x y \<Longrightarrow> \<not> lt y x"
  unfolding weak_order_on_def by blast

lemma weak_order_irrefl: "weak_order_on lt A \<Longrightarrow> x \<in> A \<Longrightarrow> \<not> lt x x"
  by (metis weak_order_asym)

lemma weak_order_trans:
  "weak_order_on lt A \<Longrightarrow> x \<in> A \<Longrightarrow> y \<in> A \<Longrightarrow> z \<in> A \<Longrightarrow> \<not> lt y x \<Longrightarrow> \<not> lt z y \<Longrightarrow> \<not> lt z x"
  unfolding weak_order_on_def by blast

lemma sorted_insert_by:
  assumes "weak_order_on lt (insert x (set xs))"
    and "sorted_wrt (\<lambda>a b. \<not> lt b a) xs"
  shows "sorted_wrt (\<lambda>a b. \<not> lt b a) (insert_by lt x xs)"
  using assms
proof (induction xs)
  case Nil
  then show ?case by simp
next
  case (Cons y ys)
  have sub: "weak_order_on lt (insert x (set ys))"
    using Cons.prems(1) by (rule weak_order_on_subset) auto
  show ?case
  proof (cases "lt y x")
    case True
    then have "\<not> lt x y" using weak_order_asym [OF Cons.prems(1), of y x] by simp
    with True Cons.IH [OF sub] Cons.prems(2) show ?thesis by auto
  next
    case False
    have "\<not> lt z x" if z: "z \<in> set ys" for z
    proof (rule weak_order_trans [OF Cons.prems(1), of x y z])
      show "\<not> lt z y" using z Cons.prems(2) by simp
    qed (use z False in auto)
    with False Cons.prems(2) show ?thesis by auto
  qed
qed

lemma sorted_sort_by:
  "weak_order_on lt (set xs) \<Longrightarrow> sorted_wrt (\<lambda>a b. \<not> lt b a) (sort_by lt xs)"
proof (induction xs)
  case Nil
  then show ?case by simp
next
  case (Cons x xs)
  have "weak_order_on lt (set xs)"
    using Cons.prems by (rule weak_order_on_subset) auto
  then show ?case using Cons by (simp add: sorted_insert_by)
qed

text \<open>Stability: the elements of one equivalence class keep their relative order.\<close>

lemma filter_insert_by:
  assumes "\<And>y. y \<in> set xs \<Longrightarrow> P x \<Longrightarrow> P y \<Longrightarrow> \<not> lt y x"
  shows "filter P (insert_by lt x xs) = (if P x then x # filter P xs else filter P xs)"
  using assms by (induction xs) auto

lemma stable_sort_by:
  assumes "\<And>x y. x \<in> set xs \<Longrightarrow> y \<in> set xs \<Longrightarrow> P x \<Longrightarrow> P y \<Longrightarrow> \<not> lt x y"
  shows "filter P (sort_by lt xs) = filter P xs"
  using assms
proof (induction xs)
  case Nil
  then show ?case by simp
next
  case (Cons x xs)
  have "filter P (insert_by lt x (sort_by lt xs)) =
      (if P x then x # filter P (sort_by lt xs) else filter P (sort_by lt xs))"
    using Cons.prems by (intro filter_insert_by) auto
  with Cons show ?case by simp
qed

lemma hd_sort_by_least:
  assumes "weak_order_on lt (set xs)" and "xs \<noteq> []" and "y \<in> set xs"
  shows "\<not> lt y (hd (sort_by lt xs))"
proof (cases "sort_by lt xs")
  case Nil
  then show ?thesis using assms(2) by simp
next
  case (Cons z zs)
  have y: "y \<in> set (z # zs)" using assms(3) by (metis Cons set_sort_by)
  have z: "z \<in> set xs" by (metis Cons list.set_intros(1) set_sort_by)
  have "\<not> lt z z" using assms(1) z by (rule weak_order_irrefl)
  moreover have "\<forall>w \<in> set zs. \<not> lt w z"
    using sorted_sort_by [OF assms(1)] by (simp add: Cons)
  ultimately show ?thesis using y by (auto simp: Cons)
qed

section \<open>Minimum and maximum by a comparison\<close>

text \<open>
  \<open>Iterator::min_by\<close> keeps the first of equally small elements, \<open>max_by\<close> the last of
  equally large ones.
\<close>

fun min_by :: "('a \<Rightarrow> 'a \<Rightarrow> bool) \<Rightarrow> 'a list \<Rightarrow> 'a option" where
  "min_by lt [] = None"
| "min_by lt (x # xs) = Some (foldl (\<lambda>m y. if lt y m then y else m) x xs)"

fun max_by :: "('a \<Rightarrow> 'a \<Rightarrow> bool) \<Rightarrow> 'a list \<Rightarrow> 'a option" where
  "max_by lt [] = None"
| "max_by lt (x # xs) = Some (foldl (\<lambda>m y. if \<not> lt y m then y else m) x xs)"

lemma foldl_choice_in_set:
  "foldl (\<lambda>m y. if P y m then y else m) x xs \<in> insert x (set xs)"
  by (induction xs arbitrary: x) auto

lemma min_by_None_iff [simp]: "min_by lt xs = None \<longleftrightarrow> xs = []"
  by (cases xs) auto

lemma max_by_None_iff [simp]: "max_by lt xs = None \<longleftrightarrow> xs = []"
  by (cases xs) auto

lemma min_by_in_set: "min_by lt xs = Some m \<Longrightarrow> m \<in> set xs"
  using foldl_choice_in_set [of lt "hd xs" "tl xs"] by (cases xs) auto

lemma max_by_in_set: "max_by lt xs = Some m \<Longrightarrow> m \<in> set xs"
  using foldl_choice_in_set [of "\<lambda>y m. \<not> lt y m" "hd xs" "tl xs"] by (cases xs) auto

text \<open>
  Both are a fold that keeps the better of two elements: any total preorder \<open>le\<close> that the
  choice respects bounds the result.
\<close>

lemma foldl_choice_extremal:
  assumes trans: "\<And>a b c. a \<in> A \<Longrightarrow> b \<in> A \<Longrightarrow> c \<in> A \<Longrightarrow> le a b \<Longrightarrow> le b c \<Longrightarrow> le a c"
    and refl: "\<And>a. a \<in> A \<Longrightarrow> le a a"
    and choice: "\<And>a b. a \<in> A \<Longrightarrow> b \<in> A \<Longrightarrow> if P b a then le b a else le a b"
    and "insert x (set xs) \<subseteq> A" and "y \<in> insert x (set xs)"
  shows "le (foldl (\<lambda>m y. if P y m then y else m) x xs) y"
  using assms(4,5)
proof (induction xs arbitrary: x y)
  case Nil
  then show ?case by (auto simp: refl)
next
  case (Cons z zs)
  define m where "m = (if P z x then z else x)"
  define r where "r = foldl (\<lambda>m y. if P y m then y else m) m zs"
  have sub: "insert m (set zs) \<subseteq> A" using Cons.prems(1) by (auto simp: m_def)
  have rA: "r \<in> A" using foldl_choice_in_set [of P m zs] sub by (auto simp: r_def)
  have rm: "le r m" unfolding r_def by (rule Cons.IH [OF sub]) simp
  have mle: "le m x" "le m z"
    using choice [of x z] Cons.prems(1) refl by (auto simp: m_def)
  have "le r w" if "w \<in> {x, z}" for w
    using that rm mle rA sub Cons.prems(1) by (auto intro: trans [of r m])
  moreover have "le r w" if "w \<in> set zs" for w
    unfolding r_def by (rule Cons.IH [OF sub]) (use that in simp)
  ultimately show ?case using Cons.prems(2) by (auto simp: r_def m_def)
qed

lemma min_by_least:
  assumes wo: "weak_order_on lt (set xs)" and "min_by lt xs = Some m" and "y \<in> set xs"
  shows "\<not> lt y m"
proof -
  obtain x zs where xs: "xs = x # zs" using assms(3) by (cases xs) auto
  have "(\<lambda>a b. \<not> lt b a) (foldl (\<lambda>m y. if lt y m then y else m) x zs) y"
  proof (rule foldl_choice_extremal [where le = "\<lambda>a b. \<not> lt b a" and A = "set xs"])
    fix a b c
    assume "a \<in> set xs" "b \<in> set xs" "c \<in> set xs" "\<not> lt b a" "\<not> lt c b"
    then show "\<not> lt c a" using weak_order_trans [OF wo] by blast
  next
    fix a b
    assume "a \<in> set xs" "b \<in> set xs"
    then show "if lt b a then \<not> lt a b else \<not> lt b a"
      using weak_order_asym [OF wo] by auto
  qed (use weak_order_irrefl [OF wo] assms(3) xs in auto)
  then show ?thesis using assms(2) xs by auto
qed

lemma min_by_snoc:
  "min_by lt (xs @ [x]) = (case min_by lt xs of None \<Rightarrow> Some x | Some m \<Rightarrow> Some (if lt x m then x else m))"
  by (cases xs) auto

text \<open>Dropping elements other than the chosen one does not change the choice.\<close>

lemma min_by_filter:
  assumes "weak_order_on lt (set xs)" and "min_by lt xs = Some m" and "P m"
  shows "min_by lt (filter P xs) = Some m"
  using assms
proof (induction xs arbitrary: m rule: rev_induct)
  case (snoc x xs)
  have wo: "weak_order_on lt (set xs)" using snoc.prems(1) by (rule weak_order_on_subset) auto
  show ?case
  proof (cases "min_by lt xs")
    case None
    with snoc.prems show ?thesis by (auto simp: min_by_snoc)
  next
    case (Some k)
    show ?thesis
    proof (cases "lt x k")
      case False
      with Some snoc.prems(2) have "k = m" by (simp add: min_by_snoc)
      with snoc.IH [OF wo Some] snoc.prems(3) False show ?thesis by (simp add: min_by_snoc)
    next
      case True
      with Some snoc.prems(2) have m: "x = m" by (simp add: min_by_snoc)
      have "lt x j" if "min_by lt (filter P xs) = Some j" for j
      proof (rule ccontr)
        assume "\<not> lt x j"
        moreover have j: "j \<in> set xs" using min_by_in_set [OF that] by simp
        moreover have "\<not> lt j k" by (rule min_by_least [OF wo Some j])
        ultimately have "\<not> lt x k"
          using weak_order_trans [OF snoc.prems(1), of k j x] min_by_in_set [OF Some] by simp
        with True show False by simp
      qed
      with m snoc.prems(3) show ?thesis by (auto simp: min_by_snoc split: option.splits)
    qed
  qed
qed simp

lemma max_by_greatest:
  assumes wo: "weak_order_on lt (set xs)" and "max_by lt xs = Some m" and "y \<in> set xs"
  shows "\<not> lt m y"
proof -
  obtain x zs where xs: "xs = x # zs" using assms(3) by (cases xs) auto
  have "(\<lambda>a b. \<not> lt a b) (foldl (\<lambda>m y. if \<not> lt y m then y else m) x zs) y"
  proof (rule foldl_choice_extremal [where le = "\<lambda>a b. \<not> lt a b" and A = "set xs"])
    fix a b c
    assume "a \<in> set xs" "b \<in> set xs" "c \<in> set xs" "\<not> lt a b" "\<not> lt b c"
    then show "\<not> lt a c" using weak_order_trans [OF wo] by blast
  next
    fix a b
    assume "a \<in> set xs" "b \<in> set xs"
    then show "if \<not> lt b a then \<not> lt b a else \<not> lt a b"
      using weak_order_asym [OF wo] by auto
  qed (use weak_order_irrefl [OF wo] assms(3) xs in auto)
  then show ?thesis using assms(2) xs by auto
qed

end
