(* ===== verification/F64.thy ===== *)
theory F64
  imports Prelude "HOL-Library.Log_Nat"
begin

text \<open>
  The \<open>f64\<close> of the Rust sources: IEEE-754 double precision with rounding to nearest, ties
  to even.  A value is a NaN, an infinity or a rational; every arithmetic result is the
  exact rational result rounded by \<open>f64_round\<close>, which yields a double (53 significant bits,
  exponents from -1074 on) or an infinity.  The two zeros are identified: the sources
  never divide by a value that can be zero and never print the sign of a zero, so nothing
  they compute tells them apart.  The lemmas give the ordering laws that hold in spite of
  NaN, and that rounding is monotone and exact on small integers, from which the components
  derive exact bounds on rounded quantities.
\<close>

named_theorems f64_simps \<open>case equations of the floating-point operations\<close>

section \<open>Rounding a rational to a double\<close>

definition ilog2 :: "rat \<Rightarrow> int" where
  "ilog2 q =
     (let (n, d) = quotient_of q; k = bitlen n - bitlen d
      in if 2 powi k \<le> q then k else k - 1)"

definition round_half_even :: "rat \<Rightarrow> int" where
  "round_half_even x =
     (let f = \<lfloor>x\<rfloor>; r = x - of_int f
      in if r < 1 / 2 then f else if 1 / 2 < r then f + 1
         else if even f then f else f + 1)"

text \<open>The exponent of the last place of the doubles around \<open>q\<close>: subnormals share -1074.\<close>

definition ulp_exp :: "rat \<Rightarrow> int" where
  "ulp_exp q = max (ilog2 q) (- 1022) - 52"

definition round_pos :: "rat \<Rightarrow> rat" where
  "round_pos q = of_int (round_half_even (q / 2 powi ulp_exp q)) * 2 powi ulp_exp q"

datatype f64 = NaN | PInf | NInf | Fin rat

definition f64_round :: "rat \<Rightarrow> f64" where
  "f64_round q =
     (if q = 0 then Fin 0
      else if 0 < q then (if 2 ^ 1024 \<le> round_pos q then PInf else Fin (round_pos q))
      else (if 2 ^ 1024 \<le> round_pos (- q) then NInf else Fin (- round_pos (- q))))"

subsection \<open>Rounding is monotone and keeps representable values\<close>

lemma round_half_even_ge_floor: "\<lfloor>x\<rfloor> \<le> round_half_even x"
  by (simp add: round_half_even_def Let_def)

lemma round_half_even_le_floor: "round_half_even x \<le> \<lfloor>x\<rfloor> + 1"
  by (simp add: round_half_even_def Let_def)

lemma round_half_even_mono: "x \<le> y \<Longrightarrow> round_half_even x \<le> round_half_even y"
proof (cases "\<lfloor>x\<rfloor> = \<lfloor>y\<rfloor>")
  case True
  assume "x \<le> y"
  with True show ?thesis by (auto simp: round_half_even_def Let_def)
next
  case False
  assume "x \<le> y"
  then have "\<lfloor>x\<rfloor> \<le> \<lfloor>y\<rfloor>" by (rule floor_mono)
  with False have "\<lfloor>x\<rfloor> + 1 \<le> \<lfloor>y\<rfloor>" by simp
  then show ?thesis
    using round_half_even_le_floor [of x] round_half_even_ge_floor [of y] by linarith
qed

lemma round_half_even_of_int [simp]: "round_half_even (of_int n) = n"
  by (simp add: round_half_even_def Let_def)

lemma powi_two_pos [simp]: "0 < (2 :: rat) powi k"
  by simp

lemma powi_two_less_iff: "(2 :: rat) powi a < 2 powi b \<longleftrightarrow> a < b"
  by (meson linorder_not_less not_less_iff_gr_or_eq one_less_numeral_iff power_int_increasing
      power_int_strict_increasing semiring_norm(76) less_imp_le)

lemma bitlen_powi:
  assumes "0 < n"
  shows "2 powi (bitlen n - 1) \<le> (of_int n :: rat)" and "(of_int n :: rat) < 2 powi bitlen n"
proof -
  have b: "1 \<le> bitlen n"
    using assms bitlen_eq_zero_iff [of n] bitlen_nonneg [of n] by linarith
  have "(2 :: int) ^ nat (bitlen n - 1) \<le> n" and "n < 2 ^ nat (bitlen n)"
    using bitlen_bounds [OF assms] by auto
  then have "(of_int (2 ^ nat (bitlen n - 1)) :: rat) \<le> of_int n"
    and "(of_int n :: rat) < of_int (2 ^ nat (bitlen n))"
    by (simp_all only: of_int_le_iff of_int_less_iff)
  then show "2 powi (bitlen n - 1) \<le> (of_int n :: rat)" and "(of_int n :: rat) < 2 powi bitlen n"
    using b by (simp_all add: power_int_def)
qed

lemma ilog2_bounds:
  assumes "0 < q"
  shows "2 powi ilog2 q \<le> q" and "q < 2 powi (ilog2 q + 1)"
proof -
  obtain n d where nd: "quotient_of q = (n, d)" by (cases "quotient_of q") auto
  have q: "q = of_int n / of_int d" using nd by (rule quotient_of_div)
  have d: "0 < d" using nd by (rule quotient_of_denom_pos)
  then have n: "0 < n" using assms q by (simp add: zero_less_divide_iff)
  let ?k = "bitlen n - bitlen d"
  have "q < 2 powi bitlen n / 2 powi (bitlen d - 1)"
    unfolding q using bitlen_powi [OF n] bitlen_powi [OF d] n d
    by (intro frac_less) auto
  also have "\<dots> = 2 powi (?k + 1)"
    by (simp add: algebra_simps flip: power_int_diff)
  finally have hi: "q < 2 powi (?k + 1)" .
  have "2 powi (?k - 1) = (2 powi (bitlen n - 1) / 2 powi bitlen d :: rat)"
    by (simp add: algebra_simps flip: power_int_diff)
  also have "\<dots> \<le> q"
    unfolding q using bitlen_powi [OF n] bitlen_powi [OF d] n d
    by (intro frac_le) auto
  finally have lo: "2 powi (?k - 1) \<le> q" .
  show "2 powi ilog2 q \<le> q" using lo by (auto simp: ilog2_def nd Let_def)
  show "q < 2 powi (ilog2 q + 1)" using hi by (auto simp: ilog2_def nd Let_def)
qed

lemma ilog2_mono:
  assumes "0 < p" and "p \<le> q"
  shows "ilog2 p \<le> ilog2 q"
proof -
  have "2 powi ilog2 p \<le> q" using ilog2_bounds(1) [of p] assms by simp
  also have "q < 2 powi (ilog2 q + 1)" using assms by (simp add: ilog2_bounds)
  finally show ?thesis by (simp add: powi_two_less_iff)
qed

lemma ulp_exp_mono: "0 < p \<Longrightarrow> p \<le> q \<Longrightarrow> ulp_exp p \<le> ulp_exp q"
  using ilog2_mono [of p q] by (simp add: ulp_exp_def)

text \<open>A power of two at or above the last place of \<open>q\<close> bounds the rounded value.\<close>

lemma powi_two_multiple:
  assumes "e \<le> k"
  shows "(2 :: rat) powi k / 2 powi e = of_int (2 ^ nat (k - e))"
proof -
  have "(2 :: rat) powi k / 2 powi e = 2 powi (k - e)" by (simp add: power_int_diff)
  also have "\<dots> = of_int (2 ^ nat (k - e))" using assms by (simp add: power_int_def)
  finally show ?thesis .
qed

lemma round_pos_le_powi:
  assumes "q \<le> 2 powi k" and "ulp_exp q \<le> k"
  shows "round_pos q \<le> 2 powi k"
proof -
  let ?e = "ulp_exp q"
  have "q / 2 powi ?e \<le> of_int (2 ^ nat (k - ?e))"
    unfolding powi_two_multiple [OF assms(2), symmetric]
    using assms(1) by (simp add: divide_right_mono)
  then have "round_half_even (q / 2 powi ?e) \<le> 2 ^ nat (k - ?e)"
    by (metis round_half_even_mono round_half_even_of_int)
  then have "(of_int (round_half_even (q / 2 powi ?e)) :: rat) \<le> of_int (2 ^ nat (k - ?e))"
    by (simp only: of_int_le_iff)
  also have "\<dots> = 2 powi k / 2 powi ?e" using assms(2) by (rule powi_two_multiple [symmetric])
  finally show ?thesis by (simp add: round_pos_def field_simps)
qed

lemma round_pos_ge_powi:
  assumes "2 powi k \<le> q" and "ulp_exp q \<le> k"
  shows "2 powi k \<le> round_pos q"
proof -
  let ?e = "ulp_exp q"
  have "of_int (2 ^ nat (k - ?e)) \<le> q / 2 powi ?e"
    unfolding powi_two_multiple [OF assms(2), symmetric]
    using assms(1) by (simp add: divide_right_mono)
  then have "2 ^ nat (k - ?e) \<le> round_half_even (q / 2 powi ?e)"
    by (metis round_half_even_mono round_half_even_of_int)
  then have "(of_int (2 ^ nat (k - ?e)) :: rat) \<le> of_int (round_half_even (q / 2 powi ?e))"
    by (simp only: of_int_le_iff)
  then have "2 powi k / 2 powi ?e \<le> (of_int (round_half_even (q / 2 powi ?e)) :: rat)"
    by (simp only: powi_two_multiple [OF assms(2)])
  then show ?thesis by (simp add: round_pos_def pos_divide_le_eq)
qed

lemma round_pos_mono:
  assumes "0 < p" and "p \<le> q"
  shows "round_pos p \<le> round_pos q"
proof (cases "ulp_exp p = ulp_exp q")
  case True
  have "p / 2 powi ulp_exp q \<le> q / 2 powi ulp_exp q"
    using assms(2) by (simp add: divide_right_mono)
  then have "round_half_even (p / 2 powi ulp_exp q) \<le> round_half_even (q / 2 powi ulp_exp q)"
    by (rule round_half_even_mono)
  with True show ?thesis by (simp add: round_pos_def mult_right_mono)
next
  case False
  then have lt: "ulp_exp p < ulp_exp q" using ulp_exp_mono [OF assms] by simp
  then have q: "ulp_exp q = ilog2 q - 52" and pq: "ilog2 p < ilog2 q"
    by (auto simp: ulp_exp_def)
  have "p < 2 powi (ilog2 p + 1)" using assms by (simp add: ilog2_bounds)
  also have "\<dots> \<le> 2 powi ilog2 q" using pq by (simp add: power_int_increasing)
  finally have "round_pos p \<le> 2 powi ilog2 q"
    using lt q by (intro round_pos_le_powi) auto
  also have "\<dots> \<le> round_pos q"
    using q assms by (intro round_pos_ge_powi) (auto simp: ilog2_bounds)
  finally show ?thesis .
qed

lemma round_pos_nonneg: "0 < q \<Longrightarrow> 0 \<le> round_pos q"
  using round_half_even_ge_floor [of "q / 2 powi ulp_exp q"]
  by (simp add: round_pos_def order.trans [of 0 "\<lfloor>q / 2 powi ulp_exp q\<rfloor>"])

lemma round_pos_exact:
  assumes "q = of_int m * 2 powi ulp_exp q"
  shows "round_pos q = q"
proof -
  have "q / 2 powi ulp_exp q = of_int m" using assms by (simp add: field_simps)
  then show ?thesis using assms by (simp add: round_pos_def)
qed

lemma round_pos_of_int:
  assumes "0 < n" and "n < 2 ^ 53"
  shows "round_pos (of_int n) = of_int n"
proof (rule round_pos_exact)
  have "2 powi ilog2 (of_int n) \<le> (of_int n :: rat)" using assms by (simp add: ilog2_bounds)
  also have "(of_int n :: rat) < of_int (2 ^ 53)" using assms(2) by (simp only: of_int_less_iff)
  also have "(of_int (2 ^ 53) :: rat) = 2 powi 53" by (simp add: power_int_def)
  finally have "ilog2 (of_int n) < 53" by (simp only: powi_two_less_iff)
  then have e: "ulp_exp (of_int n) \<le> 0" by (simp add: ulp_exp_def)
  let ?e = "ulp_exp (of_int n :: rat)"
  have "(2 :: rat) powi 0 / 2 powi ?e = of_int (2 ^ nat (0 - ?e))"
    using e by (rule powi_two_multiple)
  then have "(1 :: rat) = of_int (2 ^ nat (- ?e)) * 2 powi ?e" by (simp add: field_simps)
  then show "(of_int n :: rat) = of_int (n * 2 ^ nat (- ?e)) * 2 powi ?e"
    by (simp add: mult.assoc)
qed

section \<open>Comparison\<close>

fun f64_lt :: "f64 \<Rightarrow> f64 \<Rightarrow> bool" where
  "f64_lt NaN _ = False"
| "f64_lt _ NaN = False"
| "f64_lt (Fin a) (Fin b) = (a < b)"
| "f64_lt NInf y = (y \<noteq> NInf)"
| "f64_lt x PInf = (x \<noteq> PInf)"
| "f64_lt _ _ = False"

fun f64_le :: "f64 \<Rightarrow> f64 \<Rightarrow> bool" where
  "f64_le NaN _ = False"
| "f64_le _ NaN = False"
| "f64_le (Fin a) (Fin b) = (a \<le> b)"
| "f64_le NInf _ = True"
| "f64_le _ PInf = True"
| "f64_le _ _ = False"

definition f64_eq :: "f64 \<Rightarrow> f64 \<Rightarrow> bool" where
  "f64_eq a b \<longleftrightarrow> a \<noteq> NaN \<and> a = b"

abbreviation f64_gt :: "f64 \<Rightarrow> f64 \<Rightarrow> bool" where "f64_gt a b \<equiv> f64_lt b a"
abbreviation f64_ge :: "f64 \<Rightarrow> f64 \<Rightarrow> bool" where "f64_ge a b \<equiv> f64_le b a"

definition is_finite :: "f64 \<Rightarrow> bool" where
  "is_finite x = (case x of Fin _ \<Rightarrow> True | _ \<Rightarrow> False)"

lemma is_finite_simps [simp]:
  "is_finite (Fin r)" "\<not> is_finite NaN" "\<not> is_finite PInf" "\<not> is_finite NInf"
  by (simp_all add: is_finite_def)

lemma f64_le_refl_iff [simp]: "f64_le x x \<longleftrightarrow> x \<noteq> NaN"
  by (cases x) auto

lemma f64_lt_irrefl [simp]: "\<not> f64_lt x x"
  by (cases x) auto

lemma f64_le_NaN [simp]: "\<not> f64_le x NaN"
  by (cases x) auto

lemma f64_lt_NaN [simp]: "\<not> f64_lt x NaN"
  by (cases x) auto

lemma f64_le_trans: "f64_le x y \<Longrightarrow> f64_le y z \<Longrightarrow> f64_le x z"
  by (cases x; cases y; cases z) auto

lemma f64_le_antisym: "f64_le x y \<Longrightarrow> f64_le y x \<Longrightarrow> x = y"
  by (cases x; cases y) auto

lemma f64_lt_le: "f64_lt x y \<Longrightarrow> f64_le x y"
  by (cases x; cases y) auto

lemma f64_lt_trans: "f64_lt x y \<Longrightarrow> f64_lt y z \<Longrightarrow> f64_lt x z"
  by (cases x; cases y; cases z) auto

lemma f64_le_lt_trans: "f64_le x y \<Longrightarrow> f64_lt y z \<Longrightarrow> f64_lt x z"
  by (cases x; cases y; cases z) auto

lemma f64_lt_le_trans: "f64_lt x y \<Longrightarrow> f64_le y z \<Longrightarrow> f64_lt x z"
  by (cases x; cases y; cases z) auto

lemma not_f64_lt: "\<not> f64_lt x y \<longleftrightarrow> x = NaN \<or> y = NaN \<or> f64_le y x"
  by (cases x; cases y) auto

lemma not_f64_le: "\<not> f64_le x y \<longleftrightarrow> x = NaN \<or> y = NaN \<or> f64_lt y x"
  by (cases x; cases y) auto

text \<open>Without NaN the comparison is a strict weak order, so sorting by it is meaningful.\<close>

lemma f64_weak_order:
  "(\<And>x. x \<in> A \<Longrightarrow> key x \<noteq> NaN) \<Longrightarrow> weak_order_on (\<lambda>a b. f64_lt (key b) (key a)) A"
  unfolding weak_order_on_def by (metis f64_le_lt_trans f64_lt_le not_f64_lt)

section \<open>Arithmetic\<close>

fun f64_neg :: "f64 \<Rightarrow> f64" where
  "f64_neg NaN = NaN"
| "f64_neg PInf = NInf"
| "f64_neg NInf = PInf"
| "f64_neg (Fin a) = Fin (- a)"

fun f64_abs :: "f64 \<Rightarrow> f64" where
  "f64_abs NaN = NaN"
| "f64_abs PInf = PInf"
| "f64_abs NInf = PInf"
| "f64_abs (Fin a) = Fin \<bar>a\<bar>"

fun f64_add :: "f64 \<Rightarrow> f64 \<Rightarrow> f64" where
  "f64_add (Fin a) (Fin b) = f64_round (a + b)"
| "f64_add NaN _ = NaN"
| "f64_add _ NaN = NaN"
| "f64_add PInf NInf = NaN"
| "f64_add NInf PInf = NaN"
| "f64_add PInf _ = PInf"
| "f64_add NInf _ = NInf"
| "f64_add _ y = y"

definition f64_sub :: "f64 \<Rightarrow> f64 \<Rightarrow> f64" where
  "f64_sub a b = f64_add a (f64_neg b)"

definition signed_inf :: "rat \<Rightarrow> f64" where
  "signed_inf s = (if s = 0 then NaN else if 0 < s then PInf else NInf)"

fun f64_mul :: "f64 \<Rightarrow> f64 \<Rightarrow> f64" where
  "f64_mul (Fin a) (Fin b) = f64_round (a * b)"
| "f64_mul NaN _ = NaN"
| "f64_mul _ NaN = NaN"
| "f64_mul (Fin a) PInf = signed_inf a"
| "f64_mul (Fin a) NInf = signed_inf (- a)"
| "f64_mul PInf (Fin b) = signed_inf b"
| "f64_mul NInf (Fin b) = signed_inf (- b)"
| "f64_mul PInf y = y"
| "f64_mul NInf y = f64_neg y"

text \<open>
  Division by a zero gives NaN or an infinity whose sign is that of the zero; as zeros are
  unsigned here it is taken with a positive zero.  No function of the sources divides by zero.
\<close>

fun f64_div :: "f64 \<Rightarrow> f64 \<Rightarrow> f64" where
  "f64_div (Fin a) (Fin b) = (if b = 0 then signed_inf a else f64_round (a / b))"
| "f64_div NaN _ = NaN"
| "f64_div _ NaN = NaN"
| "f64_div (Fin a) _ = Fin 0"
| "f64_div PInf (Fin b) = (if b < 0 then NInf else PInf)"
| "f64_div NInf (Fin b) = (if b < 0 then PInf else NInf)"
| "f64_div _ _ = NaN"

text \<open>\<open>f64::min\<close> and \<open>f64::max\<close> return the other argument when one is NaN.\<close>

definition f64_min :: "f64 \<Rightarrow> f64 \<Rightarrow> f64" where
  "f64_min a b = (if a = NaN then b else if b = NaN then a else if f64_lt b a then b else a)"

definition f64_max :: "f64 \<Rightarrow> f64 \<Rightarrow> f64" where
  "f64_max a b = (if a = NaN then b else if b = NaN then a else if f64_lt a b then b else a)"

text \<open>\<open>f64::clamp\<close> panics unless \<open>lo <= hi\<close>; a NaN passes through.\<close>

definition f64_clamp :: "f64 \<Rightarrow> f64 \<Rightarrow> f64 \<Rightarrow> panic + f64" where
  "f64_clamp x lo hi =
     (if f64_le lo hi
      then Inr (if f64_lt x lo then lo else if f64_lt hi x then hi else x)
      else Inl Panic)"

definition f64_lit :: "rat \<Rightarrow> f64" where
  "f64_lit q = f64_round q"

definition f64_of_word :: "'a::len word \<Rightarrow> f64" where
  "f64_of_word w = f64_round (of_nat (unat w))"

text \<open>Casts to unsigned integers truncate towards zero and saturate; NaN becomes zero.\<close>

fun f64_to_word :: "f64 \<Rightarrow> 'a::len word" where
  "f64_to_word NaN = 0"
| "f64_to_word PInf = - 1"
| "f64_to_word NInf = 0"
| "f64_to_word (Fin a) =
     (if a \<le> 0 then 0
      else if 2 ^ LENGTH('a) \<le> \<lfloor>a\<rfloor> then - 1 else of_int \<lfloor>a\<rfloor>)"

text \<open>\<open>f64::round\<close> rounds half away from zero.\<close>

fun f64_round_int :: "f64 \<Rightarrow> f64" where
  "f64_round_int (Fin a) =
     Fin (of_int (if 0 \<le> a then \<lfloor>a + 1 / 2\<rfloor> else - \<lfloor>- a + 1 / 2\<rfloor>))"
| "f64_round_int x = x"

text \<open>\<open>Iterator::sum\<close> adds from the left, starting at zero.\<close>

definition f64_sum :: "f64 list \<Rightarrow> f64" where
  "f64_sum xs = foldl f64_add (Fin 0) xs"

section \<open>Laws of the operations\<close>

lemma f64_round_not_NaN [simp]: "f64_round q \<noteq> NaN"
  by (simp add: f64_round_def)

lemma f64_round_0 [simp]: "f64_round 0 = Fin 0"
  by (simp add: f64_round_def)

lemma f64_round_nonneg: "0 \<le> q \<Longrightarrow> f64_le (Fin 0) (f64_round q)"
  by (auto simp: f64_round_def round_pos_nonneg)

lemma f64_round_nonpos: "q \<le> 0 \<Longrightarrow> f64_le (f64_round q) (Fin 0)"
  by (auto simp: f64_round_def round_pos_nonneg)

text \<open>Rounding never reverses the order of two exact results.\<close>

lemma f64_round_mono:
  assumes "p \<le> q"
  shows "f64_le (f64_round p) (f64_round q)"
proof -
  consider "0 < p" | "q < 0" | "p \<le> 0" "0 \<le> q" using assms by linarith
  then show ?thesis
  proof cases
    case 1
    then show ?thesis
      using round_pos_mono [OF 1 assms] assms by (auto simp: f64_round_def)
  next
    case 2
    then show ?thesis
      using round_pos_mono [of "- q" "- p"] assms by (auto simp: f64_round_def)
  next
    case 3
    then show ?thesis by (meson f64_le_trans f64_round_nonneg f64_round_nonpos)
  qed
qed

lemma f64_round_of_int:
  assumes "\<bar>n\<bar> < 2 ^ 53"
  shows "f64_round (of_int n) = Fin (of_int n)"
proof -
  have big: "(2 :: rat) ^ 53 < 2 ^ 1024" by (simp add: power_strict_increasing)
  have bound: "round_pos (of_int m) = of_int m \<and> \<not> 2 ^ 1024 \<le> (of_int m :: rat)"
    if "0 < m" "m < 2 ^ 53" for m :: int
  proof -
    have "(of_int m :: rat) < of_int (2 ^ 53)" using that(2) by (simp only: of_int_less_iff)
    then have "(of_int m :: rat) < 2 ^ 1024" using big by (simp only: of_int_power of_int_numeral)
    then show ?thesis using that by (simp add: round_pos_of_int)
  qed
  consider "n = 0" | "0 < n" | "n < 0" by linarith
  then show ?thesis
  proof cases
    case 1
    then show ?thesis by simp
  next
    case 2
    then show ?thesis using bound [of n] assms by (simp add: f64_round_def)
  next
    case 3
    then show ?thesis using bound [of "- n"] assms by (simp add: f64_round_def)
  qed
qed

lemma f64_round_1 [simp]: "f64_round 1 = Fin 1"
  using f64_round_of_int [of 1] by simp

lemma f64_round_numeral: "numeral k < (2 :: int) ^ 53 \<Longrightarrow> f64_round (numeral k) = Fin (numeral k)"
  using f64_round_of_int [of "numeral k"] by simp

lemma f64_of_word_nonneg: "f64_le (Fin 0) (f64_of_word w)"
  unfolding f64_of_word_def by (rule f64_round_nonneg) (rule of_nat_0_le_iff)

lemma f64_of_word_mono: "a \<le> b \<Longrightarrow> f64_le (f64_of_word a) (f64_of_word b)"
  unfolding f64_of_word_def word_le_nat_alt by (rule f64_round_mono) (simp only: of_nat_le_iff)

lemma f64_of_word_exact:
  assumes "unat w < 2 ^ 53"
  shows "f64_of_word w = Fin (of_nat (unat w))"
proof -
  have "int (unat w) < int (2 ^ 53)" using assms by (simp only: of_nat_less_iff)
  then have "f64_round (of_int (int (unat w))) = Fin (of_int (int (unat w)))"
    by (intro f64_round_of_int) simp
  then show ?thesis unfolding f64_of_word_def by (simp only: of_int_of_nat_eq)
qed

text \<open>A rounded quotient stays on the side of one that the exact quotient is on.\<close>

lemma f64_div_lt_1:
  assumes "f64_lt (f64_div (Fin a) (Fin b)) (Fin 1)" and "0 < b"
  shows "a < b"
proof (rule ccontr)
  assume "\<not> a < b"
  then have "1 \<le> a / b" using assms(2) by simp
  then have "f64_le (Fin 1) (f64_round (a / b))" by (metis f64_round_1 f64_round_mono)
  moreover have "f64_lt (f64_round (a / b)) (Fin 1)" using assms by simp
  ultimately show False by (metis f64_le_lt_trans f64_lt_irrefl)
qed

lemma f64_div_le_1: "0 < b \<Longrightarrow> a \<le> b \<Longrightarrow> f64_le (f64_div (Fin a) (Fin b)) (Fin 1)"
  using f64_round_mono [of "a / b" 1] by simp

lemma f64_div_nonneg: "0 < b \<Longrightarrow> 0 \<le> a \<Longrightarrow> f64_le (Fin 0) (f64_div (Fin a) (Fin b))"
  by (simp add: f64_round_nonneg)

lemma f64_min_le1: "a \<noteq> NaN \<Longrightarrow> f64_le (f64_min a b) a"
  by (auto simp: f64_min_def not_f64_lt dest: f64_lt_le)

lemma f64_min_le2: "b \<noteq> NaN \<Longrightarrow> f64_le (f64_min a b) b"
  by (auto simp: f64_min_def not_f64_lt dest: f64_lt_le)

lemma f64_max_ge1: "a \<noteq> NaN \<Longrightarrow> f64_le a (f64_max a b)"
  by (auto simp: f64_max_def not_f64_lt dest: f64_lt_le)

lemma f64_max_ge2: "b \<noteq> NaN \<Longrightarrow> f64_le b (f64_max a b)"
  by (auto simp: f64_max_def not_f64_lt dest: f64_lt_le)

lemma f64_max_not_NaN: "b \<noteq> NaN \<Longrightarrow> f64_max a b \<noteq> NaN"
  by (simp add: f64_max_def)

lemma f64_min_NaN_iff: "f64_min a b = NaN \<longleftrightarrow> a = NaN \<and> b = NaN"
  by (auto simp: f64_min_def)

lemma f64_max_le: "f64_le a c \<Longrightarrow> f64_le b c \<Longrightarrow> f64_le (f64_max a b) c"
  by (auto simp: f64_max_def)

lemma f64_min_ge: "f64_le c a \<Longrightarrow> f64_le c b \<Longrightarrow> f64_le c (f64_min a b)"
  by (auto simp: f64_min_def)

lemma f64_clamp_Inr:
  assumes "f64_clamp x lo hi = Inr y" and "x \<noteq> NaN"
  shows "f64_le lo y" and "f64_le y hi"
  using assms by (auto simp: f64_clamp_def not_f64_lt split: if_splits)

lemma f64_clamp_total: "f64_le lo hi \<Longrightarrow> \<exists>y. f64_clamp x lo hi = Inr y"
  by (simp add: f64_clamp_def)

lemma f64_add_nonneg: "f64_le (Fin 0) a \<Longrightarrow> f64_le (Fin 0) b \<Longrightarrow> f64_le (Fin 0) (f64_add a b)"
  by (cases a; cases b) (auto simp: f64_round_nonneg)

lemma f64_mul_nonneg:
  "f64_le (Fin 0) a \<Longrightarrow> is_finite a \<Longrightarrow> f64_le (Fin 0) b \<Longrightarrow> is_finite b \<Longrightarrow> f64_le (Fin 0) (f64_mul a b)"
  by (cases a; cases b) (auto simp: f64_round_nonneg)

lemma f64_nonneg_not_NaN: "f64_le (Fin 0) a \<Longrightarrow> a \<noteq> NaN"
  by auto

lemma f64_to_word_le:
  assumes "f64_le x (Fin a)" and "0 \<le> a"
  shows "of_nat (unat (f64_to_word x :: 'b::len word)) \<le> a"
proof (cases x)
  case (Fin r)
  have "r \<le> a" using assms(1) by (simp add: Fin)
  show ?thesis
  proof (cases "r \<le> 0")
    case True
    then show ?thesis using Fin assms(2) by simp
  next
    case pos: False
    have fl: "of_int \<lfloor>r\<rfloor> \<le> a" using \<open>r \<le> a\<close> of_int_floor_le [of r] by linarith
    have nn: "0 \<le> \<lfloor>r\<rfloor>" using pos by simp
    show ?thesis
    proof (cases "2 ^ LENGTH('b) \<le> \<lfloor>r\<rfloor>")
      case True
      have "int (unat (- 1 :: 'b word)) \<le> \<lfloor>r\<rfloor>"
        using True unat_less_pow [of "- 1 :: 'b word"]
        by (metis dual_order.trans less_imp_le of_nat_less_iff of_nat_numeral of_nat_power)
      then have "(of_int (int (unat (- 1 :: 'b word))) :: rat) \<le> of_int \<lfloor>r\<rfloor>"
        by (simp only: of_int_le_iff)
      then show ?thesis using Fin pos True fl by simp
    next
      case False
      then have "int (unat (of_int \<lfloor>r\<rfloor> :: 'b word)) = \<lfloor>r\<rfloor>"
        using nn by (simp add: unsigned_of_int take_bit_int_eq_self)
      then have "(of_nat (unat (of_int \<lfloor>r\<rfloor> :: 'b word)) :: rat) = of_int \<lfloor>r\<rfloor>"
        by (metis of_int_of_nat_eq)
      then show ?thesis using Fin pos False fl by simp
    qed
  qed
qed (use assms in auto)

subsection \<open>Magnitudes that cannot overflow\<close>

text \<open>\<open>f64_within k x\<close>: finite and at most \<open>2 ^ k\<close> in magnitude.\<close>

definition f64_within :: "nat \<Rightarrow> f64 \<Rightarrow> bool" where
  "f64_within k x = (case x of Fin r \<Rightarrow> \<bar>r\<bar> \<le> 2 ^ k | _ \<Rightarrow> False)"

lemma f64_within_Fin [simp]: "f64_within k (Fin r) \<longleftrightarrow> \<bar>r\<bar> \<le> 2 ^ k"
  by (simp add: f64_within_def)

lemma f64_within_finite: "f64_within k x \<Longrightarrow> is_finite x"
  by (cases x) (auto simp: f64_within_def)

lemma f64_withinE: "f64_within k x \<Longrightarrow> (\<And>r. x = Fin r \<Longrightarrow> \<bar>r\<bar> \<le> 2 ^ k \<Longrightarrow> P) \<Longrightarrow> P"
  by (cases x) (auto simp: f64_within_def)

lemma f64_within_mono: "f64_within j x \<Longrightarrow> j \<le> k \<Longrightarrow> f64_within k x"
  by (erule f64_withinE) (auto intro: order.trans power_increasing)

lemma round_pos_le_pow:
  assumes "0 < q" and "q \<le> 2 ^ k"
  shows "round_pos q \<le> 2 ^ k"
proof -
  have "(2 :: rat) powi ilog2 (2 ^ k) \<le> 2 powi int k"
    using ilog2_bounds(1) [of "2 ^ k"] by simp
  then have "ilog2 (2 ^ k) \<le> int k" using powi_two_less_iff [of "int k" "ilog2 (2 ^ k)"] by force
  then have "round_pos (2 ^ k) \<le> 2 powi int k"
    by (intro round_pos_le_powi) (auto simp: ulp_exp_def)
  with round_pos_mono [OF assms] show ?thesis by simp
qed

lemma f64_round_within:
  assumes "\<bar>q\<bar> \<le> 2 ^ k" and "k \<le> 1023"
  shows "f64_within k (f64_round q)"
proof -
  have big: "(2 :: rat) ^ k < 2 ^ 1024" using assms(2) by (intro power_strict_increasing) auto
  consider "q = 0" | "0 < q" | "q < 0" by linarith
  then show ?thesis
  proof cases
    case 2
    then show ?thesis
      using round_pos_le_pow [of q k] round_pos_nonneg [of q] assms(1) big by (simp add: f64_round_def)
  next
    case 3
    then show ?thesis
      using round_pos_le_pow [of "- q" k] round_pos_nonneg [of "- q"] assms(1) big by (simp add: f64_round_def)
  qed simp
qed

lemma f64_within_of_word: "LENGTH('a::len) \<le> 1023 \<Longrightarrow> f64_within LENGTH('a) (f64_of_word (w :: 'a word))"
  unfolding f64_of_word_def
proof (rule f64_round_within)
  have "(of_nat (unat w) :: rat) \<le> of_nat (2 ^ LENGTH('a))"
    using unat_less_pow [of w] by (intro of_nat_mono less_imp_le)
  then show "\<bar>of_nat (unat w) :: rat\<bar> \<le> 2 ^ LENGTH('a)" by (simp del: of_nat_unat)
qed

lemma f64_within_mul:
  "f64_within j a \<Longrightarrow> f64_within k b \<Longrightarrow> j + k \<le> 1023 \<Longrightarrow> f64_within (j + k) (f64_mul a b)"
  by (elim f64_withinE) (auto intro!: f64_round_within mult_mono simp: abs_mult power_add)

lemma f64_within_add:
  "f64_within k a \<Longrightarrow> f64_within k b \<Longrightarrow> k < 1023 \<Longrightarrow> f64_within (Suc k) (f64_add a b)"
  by (elim f64_withinE) (auto intro!: f64_round_within)

lemma f64_within_neg: "f64_within k a \<Longrightarrow> f64_within k (f64_neg a)"
  by (elim f64_withinE) auto

lemma f64_within_sub:
  "f64_within k a \<Longrightarrow> f64_within k b \<Longrightarrow> k < 1023 \<Longrightarrow> f64_within (Suc k) (f64_sub a b)"
  by (simp add: f64_sub_def f64_within_add f64_within_neg)

lemma f64_within_div:
  "f64_within k a \<Longrightarrow> 1 \<le> d \<Longrightarrow> k \<le> 1023 \<Longrightarrow> f64_within k (f64_div a (Fin d))"
proof (elim f64_withinE)
  fix r
  assume "a = Fin r" "\<bar>r\<bar> \<le> 2 ^ k" "1 \<le> d" "k \<le> 1023"
  moreover have "\<bar>r / d\<bar> \<le> \<bar>r\<bar>" using \<open>1 \<le> d\<close> by (simp add: abs_divide divide_le_eq mult_right_mono [of 1 d "\<bar>r\<bar>", simplified] mult.commute)
  ultimately show ?thesis by (auto intro!: f64_round_within)
qed

lemma f64_within_max: "f64_within k a \<Longrightarrow> f64_within k b \<Longrightarrow> f64_within k (f64_max a b)"
  by (auto simp: f64_max_def)

lemma f64_sub_finite_not_NaN: "is_finite a \<Longrightarrow> is_finite b \<Longrightarrow> f64_sub a b \<noteq> NaN"
  by (cases a; cases b) (auto simp: f64_sub_def)

lemma round_pos_powi: "- 1022 \<le> k \<Longrightarrow> round_pos (2 powi k) = 2 powi k"
proof -
  assume k: "- 1022 \<le> k"
  have "(2 :: rat) powi ilog2 (2 powi k) \<le> 2 powi k" using ilog2_bounds(1) [of "2 powi k"] by simp
  then have "ilog2 (2 powi k) \<le> k" using powi_two_less_iff [of k "ilog2 (2 powi k)"] by force
  then have "ulp_exp (2 powi k) \<le> k" using k by (simp add: ulp_exp_def)
  then show ?thesis using round_pos_le_powi [of "2 powi k" k] round_pos_ge_powi [of k "2 powi k"] by simp
qed

lemma f64_round_half: "f64_round (1 / 2) = Fin (1 / 2)"
proof -
  have "(1 / 2 :: rat) < 2 ^ 1024" by (rule less_le_trans [of _ 1]) (simp_all del: power_numeral)
  then show ?thesis
    using round_pos_powi [of "- 1"] by (simp add: f64_round_def del: power_numeral)
qed

lemma f64_round_inv_pow: "k \<le> 1022 \<Longrightarrow> f64_round (1 / 2 ^ k) = Fin (1 / 2 ^ k)"
proof -
  assume k: "k \<le> 1022"
  have e: "(1 / 2 ^ k :: rat) = 2 powi (- int k)" by (simp add: power_int_minus field_simps)
  have "(1 / 2 ^ k :: rat) \<le> 1" by (simp del: power_numeral)
  then have "(1 / 2 ^ k :: rat) < 2 ^ 1024" by (rule le_less_trans) (simp del: power_numeral)
  then show ?thesis
    using round_pos_powi [of "- int k"] k by (simp add: f64_round_def e [symmetric] del: power_numeral)
qed

text \<open>Between two representable numbers, rounding stays between them.\<close>

lemma f64_round_between:
  assumes "lo \<le> q" "q \<le> hi" "f64_round lo = Fin lo" "f64_round hi = Fin hi"
  obtains r where "f64_round q = Fin r" "lo \<le> r" "r \<le> hi"
  using f64_round_mono [OF assms(1)] f64_round_mono [OF assms(2)] assms(3,4) that
  by (cases "f64_round q") auto

text \<open>A dyadic fraction with a 53-bit numerator is representable.\<close>

lemma f64_round_dyadic:
  assumes "0 < n" and "n < 2 ^ 53" and "k \<le> 1022"
  shows "f64_round (of_int n / 2 ^ k) = Fin (of_int n / 2 ^ k)"
proof -
  let ?q = "of_int n / 2 ^ k :: rat"
  let ?e = "ulp_exp ?q"
  have pos: "0 < ?q" using assms(1) by simp
  have q: "?q = of_int n * 2 powi (- int k)" by (simp add: power_int_minus field_simps)
  have n53: "(of_int n :: rat) < 2 powi 53"
    using assms(2) by (metis of_int_less_iff of_int_numeral of_int_power power_int_numeral)
  have "2 powi ilog2 ?q \<le> ?q" by (rule ilog2_bounds(1) [OF pos])
  also have "\<dots> < 2 powi 53 * 2 powi (- int k)" unfolding q using n53 by (intro mult_strict_right_mono) auto
  also have "\<dots> = 2 powi (53 - int k)" by (simp add: power_int_diff power_int_minus field_simps)
  finally have "ilog2 ?q < 53 - int k" by (simp only: powi_two_less_iff)
  then have e: "?e \<le> - int k" using assms(3) by (simp add: ulp_exp_def)
  have "(2 :: rat) powi (- int k) = of_int (2 ^ nat (- int k - ?e)) * 2 powi ?e"
    using powi_two_multiple [OF e] by (simp add: field_simps)
  then have "?q = of_int (n * 2 ^ nat (- int k - ?e)) * 2 powi ?e" unfolding q by simp
  then have r: "round_pos ?q = ?q" by (rule round_pos_exact)
  have "?q \<le> of_int n" using assms(1) by (simp add: divide_le_eq del: power_numeral)
  also have "\<dots> < 2 ^ 1024"
    using n53 by (rule less_le_trans) (simp add: power_increasing del: power_numeral)
  finally show ?thesis using pos r by (simp add: f64_round_def)
qed

end
