(* ===== verification/HashMaps.thy ===== *)
theory HashMaps
  imports Prelude "HOL-Library.AList"
begin

text \<open>
  \<open>std::collections::HashMap\<close> as the sources use it: insertion, removal, lookup, the number
  of entries and an iteration order that is some permutation of the entries.  The locale
  \<open>hash_map\<close> states this interface by the lookup function and the list of entries; the
  components below use association lists without repeated keys, whose list order stands for
  the unspecified iteration order, and theorems about iteration quantify over it.
\<close>

locale hash_map =
  fixes new :: "'m"
    and insert :: "'k \<Rightarrow> 'v \<Rightarrow> 'm \<Rightarrow> 'm"
    and remove :: "'k \<Rightarrow> 'm \<Rightarrow> 'm"
    and get :: "'m \<Rightarrow> 'k \<Rightarrow> 'v option"
    and entries :: "'m \<Rightarrow> ('k \<times> 'v) list"
    and invar :: "'m \<Rightarrow> bool"
  assumes invar_new: "invar new"
    and invar_insert: "invar m \<Longrightarrow> invar (insert k v m)"
    and invar_remove: "invar m \<Longrightarrow> invar (remove k m)"
    and get_new: "get new = Map.empty"
    and get_insert: "invar m \<Longrightarrow> get (insert k v m) = (get m)(k \<mapsto> v)"
    and get_remove: "invar m \<Longrightarrow> get (remove k m) = (get m)(k := None)"
    and get_entries: "invar m \<Longrightarrow> get m = map_of (entries m)"
    and distinct_entries: "invar m \<Longrightarrow> distinct (map fst (entries m))"
begin

lemma entries_iff: "invar m \<Longrightarrow> (k, v) \<in> set (entries m) \<longleftrightarrow> get m k = Some v"
  by (simp add: get_entries distinct_entries)

lemma length_entries: "invar m \<Longrightarrow> length (entries m) = card (dom (get m))"
  using distinct_card [OF distinct_entries]
  by (fastforce simp: get_entries dom_map_of_conv_image_fst)

lemma insert_fold_invar: "invar m \<Longrightarrow> invar (fold (\<lambda>(k, v). insert k v) es m)"
  by (induction es arbitrary: m) (auto simp: invar_insert)

lemma get_insert_fold:
  "invar m \<Longrightarrow> get (fold (\<lambda>(k, v). insert k v) es m) = get m ++ map_of (rev es)"
proof (induction es arbitrary: m)
  case Nil
  then show ?case by simp
next
  case (Cons e es)
  obtain k v where e: "e = (k, v)" by (cases e)
  have "get (fold (\<lambda>(k, v). insert k v) (e # es) m) = (get m)(k \<mapsto> v) ++ map_of (rev es)"
    using Cons by (simp add: e invar_insert get_insert del: fun_upd_apply)
  also have "\<dots> = get m ++ map_of (rev (e # es))"
    by (simp add: e fun_eq_iff map_add_def split: option.split)
  finally show ?case .
qed

text \<open>Re-inserting all entries, in whatever order, restores every lookup.\<close>

lemma reinsert_entries:
  assumes "invar m" and "mset es = mset (entries m)"
  shows "get (fold (\<lambda>(k, v). insert k v) es new) = get m"
proof -
  have "mset (map fst es) = mset (map fst (entries m))" using assms(2) by simp
  then have d: "distinct (map fst es)"
    using distinct_entries [OF assms(1)] mset_eq_imp_distinct_iff by blast
  have s: "set (rev es) = set (entries m)" using assms(2) by (metis mset_eq_setD set_rev)
  have "distinct (map fst (rev es))" using d by (simp flip: rev_map)
  then have "map_of (rev es) k = map_of (entries m) k" for k
    using distinct_entries [OF assms(1)] s map_of_eq_Some_iff
    by (metis not_None_eq)
  then have "map_of (rev es) = map_of (entries m)" by blast
  then show ?thesis
    by (simp add: get_insert_fold invar_new get_new get_entries [OF assms(1)])
qed

end

type_synonym ('k, 'v) hashmap = "('k \<times> 'v) list"

definition hm_new :: "('k, 'v) hashmap" where "hm_new = []"

definition hm_insert :: "'k \<Rightarrow> 'v \<Rightarrow> ('k, 'v) hashmap \<Rightarrow> ('k, 'v) hashmap" where
  "hm_insert k v m = AList.update k v m"

definition hm_remove :: "'k \<Rightarrow> ('k, 'v) hashmap \<Rightarrow> ('k, 'v) hashmap" where
  "hm_remove k m = AList.delete k m"

definition hm_get :: "('k, 'v) hashmap \<Rightarrow> 'k \<Rightarrow> 'v option" where
  "hm_get m k = map_of m k"

definition hm_len :: "('k, 'v) hashmap \<Rightarrow> nat" where
  "hm_len m = length m"

definition hm_wf :: "('k, 'v) hashmap \<Rightarrow> bool" where
  "hm_wf m = distinct (map fst m)"

lemma hm_get_new [simp]: "hm_get hm_new k = None"
  by (simp add: hm_get_def hm_new_def)

lemma hm_get_insert [simp]: "hm_get (hm_insert k v m) k' = (if k' = k then Some v else hm_get m k')"
  by (simp add: hm_get_def hm_insert_def update_conv')

lemma hm_get_remove [simp]: "hm_get (hm_remove k m) k' = (if k' = k then None else hm_get m k')"
  by (simp add: hm_get_def hm_remove_def delete_conv')

lemma hm_wf_new [simp]: "hm_wf hm_new"
  by (simp add: hm_wf_def hm_new_def)

lemma hm_wf_insert [simp]: "hm_wf m \<Longrightarrow> hm_wf (hm_insert k v m)"
  by (simp add: hm_wf_def hm_insert_def distinct_update)

lemma hm_wf_remove [simp]: "hm_wf m \<Longrightarrow> hm_wf (hm_remove k m)"
  by (simp add: hm_wf_def hm_remove_def distinct_delete)

interpretation hm: hash_map hm_new hm_insert hm_remove hm_get "\<lambda>m. m" hm_wf
proof unfold_locales
  fix m :: "('a, 'b) hashmap"
  show "hm_get m = map_of m" by (simp add: fun_eq_iff hm_get_def)
  show "hm_wf m \<Longrightarrow> distinct (map fst m)" by (simp add: hm_wf_def)
qed (auto simp: fun_eq_iff)

lemma hm_entries_iff: "hm_wf m \<Longrightarrow> (k, v) \<in> set m \<longleftrightarrow> hm_get m k = Some v"
  by (rule hm.entries_iff)

lemma hm_get_in_set: "hm_get m k = Some v \<Longrightarrow> (k, v) \<in> set m"
  by (simp add: hm_get_def map_of_SomeD)

lemma hm_len_insert: "hm_len (hm_insert k v m) = (if hm_get m k = None then Suc (hm_len m) else hm_len m)"
  by (induction m) (auto simp: hm_len_def hm_insert_def hm_get_def)

lemma hm_len_card: "hm_wf m \<Longrightarrow> hm_len m = card (dom (hm_get m))"
  by (simp add: hm_len_def hm.length_entries)

end
