(* ===== verification/Core.thy ===== *)
theory Core
  imports F64 HashMaps
begin

text \<open>
  \<open>crates/core\<close>: the public key, the protocol enumeration and the pipeline records that cross
  crate boundaries, and \<open>crates/config\<close>: the configuration records the decision layer reads
  with \<open>Config::validate\<close>.  A public key is its byte array; equality is all the engine uses.
\<close>

type_synonym pubkey = bytes

definition Pubkey_default :: pubkey where
  "Pubkey_default = replicate 32 0"

text \<open>
  \<open>Pubkey::from_base58\<close>: \<open>bs58_onto\<close> stands for \<open>bs58::decode(s).onto(&mut [u8; 32])\<close>, which
  gives the bytes it wrote, at most 32, or an error.
\<close>

datatype 'e bs58_error = BufferTooSmall | Bs58Other 'e

definition from_base58 :: "(string \<Rightarrow> 'e bs58_error + bytes) \<Rightarrow> string \<Rightarrow> 'e bs58_error + pubkey" where
  "from_base58 bs58_onto s =
     and_then (bs58_onto s)
       (\<lambda>written. if length written \<noteq> 32 then Inl BufferTooSmall else Inr written)"

datatype protocol = Kamino

definition protocol_display :: "protocol \<Rightarrow> string" where
  "protocol_display p = (case p of Kamino \<Rightarrow> ''kamino'')"

datatype revert_reason =
    RaceLost | SlippageExceeded | ComputeExhausted | FlashRepayFailed | ProgramError string

record account_update =
  au_pubkey :: pubkey
  au_owner :: pubkey
  au_data :: bytes
  au_slot :: u64

record breach_candidate =
  bc_protocol :: protocol
  position_id :: pubkey
  collateral_mint :: pubkey
  debt_mint :: pubkey
  health_factor :: f64
  close_factor_max_repay :: u64
  bc_slot :: u64

record flash_source =
  fs_protocol :: protocol
  reserve :: pubkey
  fee_bps :: u32

record profit_estimate =
  bonus_usd :: f64
  est_slippage_usd :: f64
  flash_fee_usd :: f64
  est_cu_cost_usd :: f64
  bid_tip_usd :: f64
  net_usd :: f64

record routed_candidate =
  candidate :: breach_candidate
  repay_amount :: u64
  flash_source :: flash_source
  expected :: profit_estimate

record sim_result =
  routed :: routed_candidate
  feasible :: bool
  cu_measured :: u32
  tx_bytes :: u64
  profitable :: bool

record tx_bundle =
  bundle_sim :: sim_result
  versioned_tx :: bytes
  alt_keys :: "pubkey list"

datatype submit_outcome =
    Landed u64 f64
  | Reverted revert_reason
  | NotIncluded

record liquidation_record =
  lr_routed :: routed_candidate
  lr_outcome :: submit_outcome
  submitted_at_slot :: u64
  resolved_at_slot :: u64

section \<open>The adapter interface\<close>

text \<open>
  The trait \<open>HealthAdapter\<close> (\<open>traits.rs\<close>) as its clients rely on it: an update keeps the adapter's
  invariant, and a candidate belongs to the account and the slot of the update and carries the
  close factor that the adapter reports for the position afterwards.
\<close>

locale health_adapter =
  fixes on_update :: "'h \<Rightarrow> account_update \<Rightarrow> breach_candidate option \<times> 'h"
    and close_factor_of :: "'h \<Rightarrow> pubkey \<Rightarrow> u64"
    and adapter_ok :: "'h \<Rightarrow> bool"
  assumes update_ok: "adapter_ok h \<Longrightarrow> adapter_ok (snd (on_update h u))"
    and candidate_of_update: "on_update h u = (Some c, h') \<Longrightarrow>
      position_id c = au_pubkey u \<and> bc_slot c = au_slot u \<and>
      close_factor_of h' (au_pubkey u) = close_factor_max_repay c"
begin

lemma updates_ok: "adapter_ok h \<Longrightarrow> adapter_ok (foldl (\<lambda>h u. snd (on_update h u)) h us)"
  by (induction us arbitrary: h) (simp_all add: update_ok)

lemma candidate_close_factor:
  "on_update h u = (Some c, h') \<Longrightarrow> close_factor_of h' (position_id c) = close_factor_max_repay c"
  using candidate_of_update by fastforce

end

section \<open>Configuration\<close>

record risk_config =
  min_profit_usd :: f64
  min_tip_usd :: f64
  sync_lag_halt_slots :: u64
  contention_ceiling :: f64
  max_tip_per_tx_usd :: f64
  max_tip_per_slot_usd :: f64
  max_tip_pct_of_bonus :: f64
  max_drawdown_usd :: f64
  consecutive_revert_limit :: u32

record treasury_config =
  wallet_path :: string
  min_balance_sol :: f64
  sweep_interval :: string

datatype submit_mode = Observe | Live

record submit_config =
  submit_mode_cfg :: submit_mode
  leaders_ahead_cfg :: u32
  dual_path :: bool
  timeout_ms :: "u64 option"

record geyser_config =
  geyser_url :: string
  geyser_token :: string

record rpc_config =
  rpc_url :: string

record staked_send_config =
  staked_send_url :: string

record jito_config =
  block_engine_url :: string

record identity_config =
  keypair_path :: string
  tip_account :: string

record protocol_toggle =
  enabled :: bool

record protocols_config =
  kamino :: protocol_toggle

record config =
  cfg_geyser :: geyser_config
  cfg_rpc :: rpc_config
  cfg_staked_send :: staked_send_config
  cfg_jito :: jito_config
  cfg_identity :: identity_config
  cfg_treasury :: treasury_config
  cfg_protocols :: protocols_config
  cfg_submit :: submit_config
  cfg_risk :: risk_config

definition submit_mode_display :: "submit_mode \<Rightarrow> string" where
  "submit_mode_display m = (case m of Observe \<Rightarrow> ''observe'' | Live \<Rightarrow> ''live'')"

datatype ('io, 'parse) config_error =
    ConfigRead string 'io | ConfigParse 'parse | InvalidRevertLimit u32

definition validate :: "config \<Rightarrow> ('io, 'parse) config_error + unit" where
  "validate cfg =
     (if consecutive_revert_limit (cfg_risk cfg) = 0
      then Inl (InvalidRevertLimit (consecutive_revert_limit (cfg_risk cfg)))
      else Inr ())"

text \<open>
  \<open>Config::load\<close>: reading the file and the TOML deserializer are parameters.
\<close>

definition load ::
  "(string \<Rightarrow> 'io + string) \<Rightarrow> (string \<Rightarrow> 'parse + config) \<Rightarrow> string
     \<Rightarrow> ('io, 'parse) config_error + config" where
  "load read_file from_toml path =
     and_then (map_err (ConfigRead path) (read_file path))
       (\<lambda>raw. and_then (map_err ConfigParse (from_toml raw))
         (\<lambda>cfg. and_then (validate cfg) (\<lambda>_. Inr cfg)))"

lemma validate_ok_iff: "validate cfg = Inr u \<longleftrightarrow> 0 < consecutive_revert_limit (cfg_risk cfg)"
  by (auto simp: validate_def word_neq_0_conv)

lemma load_ok_iff:
  "load rd tm path = Inr cfg \<longleftrightarrow>
     (\<exists>raw. rd path = Inr raw \<and> tm raw = Inr cfg) \<and> 0 < consecutive_revert_limit (cfg_risk cfg)"
  by (cases "rd path"; cases "tm (projr (rd path))")
     (auto simp: load_def validate_def word_neq_0_conv)

lemma from_base58_length: "from_base58 dec s = Inr k \<Longrightarrow> length k = 32"
  by (auto simp: from_base58_def and_then_Inr_iff split: if_splits)

end
