(* ===== verification/SolendMath.thy ===== *)
theory SolendMath
  imports Core
begin

text \<open>
  \<open>patches/solend-sdk/src/math\<close>: the fixed-point numbers of the Save (Solend) program, scaled
  by \<open>WAD = 10^18\<close>: \<open>Decimal\<close> over 192 bits and \<open>Rate\<close> over 128 bits, with \<open>error.rs\<close>.
  Every operation is written at word width as the sources have it; the lemmas read it in the
  natural numbers, where an operation succeeds exactly if the intermediate product fits.
  The locale \<open>wad_math\<close> is the contract the two types share: its lemmas on rounding and
  monotonicity are proved once and used for both.
\<close>

section \<open>Errors\<close>

datatype lending_error =
    InstructionUnpackError | AlreadyInitialized | NotRentExempt | InvalidMarketAuthority
  | InvalidMarketOwner | InvalidAccountOwner | InvalidTokenOwner | InvalidTokenAccount
  | InvalidTokenMint | InvalidTokenProgram | InvalidAmount | InvalidConfig | InvalidSigner
  | InvalidAccountInput | MathOverflow | TokenInitializeMintFailed | TokenInitializeAccountFailed
  | TokenTransferFailed | TokenMintToFailed | TokenBurnFailed | InsufficientLiquidity
  | ReserveCollateralDisabled | ReserveStale | WithdrawTooSmall | WithdrawTooLarge
  | BorrowTooSmall | BorrowTooLarge | RepayTooSmall | LiquidationTooSmall | ObligationHealthy
  | ObligationStale | ObligationReserveLimit | InvalidObligationOwner | ObligationDepositsEmpty
  | ObligationBorrowsEmpty | ObligationDepositsZero | ObligationBorrowsZero
  | InvalidObligationCollateral | InvalidObligationLiquidity | ObligationCollateralEmpty
  | ObligationLiquidityEmpty | NegativeInterestRate | InvalidOracleConfig
  | InvalidFlashLoanReceiverProgram | NotEnoughLiquidityAfterFlashLoan | NullOracleConfig
  | InsufficientProtocolFeesToRedeem | FlashBorrowCpi | NoFlashRepayFound | InvalidFlashRepay
  | FlashRepayCpi | MultipleFlashBorrows | FlashLoansDisabled | DeprecatedInstruction
  | OutflowRateLimitExceeded | NotWhitelistedLiquidator | IsolatedTierAssetViolation
  | BorrowAttributionLimitExceeded | BorrowAttributionLimitNotExceeded

text \<open>
  \<open>ProgramError\<close> of \<open>solana_program\<close>, as far as the sources construct it.  \<open>Custom\<close> carries the
  discriminant of the lending error, which determines the error.
\<close>

datatype program_error = Custom lending_error | InvalidAccountData

abbreviation overflow :: program_error where "overflow \<equiv> Custom MathOverflow"

section \<open>Constants\<close>

definition SCALE :: nat where "SCALE = 18"
definition WAD :: u64 where "WAD = 1000000000000000000"
definition HALF_WAD :: u64 where "HALF_WAD = 500000000000000000"
definition PERCENT_SCALER :: u64 where "PERCENT_SCALER = 10000000000000000"
definition BPS_SCALER :: u64 where "BPS_SCALER = 100000000000000"

section \<open>Decimal\<close>

datatype decimal = Decimal (dec_raw: "192 word")

instantiation decimal :: linorder
begin

definition less_eq_decimal :: "decimal \<Rightarrow> decimal \<Rightarrow> bool" where
  "less_eq_decimal a b \<longleftrightarrow> dec_raw a \<le> dec_raw b"

definition less_decimal :: "decimal \<Rightarrow> decimal \<Rightarrow> bool" where
  "less_decimal a b \<longleftrightarrow> dec_raw a < dec_raw b"

instance
  by standard (auto simp: less_eq_decimal_def less_decimal_def intro: decimal.expand)

end

definition Decimal_wad :: "192 word" where "Decimal_wad = ucast WAD"
definition Decimal_half_wad :: "192 word" where "Decimal_half_wad = ucast HALF_WAD"

definition Decimal_one :: decimal where "Decimal_one = Decimal Decimal_wad"
definition Decimal_zero :: decimal where "Decimal_zero = Decimal 0"

text \<open>
  \<open>u64::try_from\<close> and \<open>u128::try_from\<close> of a 192-bit integer: an error if it does not fit.
\<close>

definition try_narrow :: "192 word \<Rightarrow> program_error + 'a::len word" where
  "try_narrow w = (if unat w < 2 ^ LENGTH('a) then Inr (ucast w) else Inl overflow)"

definition to_scaled_val :: "decimal \<Rightarrow> program_error + u128" where
  "to_scaled_val d = try_narrow (dec_raw d)"

definition from_scaled_val :: "u128 \<Rightarrow> decimal" where
  "from_scaled_val v = Decimal (ucast v)"

definition try_round_u64 :: "decimal \<Rightarrow> program_error + u64" where
  "try_round_u64 d =
     and_then (ok_or overflow (checked_add Decimal_half_wad (dec_raw d)))
       (\<lambda>s. and_then (ok_or overflow (checked_div s Decimal_wad)) try_narrow)"

definition try_ceil_u64 :: "decimal \<Rightarrow> program_error + u64" where
  "try_ceil_u64 d =
     and_then (ok_or overflow (checked_sub Decimal_wad 1))
       (\<lambda>m. and_then (ok_or overflow (checked_add m (dec_raw d)))
         (\<lambda>s. and_then (ok_or overflow (checked_div s Decimal_wad)) try_narrow))"

definition try_floor_u64 :: "decimal \<Rightarrow> program_error + u64" where
  "try_floor_u64 d = and_then (ok_or overflow (checked_div (dec_raw d) Decimal_wad)) try_narrow"

text \<open>
  The \<open>uint\<close> crate's \<open>*\<close> panics on overflow; the product of \<open>WAD\<close> and a 64- or 128-bit value is
  below \<open>2^188\<close>, so the conversions below cannot overflow and are written with \<open>*\<close>.
\<close>

definition Decimal_from :: "u64 \<Rightarrow> decimal" where
  "Decimal_from v = Decimal (Decimal_wad * ucast v)"

definition Decimal_from_u128 :: "u128 \<Rightarrow> decimal" where
  "Decimal_from_u128 v = Decimal (Decimal_wad * ucast v)"

definition Decimal_from_percent :: "u8 \<Rightarrow> decimal" where
  "Decimal_from_percent p = Decimal (ucast (ucast p * PERCENT_SCALER))"

definition try_add :: "decimal \<Rightarrow> decimal \<Rightarrow> program_error + decimal" where
  "try_add a b = and_then (ok_or overflow (checked_add (dec_raw a) (dec_raw b))) (\<lambda>r. Inr (Decimal r))"

definition try_sub :: "decimal \<Rightarrow> decimal \<Rightarrow> program_error + decimal" where
  "try_sub a b = and_then (ok_or overflow (checked_sub (dec_raw a) (dec_raw b))) (\<lambda>r. Inr (Decimal r))"

definition Decimal_saturating_sub :: "decimal \<Rightarrow> decimal \<Rightarrow> decimal" where
  "Decimal_saturating_sub a b = Decimal (saturating_sub (dec_raw a) (dec_raw b))"

definition try_div_u64 :: "decimal \<Rightarrow> u64 \<Rightarrow> program_error + decimal" where
  "try_div_u64 a n = and_then (ok_or overflow (checked_div (dec_raw a) (ucast n))) (\<lambda>r. Inr (Decimal r))"

definition try_div :: "decimal \<Rightarrow> decimal \<Rightarrow> program_error + decimal" where
  "try_div a b =
     and_then (ok_or overflow (checked_mul (dec_raw a) Decimal_wad))
       (\<lambda>p. and_then (ok_or overflow (checked_div p (dec_raw b))) (\<lambda>r. Inr (Decimal r)))"

definition try_mul_u64 :: "decimal \<Rightarrow> u64 \<Rightarrow> program_error + decimal" where
  "try_mul_u64 a n = and_then (ok_or overflow (checked_mul (dec_raw a) (ucast n))) (\<lambda>r. Inr (Decimal r))"

definition try_mul :: "decimal \<Rightarrow> decimal \<Rightarrow> program_error + decimal" where
  "try_mul a b =
     and_then (ok_or overflow (checked_mul (dec_raw a) (dec_raw b)))
       (\<lambda>p. and_then (ok_or overflow (checked_div p Decimal_wad)) (\<lambda>r. Inr (Decimal r)))"

text \<open>\<open>from_deca_bps\<close> and \<open>from_bps\<close> unwrap a division by a non-zero constant.\<close>

definition from_deca_bps :: "u8 \<Rightarrow> decimal" where
  "from_deca_bps n = projr (try_div_u64 (Decimal_from (ucast n)) 1000)"

definition from_bps :: "u64 \<Rightarrow> decimal" where
  "from_bps n = projr (try_div_u64 (Decimal_from n) 10000)"

section \<open>Rate\<close>

datatype rate = Rate (rate_raw: "128 word")

instantiation rate :: linorder
begin

definition less_eq_rate :: "rate \<Rightarrow> rate \<Rightarrow> bool" where
  "less_eq_rate a b \<longleftrightarrow> rate_raw a \<le> rate_raw b"

definition less_rate :: "rate \<Rightarrow> rate \<Rightarrow> bool" where
  "less_rate a b \<longleftrightarrow> rate_raw a < rate_raw b"

instance
  by standard (auto simp: less_eq_rate_def less_rate_def intro: rate.expand)

end

definition Rate_wad :: "128 word" where "Rate_wad = ucast WAD"
definition Rate_one :: rate where "Rate_one = Rate Rate_wad"
definition Rate_zero :: rate where "Rate_zero = Rate 0"

definition Rate_from_percent :: "u8 \<Rightarrow> rate" where
  "Rate_from_percent p = Rate (ucast (ucast p * PERCENT_SCALER))"

definition Rate_from_percent_u64 :: "u64 \<Rightarrow> rate" where
  "Rate_from_percent_u64 p = Rate (ucast p * ucast PERCENT_SCALER)"

definition Rate_to_scaled_val :: "rate \<Rightarrow> u128" where
  "Rate_to_scaled_val r = rate_raw r"

definition Rate_from_scaled_val :: "u64 \<Rightarrow> rate" where
  "Rate_from_scaled_val v = Rate (ucast v)"

definition Rate_try_add :: "rate \<Rightarrow> rate \<Rightarrow> program_error + rate" where
  "Rate_try_add a b = and_then (ok_or overflow (checked_add (rate_raw a) (rate_raw b))) (\<lambda>r. Inr (Rate r))"

definition Rate_try_sub :: "rate \<Rightarrow> rate \<Rightarrow> program_error + rate" where
  "Rate_try_sub a b = and_then (ok_or overflow (checked_sub (rate_raw a) (rate_raw b))) (\<lambda>r. Inr (Rate r))"

definition Rate_try_div_u64 :: "rate \<Rightarrow> u64 \<Rightarrow> program_error + rate" where
  "Rate_try_div_u64 a n = and_then (ok_or overflow (checked_div (rate_raw a) (ucast n))) (\<lambda>r. Inr (Rate r))"

definition Rate_try_div :: "rate \<Rightarrow> rate \<Rightarrow> program_error + rate" where
  "Rate_try_div a b =
     and_then (ok_or overflow (checked_mul (rate_raw a) Rate_wad))
       (\<lambda>p. and_then (ok_or overflow (checked_div p (rate_raw b))) (\<lambda>r. Inr (Rate r)))"

definition Rate_try_mul_u64 :: "rate \<Rightarrow> u64 \<Rightarrow> program_error + rate" where
  "Rate_try_mul_u64 a n = and_then (ok_or overflow (checked_mul (rate_raw a) (ucast n))) (\<lambda>r. Inr (Rate r))"

definition Rate_try_mul :: "rate \<Rightarrow> rate \<Rightarrow> program_error + rate" where
  "Rate_try_mul a b =
     and_then (ok_or overflow (checked_mul (rate_raw a) (rate_raw b)))
       (\<lambda>p. and_then (ok_or overflow (checked_div p Rate_wad)) (\<lambda>r. Inr (Rate r)))"

text \<open>
  \<open>Rate::try_pow\<close>: the loop halves the exponent, squares the base and multiplies it in when
  the halved exponent is odd.
\<close>

function try_pow_loop :: "u64 \<Rightarrow> rate \<Rightarrow> rate \<Rightarrow> program_error + rate" where
  "try_pow_loop e base ret =
     (if e > 0 then
        let e = e div 2
        in and_then (Rate_try_mul base base)
             (\<lambda>base. if e mod 2 \<noteq> 0
                then and_then (Rate_try_mul ret base) (\<lambda>ret. try_pow_loop e base ret)
                else try_pow_loop e base ret)
      else Inr ret)"
  by auto
termination
  by (relation "measure (\<lambda>(e, _, _). unat e)")
     (auto simp: unat_div word_less_nat_alt)

declare try_pow_loop.simps [simp del]

definition try_pow :: "rate \<Rightarrow> u64 \<Rightarrow> program_error + rate" where
  "try_pow self e = try_pow_loop e self (if e mod 2 \<noteq> 0 then self else Rate Rate_wad)"

section \<open>Conversions between the two\<close>

definition Decimal_from_Rate :: "rate \<Rightarrow> decimal" where
  "Decimal_from_Rate r = Decimal (ucast (Rate_to_scaled_val r))"

definition Rate_try_from :: "decimal \<Rightarrow> program_error + rate" where
  "Rate_try_from d = and_then (to_scaled_val d) (\<lambda>v. Inr (Rate v))"

definition try_div_rate :: "decimal \<Rightarrow> rate \<Rightarrow> program_error + decimal" where
  "try_div_rate a r = try_div a (Decimal_from_Rate r)"

definition try_mul_rate :: "decimal \<Rightarrow> rate \<Rightarrow> program_error + decimal" where
  "try_mul_rate a r = try_mul a (Decimal_from_Rate r)"


section \<open>Reading the operations in the natural numbers\<close>

definition wad :: nat where "wad = 10 ^ 18"

abbreviation dv :: "decimal \<Rightarrow> nat" where "dv d \<equiv> unat (dec_raw d)"
abbreviation rv :: "rate \<Rightarrow> nat" where "rv r \<equiv> unat (rate_raw r)"

named_theorems wad_simps \<open>fixed-point operations read in the natural numbers\<close>

lemma wad_pos [simp]: "0 < wad"
  by (simp add: wad_def)

lemma dec_eq_iff: "a = b \<longleftrightarrow> dv a = dv b"
  by (cases a; cases b) (simp add: word_unat_eq_iff)

lemma rate_eq_iff: "a = b \<longleftrightarrow> rv a = rv b"
  by (cases a; cases b) (simp add: word_unat_eq_iff)

lemma dec_le_iff: "a \<le> b \<longleftrightarrow> dv a \<le> dv b"
  by (simp add: less_eq_decimal_def word_le_nat_alt)

lemma dec_less_iff: "a < b \<longleftrightarrow> dv a < dv b"
  by (simp add: less_decimal_def word_less_nat_alt)

lemma rate_le_iff: "a \<le> b \<longleftrightarrow> rv a \<le> rv b"
  by (simp add: less_eq_rate_def word_le_nat_alt)

lemma rate_less_iff: "a < b \<longleftrightarrow> rv a < rv b"
  by (simp add: less_rate_def word_less_nat_alt)

lemma unat_Decimal_wad [simp]: "unat Decimal_wad = wad"
  by (simp add: Decimal_wad_def WAD_def wad_def)

lemma unat_Rate_wad [simp]: "unat Rate_wad = wad"
  by (simp add: Rate_wad_def WAD_def wad_def)

lemma dv_consts [simp]: "dv Decimal_one = wad" "dv Decimal_zero = 0"
  by (simp_all add: Decimal_one_def Decimal_zero_def)

lemma rv_consts [simp]: "rv Rate_one = wad" "rv Rate_zero = 0"
  by (simp_all add: Rate_one_def Rate_zero_def)

lemma dv_min [simp]: "dv (min a b) = min (dv a) (dv b)"
  by (simp add: min_def dec_le_iff)

lemma dv_max [simp]: "dv (max a b) = max (dv a) (dv b)"
  by (simp add: max_def dec_le_iff)

lemma unat_ucast_up: "LENGTH('a) \<le> LENGTH('b) \<Longrightarrow> unat (ucast (w :: 'a::len word) :: 'b::len word) = unat w"
  by (simp add: unsigned_ucast_eq take_bit_nat_eq_self [OF order.strict_trans2 [OF unat_less_pow]])

lemma try_narrow_Inr_iff: "try_narrow w = Inr (v :: 'a::len word) \<longleftrightarrow> unat v = unat w"
  if "LENGTH('a) \<le> 192"
proof
  assume "try_narrow w = Inr v"
  then show "unat v = unat w"
    by (auto simp: try_narrow_def unsigned_ucast_eq take_bit_nat_eq_self split: if_splits)
next
  assume eq: "unat v = unat w"
  then have "unat w < 2 ^ LENGTH('a)" by (metis unat_less_pow)
  moreover from this eq have "v = ucast w"
    by (simp add: word_unat_eq_iff unsigned_ucast_eq take_bit_nat_eq_self)
  ultimately show "try_narrow w = Inr v" by (simp add: try_narrow_def)
qed

lemma dv_less [simp]: "dv d < 2 ^ 192"
  using unat_less_pow [of "dec_raw d"] by simp

lemma rv_less [simp]: "rv r < 2 ^ 128"
  using unat_less_pow [of "rate_raw r"] by simp

lemma ex_Decimal_iff: "(\<exists>a. P a \<and> Decimal a = c) \<longleftrightarrow> P (dec_raw c)"
  by (cases c) auto

lemma ex_Rate_iff: "(\<exists>a. P a \<and> Rate a = c) \<longleftrightarrow> P (rate_raw c)"
  by (cases c) auto

lemmas result_iffs = and_then_Inr_iff ok_or_Inr_iff checked_add_Some_iff checked_sub_Some_iff
  checked_mul_Some_iff checked_div_Some_iff ex_Decimal_iff ex_Rate_iff

lemma try_add_iff [wad_simps]: "try_add a b = Inr c \<longleftrightarrow> dv c = dv a + dv b"
  by (simp add: try_add_def result_iffs)

lemma try_sub_iff [wad_simps]: "try_sub a b = Inr c \<longleftrightarrow> dv a = dv c + dv b"
  by (simp add: try_sub_def result_iffs)

lemma try_div_u64_iff [wad_simps]:
  "try_div_u64 a n = Inr c \<longleftrightarrow> n \<noteq> 0 \<and> dv c = dv a div unat n"
  by (simp add: try_div_u64_def result_iffs unat_ucast_up unat_eq_zero)

lemma try_mul_u64_iff [wad_simps]: "try_mul_u64 a n = Inr c \<longleftrightarrow> dv c = dv a * unat n"
  by (simp add: try_mul_u64_def result_iffs unat_ucast_up)

lemma ex_unat_eq: "(\<exists>p :: 'a::len word. unat p = n \<and> P (unat p)) \<longleftrightarrow> n < 2 ^ LENGTH('a) \<and> P n"
proof
  assume "n < 2 ^ LENGTH('a) \<and> P n"
  moreover from this have "unat (of_nat n :: 'a word) = n" by (simp add: unat_of_nat take_bit_nat_eq_self)
  ultimately show "\<exists>p :: 'a word. unat p = n \<and> P (unat p)" by metis
qed (use unat_less_pow in blast)

lemma try_mul_iff [wad_simps]:
  "try_mul a b = Inr c \<longleftrightarrow> dv a * dv b < 2 ^ 192 \<and> dv c = dv a * dv b div wad"
  using ex_unat_eq [where ?'a = 192, of "dv a * dv b" "\<lambda>n. dv c = n div wad"]
  by (simp add: try_mul_def result_iffs)

lemma try_div_iff [wad_simps]:
  "try_div a b = Inr c \<longleftrightarrow> dv a * wad < 2 ^ 192 \<and> dv b \<noteq> 0 \<and> dv c = dv a * wad div dv b"
  using ex_unat_eq [where ?'a = 192, of "dv a * wad" "\<lambda>n. dv b \<noteq> 0 \<and> dv c = n div dv b"]
  by (simp add: try_div_def result_iffs)

lemma Rate_try_add_iff [wad_simps]: "Rate_try_add a b = Inr c \<longleftrightarrow> rv c = rv a + rv b"
  by (simp add: Rate_try_add_def result_iffs)

lemma Rate_try_sub_iff [wad_simps]: "Rate_try_sub a b = Inr c \<longleftrightarrow> rv a = rv c + rv b"
  by (simp add: Rate_try_sub_def result_iffs)

lemma Rate_try_div_u64_iff [wad_simps]:
  "Rate_try_div_u64 a n = Inr c \<longleftrightarrow> n \<noteq> 0 \<and> rv c = rv a div unat n"
  by (simp add: Rate_try_div_u64_def result_iffs unat_ucast_up unat_eq_zero)

lemma Rate_try_mul_u64_iff [wad_simps]: "Rate_try_mul_u64 a n = Inr c \<longleftrightarrow> rv c = rv a * unat n"
  by (simp add: Rate_try_mul_u64_def result_iffs unat_ucast_up)

lemma Rate_try_mul_iff [wad_simps]:
  "Rate_try_mul a b = Inr c \<longleftrightarrow> rv a * rv b < 2 ^ 128 \<and> rv c = rv a * rv b div wad"
  using ex_unat_eq [where ?'a = 128, of "rv a * rv b" "\<lambda>n. rv c = n div wad"]
  by (simp add: Rate_try_mul_def result_iffs)

lemma Rate_try_div_iff [wad_simps]:
  "Rate_try_div a b = Inr c \<longleftrightarrow> rv a * wad < 2 ^ 128 \<and> rv b \<noteq> 0 \<and> rv c = rv a * wad div rv b"
  using ex_unat_eq [where ?'a = 128, of "rv a * wad" "\<lambda>n. rv b \<noteq> 0 \<and> rv c = n div rv b"]
  by (simp add: Rate_try_div_def result_iffs)

text \<open>Every error of an arithmetic operation is the overflow error.\<close>

lemma try_errors:
  "try_add a b = Inl e \<Longrightarrow> e = overflow"
  "try_sub a b = Inl e \<Longrightarrow> e = overflow"
  "try_mul a b = Inl e \<Longrightarrow> e = overflow"
  "try_div a b = Inl e \<Longrightarrow> e = overflow"
  by (auto simp: try_add_def try_sub_def try_mul_def try_div_def and_then_Inl_iff ok_or_Inl_iff)

lemma try_sub_Inl_iff: "try_sub a b = Inl e \<longleftrightarrow> dv a < dv b \<and> e = overflow"
  by (auto simp: try_sub_def and_then_Inl_iff ok_or_Inl_iff checked_sub_None_iff)

subsection \<open>Conversions\<close>

lemma dv_Decimal_from [simp]: "dv (Decimal_from v) = wad * unat v"
proof -
  have "wad * unat v < 2 ^ 60 * 2 ^ 64"
    using unat_less_pow [of v] by (intro mult_strict_mono) (auto simp: wad_def)
  then have "wad * unat v < 2 ^ 192" by (simp add: order.strict_trans)
  then show ?thesis by (simp add: Decimal_from_def unat_word_ariths unat_ucast_up)
qed

lemma dv_Decimal_from_u128 [simp]: "dv (Decimal_from_u128 v) = wad * unat v"
proof -
  have "wad * unat v < 2 ^ 60 * 2 ^ 128"
    using unat_less_pow [of v] by (intro mult_strict_mono) (auto simp: wad_def)
  then have "wad * unat v < 2 ^ 192" by (simp add: order.strict_trans)
  then show ?thesis by (simp add: Decimal_from_u128_def unat_word_ariths unat_ucast_up)
qed

lemma unat_percent: "unat (ucast (p :: u8) * PERCENT_SCALER) = unat p * (wad div 100)"
proof -
  have "unat p * 10000000000000000 < 256 * 10000000000000000"
    using unat_less_pow [of p] by simp
  then show ?thesis
    by (simp add: unat_word_ariths unat_ucast_up PERCENT_SCALER_def wad_def)
qed

lemma dv_from_percent [simp]: "dv (Decimal_from_percent p) = unat p * (wad div 100)"
  by (simp add: Decimal_from_percent_def unat_ucast_up unat_percent)

lemma rv_from_percent [simp]: "rv (Rate_from_percent p) = unat p * (wad div 100)"
  by (simp add: Rate_from_percent_def unat_ucast_up unat_percent)

lemma rv_from_percent_u64 [simp]: "rv (Rate_from_percent_u64 p) = unat p * (wad div 100)"
proof -
  have "unat p * 10000000000000000 < 2 ^ 64 * 10000000000000000"
    using unat_less_pow [of p] by simp
  then show ?thesis
    by (simp add: Rate_from_percent_u64_def unat_word_ariths unat_ucast_up PERCENT_SCALER_def wad_def)
qed

lemma rv_from_scaled_val [simp]: "rv (Rate_from_scaled_val v) = unat v"
  by (simp add: Rate_from_scaled_val_def unat_ucast_up)

lemma dv_from_scaled_val [simp]: "dv (from_scaled_val v) = unat v"
  by (simp add: from_scaled_val_def unat_ucast_up)

lemma dv_Decimal_from_Rate [simp]: "dv (Decimal_from_Rate r) = rv r"
  by (simp add: Decimal_from_Rate_def Rate_to_scaled_val_def unat_ucast_up)

lemma to_scaled_val_iff [wad_simps]: "to_scaled_val d = Inr v \<longleftrightarrow> unat v = dv d"
  by (simp add: to_scaled_val_def try_narrow_Inr_iff)

lemma Rate_try_from_iff [wad_simps]: "Rate_try_from d = Inr r \<longleftrightarrow> rv r = dv d"
  by (simp add: Rate_try_from_def and_then_Inr_iff to_scaled_val_iff ex_Rate_iff)

lemma div_wad_less: "n < 2 ^ 192 \<Longrightarrow> n div wad < 2 ^ 192"
  by (meson div_le_dividend le_less_trans)

lemma checked_div_wad:
  "and_then (ok_or overflow (checked_div s Decimal_wad)) try_narrow = Inr (v :: u64) \<longleftrightarrow>
     unat v = unat s div wad"
  using ex_unat_eq [where ?'a = 192, of "unat s div wad" "\<lambda>n. unat v = n"]
    div_wad_less [of "unat s"] unat_less_pow [of s]
  by (simp add: result_iffs try_narrow_Inr_iff)

lemma try_floor_u64_iff [wad_simps]: "try_floor_u64 d = Inr v \<longleftrightarrow> unat v = dv d div wad"
  by (simp add: try_floor_u64_def checked_div_wad)

lemma try_ceil_u64_iff [wad_simps]:
  "try_ceil_u64 d = Inr v \<longleftrightarrow> wad - 1 + dv d < 2 ^ 192 \<and> unat v = (wad - 1 + dv d) div wad"
proof -
  have "checked_sub Decimal_wad 1 = Some (Decimal_wad - 1)"
    by (simp add: checked_sub_def word_le_nat_alt wad_def)
  moreover have "unat (Decimal_wad - 1) = wad - 1"
    by (simp add: Decimal_wad_def WAD_def wad_def)
  ultimately show ?thesis
    using ex_unat_eq [where ?'a = 192, of "wad - 1 + dv d" "\<lambda>n. unat v = n div wad"]
    by (simp add: try_ceil_u64_def and_then_Inr_iff [of "ok_or _ (checked_add _ _)"] ok_or_Inr_iff
        checked_add_Some_iff checked_div_wad)
qed

lemma try_round_u64_iff [wad_simps]:
  "try_round_u64 d = Inr v \<longleftrightarrow> wad div 2 + dv d < 2 ^ 192 \<and> unat v = (wad div 2 + dv d) div wad"
proof -
  have "unat Decimal_half_wad = wad div 2"
    by (simp add: Decimal_half_wad_def HALF_WAD_def wad_def)
  then show ?thesis
    using ex_unat_eq [where ?'a = 192, of "wad div 2 + dv d" "\<lambda>n. unat v = n div wad"]
    by (simp add: try_round_u64_def and_then_Inr_iff [of "ok_or _ (checked_add _ _)"] ok_or_Inr_iff
        checked_add_Some_iff checked_div_wad)
qed

section \<open>The contract of a fixed-point type\<close>

locale wad_math =
  fixes raw :: "'d \<Rightarrow> nat"
    and bound :: nat
    and add :: "'d \<Rightarrow> 'd \<Rightarrow> program_error + 'd"
    and sub :: "'d \<Rightarrow> 'd \<Rightarrow> program_error + 'd"
    and mul :: "'d \<Rightarrow> 'd \<Rightarrow> program_error + 'd"
    and quot :: "'d \<Rightarrow> 'd \<Rightarrow> program_error + 'd"
  assumes raw_bound: "raw a < bound"
    and raw_surj: "n < bound \<Longrightarrow> \<exists>a. raw a = n"
    and add_law: "add a b = Inr c \<longleftrightarrow> raw c = raw a + raw b"
    and sub_law: "sub a b = Inr c \<longleftrightarrow> raw a = raw c + raw b"
    and mul_law: "mul a b = Inr c \<longleftrightarrow> raw a * raw b < bound \<and> raw c = raw a * raw b div wad"
    and quot_law: "quot a b = Inr c \<longleftrightarrow>
      raw a * wad < bound \<and> raw b \<noteq> 0 \<and> raw c = raw a * wad div raw b"
begin

lemma mul_fraction_le: "mul a b = Inr c \<Longrightarrow> raw b \<le> wad \<Longrightarrow> raw c \<le> raw a"
  by (simp add: mul_law div_le_mono [THEN order.trans, of _ "raw a * wad"])

lemma mul_factor_ge: "mul a b = Inr c \<Longrightarrow> wad \<le> raw b \<Longrightarrow> raw a \<le> raw c"
  using div_le_mono [of "raw a * wad" "raw a * raw b" wad] by (simp add: mul_law)

lemma mul_mono: "mul a b = Inr c \<Longrightarrow> mul a' b' = Inr c' \<Longrightarrow> raw a \<le> raw a' \<Longrightarrow> raw b \<le> raw b' \<Longrightarrow> raw c \<le> raw c'"
  by (simp add: mul_law div_le_mono mult_le_mono)

lemma mul_total: "raw a * raw b < bound \<Longrightarrow> \<exists>c. mul a b = Inr c"
  unfolding mul_law by (metis div_le_dividend le_less_trans raw_surj)

lemma quot_le_one: "quot a b = Inr c \<Longrightarrow> raw a \<le> raw b \<Longrightarrow> raw c \<le> wad"
  by (metis mult.commute div_le_mono quot_law nonzero_mult_div_cancel_left mult_le_mono2)

lemma quot_ge_one: "quot a b = Inr c \<Longrightarrow> raw b \<le> raw a \<Longrightarrow> wad \<le> raw c"
  by (metis mult.commute div_le_mono quot_law nonzero_mult_div_cancel_left mult_le_mono2)

text \<open>Dividing and multiplying back, in either order, never gains.\<close>

lemma mul_quot_le:
  assumes "quot a b = Inr q" and "mul b q = Inr c"
  shows "raw c \<le> raw a"
proof -
  have "raw b * raw q \<le> raw a * wad" using assms(1) by (simp add: quot_law mult.commute)
  then show ?thesis using assms(2) div_le_mono [of _ "raw a * wad" wad] by (simp add: mul_law)
qed

lemma quot_mul_le:
  assumes "mul a b = Inr p" and "quot p b = Inr q"
  shows "raw q \<le> raw a"
proof -
  have "raw p * wad \<le> raw a * raw b" using assms(1) by (simp add: mul_law)
  then have "raw p * wad div raw b \<le> raw a * raw b div raw b" by (rule div_le_mono)
  then show ?thesis using assms(2) by (simp add: quot_law)
qed

lemma sub_total: "raw b \<le> raw a \<Longrightarrow> \<exists>c. sub a b = Inr c \<and> raw a = raw c + raw b"
  unfolding sub_law using raw_surj [of "raw a - raw b"] raw_bound [of a]
  by (metis le_add_diff_inverse2 less_imp_diff_less)

lemma add_total: "raw a + raw b < bound \<Longrightarrow> \<exists>c. add a b = Inr c \<and> raw c = raw a + raw b"
  unfolding add_law using raw_surj by blast

lemma add_sub_cancel: "add a b = Inr c \<Longrightarrow> sub c b = Inr a"
  by (simp add: add_law sub_law)

end

interpretation dm: wad_math dv "2 ^ 192" try_add try_sub try_mul try_div
proof unfold_locales
  fix n :: nat
  assume "n < 2 ^ 192"
  then have "dv (Decimal (of_nat n)) = n" by (simp add: unat_of_nat take_bit_nat_eq_self)
  then show "\<exists>a. dv a = n" by blast
qed (rule dv_less try_add_iff try_sub_iff try_mul_iff try_div_iff)+

interpretation rm: wad_math rv "2 ^ 128" Rate_try_add Rate_try_sub Rate_try_mul Rate_try_div
proof unfold_locales
  fix n :: nat
  assume "n < 2 ^ 128"
  then have "rv (Rate (of_nat n)) = n" by (simp add: unat_of_nat take_bit_nat_eq_self)
  then show "\<exists>a. rv a = n" by blast
qed (rule rv_less Rate_try_add_iff Rate_try_sub_iff Rate_try_mul_iff Rate_try_div_iff)+

section \<open>Compounding\<close>

definition rq :: "rate \<Rightarrow> rat" where
  "rq r = of_nat (rv r) / of_nat wad"

lemma rq_nonneg [simp]: "0 \<le> rq r"
  unfolding rq_def by (intro divide_nonneg_nonneg of_nat_0_le_iff)

lemma rq_mul_le: "Rate_try_mul a b = Inr c \<Longrightarrow> rq c \<le> rq a * rq b"
proof -
  assume "Rate_try_mul a b = Inr c"
  then have "rv c * wad \<le> rv a * rv b" by (simp add: Rate_try_mul_iff)
  then have "(of_nat (rv c * wad) :: rat) \<le> of_nat (rv a * rv b)" by (simp only: of_nat_le_iff)
  then show ?thesis by (simp add: rq_def field_simps)
qed

lemma odd_word_iff: "e mod 2 \<noteq> 0 \<longleftrightarrow> odd (unat e)" for e :: u64
  by (simp add: word_unat_eq_iff unat_mod even_iff_mod_2_eq_zero)

lemma try_pow_loop_bound:
  "try_pow_loop e base ret = Inr r \<Longrightarrow> rq r \<le> rq ret * (rq base * rq base) ^ (unat e div 2)"
proof (induction e base ret arbitrary: r rule: try_pow_loop.induct)
  case (1 e base ret)
  show ?case
  proof (cases "e > 0")
    case False
    then have "e = 0" by (simp add: word_gt_0)
    then show ?thesis using 1(3) by (simp add: try_pow_loop.simps [of 0])
  next
    case True
    let ?n = "unat e div 2"
    have n: "unat (e div 2) = ?n" by (simp add: unat_div)
    obtain b2 where b2: "Rate_try_mul base base = Inr b2"
      using True 1(3) by (auto simp: try_pow_loop.simps [of e] Let_def and_then_Inr_iff)
    have sq: "rq b2 \<le> rq base * rq base" using b2 by (rule rq_mul_le)
    have pw: "rq b2 ^ ?n \<le> (rq base * rq base) ^ ?n" using sq by (intro power_mono) auto
    have half: "(rq b2 * rq b2) ^ (?n div 2) = rq b2 ^ (2 * (?n div 2))"
      by (simp add: power_mult power2_eq_square)
    show ?thesis
    proof (cases "odd ?n")
      case o: True
      then have o': "(e div 2) mod 2 \<noteq> 0" by (simp only: odd_word_iff n not_False_eq_True)
      obtain r2 where r2: "Rate_try_mul ret b2 = Inr r2" and
        rec: "try_pow_loop (e div 2) b2 r2 = Inr r"
        using True 1(3) b2 o'
        by (auto simp: try_pow_loop.simps [of e] Let_def and_then_Inr_iff)
      have "rq r \<le> rq r2 * (rq b2 * rq b2) ^ (?n div 2)"
        using 1(1) [OF True refl o' rec] by (simp add: n)
      also have "\<dots> \<le> (rq ret * rq b2) * (rq b2 * rq b2) ^ (?n div 2)"
        using rq_mul_le [OF r2] by (intro mult_right_mono) auto
      also have "\<dots> = rq ret * rq b2 ^ ?n"
        using o by (simp add: half flip: power_Suc)
      also have "\<dots> \<le> rq ret * (rq base * rq base) ^ ?n"
        using pw by (intro mult_left_mono) auto
      finally show ?thesis .
    next
      case ev: False
      then have e': "\<not> (e div 2) mod 2 \<noteq> 0" by (simp only: odd_word_iff n not_False_eq_True)
      have rec: "try_pow_loop (e div 2) b2 ret = Inr r"
        using True 1(3) b2 e' by (auto simp: try_pow_loop.simps [of e] Let_def)
      have "rq r \<le> rq ret * (rq b2 * rq b2) ^ (?n div 2)"
        using 1(2) [OF True refl e' rec] by (simp add: n)
      also have "\<dots> = rq ret * rq b2 ^ ?n" using ev by (simp add: half)
      also have "\<dots> \<le> rq ret * (rq base * rq base) ^ ?n"
        using pw by (intro mult_left_mono) auto
      finally show ?thesis .
    qed
  qed
qed

lemma try_pow_loop_ge_one:
  "try_pow_loop e base ret = Inr r \<Longrightarrow> wad \<le> rv base \<Longrightarrow> rv ret \<le> rv r"
proof (induction e base ret arbitrary: r rule: try_pow_loop.induct)
  case (1 e base ret)
  show ?case
  proof (cases "e > 0")
    case False
    then show ?thesis using 1(3) by (simp add: try_pow_loop.simps [of e])
  next
    case True
    obtain b2 where b2: "Rate_try_mul base base = Inr b2"
      using True 1(3) by (auto simp: try_pow_loop.simps [of e] Let_def and_then_Inr_iff)
    have ge: "wad \<le> rv b2" using rm.mul_factor_ge [OF b2 1(4)] 1(4) by simp
    show ?thesis
    proof (cases "(e div 2) mod 2 \<noteq> 0")
      case o: True
      obtain r2 where r2: "Rate_try_mul ret b2 = Inr r2" and
        rec: "try_pow_loop (e div 2) b2 r2 = Inr r"
        using True 1(3) b2 o by (auto simp: try_pow_loop.simps [of e] Let_def and_then_Inr_iff)
      have "rv ret \<le> rv r2" using r2 ge by (rule rm.mul_factor_ge)
      also have "\<dots> \<le> rv r" using 1(1) [OF True refl o rec ge] .
      finally show ?thesis .
    next
      case ev: False
      have rec: "try_pow_loop (e div 2) b2 ret = Inr r"
        using True 1(3) b2 ev by (auto simp: try_pow_loop.simps [of e] Let_def)
      show ?thesis using 1(2) [OF True refl ev rec ge] .
    qed
  qed
qed

lemma try_pow_ge:
  assumes "try_pow base e = Inr r" and "wad \<le> rv base"
  shows "wad \<le> rv r"
proof -
  have "wad \<le> rv (if e mod 2 \<noteq> 0 then base else Rate Rate_wad)" using assms(2) by auto
  also have "\<dots> \<le> rv r" using assms unfolding try_pow_def by (rule try_pow_loop_ge_one)
  finally show ?thesis .
qed

lemma try_pow_le:
  assumes "try_pow base e = Inr r"
  shows "rq r \<le> rq base ^ unat e"
proof -
  have one: "rq (Rate Rate_wad) = 1" by (simp add: rq_def)
  have "rq r \<le> rq (if odd (unat e) then base else Rate Rate_wad) * (rq base * rq base) ^ (unat e div 2)"
    using try_pow_loop_bound [OF assms [unfolded try_pow_def]] by (simp only: odd_word_iff)
  also have "(rq base * rq base) ^ (unat e div 2) = rq base ^ (2 * (unat e div 2))"
    by (simp add: power_mult power2_eq_square)
  finally show ?thesis
    by (cases "odd (unat e)") (simp_all add: one flip: power_Suc)
qed

section \<open>Properties\<close>

text \<open>
  C31: raising a rate of at least one to a power never rounds below one, and for any base
  the truncated square-and-multiply never exceeds the exact power: compounded interest is
  never negative and never more than the exact compound.
\<close>
theorem try_pow_never_overcharges:
  assumes "try_pow base e = Inr r"
  shows "rq r \<le> rq base ^ unat e \<and> (wad \<le> rv base \<longrightarrow> wad \<le> rv r)"
  using try_pow_le [OF assms] try_pow_ge [OF assms] by blast

theorem try_pow_never_overcharges_witness:
  "\<exists>r. try_pow (Rate 1100000000000000000) 3 = Inr r \<and> rq r \<le> rq (Rate 1100000000000000000) ^ 3 \<and> wad \<le> rv r"
proof -
  have p: "try_pow (Rate 1100000000000000000) 3 = Inr (Rate 1331000000000000000)"
    by (simp add: try_pow_def try_pow_loop.simps Let_def Rate_try_mul_def checked_mul_def
        checked_div_def Rate_wad_def WAD_def)
  show ?thesis using try_pow_never_overcharges [OF p] p by (simp add: wad_def)
qed

text \<open>
  Rounding a decimal to an integer: whenever the three roundings succeed, the floor is
  the integer part, the ceiling the least integer not below, the nearest lies between them,
  and they differ by at most one; on a decimal made from an integer all three succeed and
  give that integer back.
\<close>
lemma decimal_rounding_roundtrip:
  "(try_floor_u64 d = Inr f \<and> try_ceil_u64 d = Inr c \<and> try_round_u64 d = Inr n \<longrightarrow>
      unat f * wad \<le> dv d \<and> dv d < (unat f + 1) * wad \<and> dv d \<le> unat c * wad \<and>
      f \<le> n \<and> n \<le> c \<and> unat c \<le> unat f + 1) \<and>
   try_floor_u64 (Decimal_from v) = Inr v \<and> try_ceil_u64 (Decimal_from v) = Inr v \<and>
   try_round_u64 (Decimal_from v) = Inr v"
proof -
  have small: "wad * unat v + wad < 2 ^ 192"
  proof -
    have "wad * (unat v + 1) \<le> wad * 2 ^ 64" using unat_less_pow [of v] by simp
    also have "\<dots> < 2 ^ 192" by (simp add: wad_def)
    finally show ?thesis by simp
  qed
  have w: "wad = 1000000000000000000" by (simp add: wad_def)
  have "try_floor_u64 (Decimal_from v) = Inr v" by (simp add: try_floor_u64_iff)
  moreover have "try_ceil_u64 (Decimal_from v) = Inr v"
    using small by (simp add: try_ceil_u64_iff w)
  moreover have "try_round_u64 (Decimal_from v) = Inr v"
    using small by (simp add: try_round_u64_iff w)
  moreover have "unat f * wad \<le> dv d \<and> dv d < (unat f + 1) * wad \<and> dv d \<le> unat c * wad \<and>
      f \<le> n \<and> n \<le> c \<and> unat c \<le> unat f + 1"
    if "try_floor_u64 d = Inr f" "try_ceil_u64 d = Inr c" "try_round_u64 d = Inr n"
    using that by (simp add: wad_simps word_le_nat_alt w) linarith
  ultimately show ?thesis by blast
qed

lemma decimal_rounding_roundtrip_witness:
  "try_floor_u64 (Decimal 2500000000000000000) = Inr 2 \<and> try_ceil_u64 (Decimal 2500000000000000000) = Inr 3 \<and>
   (2 :: u64) \<le> 3 \<and> try_round_u64 (Decimal_from 7) = Inr 7"
proof -
  have "try_floor_u64 (Decimal 2500000000000000000) = Inr 2 \<and> try_ceil_u64 (Decimal 2500000000000000000) = Inr 3 \<and>
      try_round_u64 (Decimal 2500000000000000000) = Inr 3"
    by (simp add: wad_simps wad_def)
  with decimal_rounding_roundtrip [of "Decimal 2500000000000000000" 2 3 3 7] show ?thesis by blast
qed

end
