(* ===== verification/SolendLimiter.thy ===== *)
theory SolendLimiter
  imports SolendMath
begin

text \<open>
  \<open>patches/solend-sdk/src/state/last_update.rs\<close> and \<open>rate_limiter.rs\<close>: the staleness marker and
  the sliding-window outflow limiter.  An operation on \<open>&mut self\<close> returns its result together
  with the state it leaves behind, which a failing call may already have rolled forward.
  The lemmas follow the accepted outflows of a run: the limiter decides as a specification over the
  whole history does, and their sum over every window is bounded.
\<close>

section \<open>Last update\<close>

record last_update =
  lu_slot :: u64
  lu_stale :: bool

definition STALE_AFTER_SLOTS_ELAPSED :: u64 where
  "STALE_AFTER_SLOTS_ELAPSED = 1"

definition last_update_new :: "u64 \<Rightarrow> last_update" where
  "last_update_new slot = \<lparr> lu_slot = slot, lu_stale = True \<rparr>"

definition slots_elapsed :: "last_update \<Rightarrow> u64 \<Rightarrow> program_error + u64" where
  "slots_elapsed u slot = ok_or overflow (checked_sub slot (lu_slot u))"

definition update_slot :: "last_update \<Rightarrow> u64 \<Rightarrow> last_update" where
  "update_slot u slot = u\<lparr>lu_slot := slot, lu_stale := False\<rparr>"

definition mark_stale :: "last_update \<Rightarrow> last_update" where
  "mark_stale u = u\<lparr>lu_stale := True\<rparr>"

definition is_stale :: "last_update \<Rightarrow> u64 \<Rightarrow> program_error + bool" where
  "is_stale u slot =
     (if lu_stale u then Inr True
      else and_then (slots_elapsed u slot) (\<lambda>n. Inr (n \<ge> STALE_AFTER_SLOTS_ELAPSED)))"

text \<open>Two updates are compared by their slot alone; the flag plays no part.\<close>

definition last_update_eq :: "last_update \<Rightarrow> last_update \<Rightarrow> bool" where
  "last_update_eq u v \<longleftrightarrow> lu_slot u = lu_slot v"

datatype ordering = Less | Equal | Greater

definition last_update_partial_cmp :: "last_update \<Rightarrow> last_update \<Rightarrow> ordering option" where
  "last_update_partial_cmp u v =
     Some (if lu_slot u < lu_slot v then Less else if lu_slot u = lu_slot v then Equal else Greater)"

section \<open>Rate limiter\<close>

record rate_limiter_config =
  window_duration :: u64
  max_outflow :: u64

record rate_limiter =
  rl_config :: rate_limiter_config
  prev_qty :: decimal
  window_start :: u64
  cur_qty :: decimal

definition rate_limiter_new :: "rate_limiter_config \<Rightarrow> u64 \<Rightarrow> rate_limiter" where
  "rate_limiter_new cfg cur_slot =
     (let slot_start = if window_duration cfg \<noteq> 0
            then cur_slot div window_duration cfg * window_duration cfg else cur_slot
      in \<lparr> rl_config = cfg, prev_qty = Decimal_zero, window_start = slot_start, cur_qty = Decimal_zero \<rparr>)"

text \<open>
  \<open>_update\<close> divides by the window duration and is called only after the callers have checked
  that it is not zero.  The sum of the window start and its duration wraps.
\<close>

definition rl_roll :: "rate_limiter \<Rightarrow> u64 \<Rightarrow> program_error + rate_limiter" where
  "rl_roll rl cur_slot =
     (if cur_slot < window_start rl then Inl (Custom InvalidAccountInput)
      else
        let d = window_duration (rl_config rl);
            cur_slot_start = cur_slot div d * d;
            next_start = window_start rl + d
        in Inr (if cur_slot_start < next_start then rl
                else if cur_slot_start = next_start
                then rl\<lparr>prev_qty := cur_qty rl, window_start := cur_slot_start, cur_qty := Decimal_zero\<rparr>
                else rl\<lparr>prev_qty := Decimal_zero, window_start := cur_slot_start, cur_qty := Decimal_zero\<rparr>))"

definition current_outflow :: "rate_limiter \<Rightarrow> u64 \<Rightarrow> program_error + decimal" where
  "current_outflow rl cur_slot =
     (let d = window_duration (rl_config rl)
      in if d = 0 then Inl (Custom InvalidAccountInput)
         else and_then (try_sub (Decimal_from d) (Decimal_from (cur_slot - window_start rl + 1)))
           (\<lambda>w. and_then (try_div_u64 w d)
             (\<lambda>prev_weight. and_then (try_mul prev_weight (prev_qty rl))
               (\<lambda>p. try_add p (cur_qty rl)))))"

definition remaining_outflow :: "rate_limiter \<Rightarrow> u64 \<Rightarrow> (program_error + decimal) \<times> rate_limiter" where
  "remaining_outflow rl cur_slot =
     (if window_duration (rl_config rl) = 0 then (Inr (Decimal_from u64_MAX), rl)
      else case rl_roll rl cur_slot of
        Inl e \<Rightarrow> (Inl e, rl)
      | Inr rl \<Rightarrow>
          (and_then (current_outflow rl cur_slot)
             (\<lambda>cur_outflow.
                if cur_outflow > Decimal_from (max_outflow (rl_config rl)) then Inr Decimal_zero
                else try_sub (Decimal_from (max_outflow (rl_config rl))) cur_outflow), rl))"

definition rl_update :: "rate_limiter \<Rightarrow> u64 \<Rightarrow> decimal \<Rightarrow> (program_error + unit) \<times> rate_limiter" where
  "rl_update rl cur_slot qty =
     (if window_duration (rl_config rl) = 0 then (Inr (), rl)
      else case rl_roll rl cur_slot of
        Inl e \<Rightarrow> (Inl e, rl)
      | Inr rl \<Rightarrow>
          (case and_then (current_outflow rl cur_slot) (\<lambda>cur_outflow. try_add cur_outflow qty) of
             Inl e \<Rightarrow> (Inl e, rl)
           | Inr t \<Rightarrow>
               (if t > Decimal_from (max_outflow (rl_config rl))
                then (Inl (Custom OutflowRateLimitExceeded), rl)
                else (case try_add (cur_qty rl) qty of
                   Inl e \<Rightarrow> (Inl e, rl)
                 | Inr q \<Rightarrow> (Inr (), rl\<lparr>cur_qty := q\<rparr>)))))"

definition rate_limiter_default :: rate_limiter where
  "rate_limiter_default = rate_limiter_new \<lparr> window_duration = 1, max_outflow = u64_MAX \<rparr> 1"

section \<open>Runs\<close>

text \<open>A run is a sequence of requests; \<open>rl_run\<close> keeps the accepted ones, latest first.\<close>

type_synonym outflow = "u64 \<times> decimal"

fun rl_run :: "rate_limiter \<Rightarrow> outflow list \<Rightarrow> outflow list \<Rightarrow> rate_limiter \<times> outflow list" where
  "rl_run rl acc [] = (rl, acc)"
| "rl_run rl acc ((slot, qty) # reqs) =
     (case rl_update rl slot qty of
        (Inr _, rl') \<Rightarrow> rl_run rl' ((slot, qty) # acc) reqs
      | (Inl _, rl') \<Rightarrow> rl_run rl' acc reqs)"

definition outflow_where :: "(nat \<Rightarrow> bool) \<Rightarrow> outflow list \<Rightarrow> nat" where
  "outflow_where P acc = sum_list (map (\<lambda>(s, q). if P (unat s) then dv q else 0) acc)"

lemma outflow_where_simps [simp]:
  "outflow_where P [] = 0"
  "outflow_where P ((s, q) # acc) = (if P (unat s) then dv q else 0) + outflow_where P acc"
  by (simp_all add: outflow_where_def)

lemma outflow_where_le_union:
  "(\<And>s. P s \<Longrightarrow> Q s \<or> R s) \<Longrightarrow> outflow_where P acc \<le> outflow_where Q acc + outflow_where R acc"
proof (induction acc)
  case (Cons a acc)
  have "\<not> P (unat (fst a)) \<or> Q (unat (fst a)) \<or> R (unat (fst a))" using Cons.prems by blast
  then show ?case using Cons by (cases a) auto
qed simp

lemma outflow_where_none: "(\<And>s q. (s, q) \<in> set acc \<Longrightarrow> \<not> P (unat s)) \<Longrightarrow> outflow_where P acc = 0"
proof (induction acc)
  case (Cons a acc)
  have "\<not> P (unat (fst a))" using Cons.prems [of "fst a" "snd a"] by simp
  moreover have "outflow_where P acc = 0" using Cons by (meson list.set_intros(2))
  ultimately show ?case by (cases a) simp
qed simp

text \<open>
  The limiter as a specification over the whole history.  \<open>latest\<close> is the latest slot the limiter
  has seen and \<open>acc\<close> what it has accepted.  A request is accepted exactly when it does not lie in a
  window before that of \<open>latest\<close> and the outflow of its own window, the share of the previous
  window that the elapsed part of the window leaves and the requested quantity are together
  within the maximum.
\<close>

definition prev_share :: "nat \<Rightarrow> nat \<Rightarrow> nat \<Rightarrow> nat" where
  "prev_share d s prev = (wad * (d - (s mod d + 1)) div d) * prev div wad"

definition rl_spec_accepts ::
  "rate_limiter_config \<Rightarrow> nat \<Rightarrow> outflow list \<Rightarrow> nat \<Rightarrow> nat \<Rightarrow> bool" where
  "rl_spec_accepts cfg latest acc s q \<longleftrightarrow>
     (let d = unat (window_duration cfg)
      in latest div d \<le> s div d \<and>
         prev_share d s (outflow_where (\<lambda>t. t div d + 1 = s div d) acc)
           + outflow_where (\<lambda>t. t div d = s div d) acc + q
         \<le> wad * unat (max_outflow cfg))"

definition latest_slot :: "u64 \<Rightarrow> outflow list \<Rightarrow> nat" where
  "latest_slot s0 reqs = foldl (\<lambda>m (s, _). max m (unat s)) (unat s0) reqs"

text \<open>
  The invariant, with the history as the abstract state: the window start is that of the latest
  slot, no accepted outflow lies beyond the current window, the two quantities are what was
  accepted in the current and in the previous window, and no aligned window has more than the
  limit.
\<close>

definition rl_inv :: "rate_limiter \<Rightarrow> nat \<Rightarrow> outflow list \<Rightarrow> bool" where
  "rl_inv rl latest acc \<longleftrightarrow>
     (let d = unat (window_duration (rl_config rl)); ws = unat (window_start rl)
      in 0 < d \<and> ws = latest div d * d \<and> (\<forall>(s, q) \<in> set acc. unat s div d \<le> latest div d) \<and>
         dv (cur_qty rl) = outflow_where (\<lambda>s. s div d = latest div d) acc \<and>
         dv (prev_qty rl) = outflow_where (\<lambda>s. s div d + 1 = latest div d) acc \<and>
         (\<forall>k. outflow_where (\<lambda>s. s div d = k) acc \<le> wad * unat (max_outflow (rl_config rl))))"

lemma rl_inv_new: "0 < window_duration cfg \<Longrightarrow> rl_inv (rate_limiter_new cfg s0) (unat s0) []"
proof -
  assume d: "0 < window_duration cfg"
  then have "window_duration cfg \<noteq> 0" and "0 < unat (window_duration cfg)"
    by (auto simp: word_less_nat_alt)
  then show ?thesis by (simp add: rl_inv_def rate_limiter_new_def Let_def unat_div_mult)
qed

lemma rl_roll_config: "rl_roll rl s = Inr rl' \<Longrightarrow> rl_config rl' = rl_config rl"
  by (auto simp: rl_roll_def Let_def split: if_splits)

lemma rl_roll_Inr:
  assumes "rl_roll rl s = Inr rl'"
  defines "d \<equiv> window_duration (rl_config rl)"
  shows "unat (s div d * d) < unat (window_start rl + d) \<and> rl' = rl
    \<or> unat (s div d * d) = unat (window_start rl + d) \<and> unat (window_start rl') = unat (s div d * d) \<and>
        cur_qty rl' = Decimal_zero \<and> prev_qty rl' = cur_qty rl
    \<or> unat (window_start rl + d) < unat (s div d * d) \<and> unat (window_start rl') = unat (s div d * d) \<and>
        cur_qty rl' = Decimal_zero \<and> prev_qty rl' = Decimal_zero"
  using assms by (auto simp: rl_roll_def Let_def word_less_nat_alt word_unat_eq_iff split: if_splits)

text \<open>
  Rolling to a slot of the current window or of a later one keeps the invariant, with that slot
  counted as seen; an earlier slot is refused.
\<close>

lemma rl_roll_cases:
  assumes "rl_inv rl latest acc"
  shows "rl_roll rl s = Inl (Custom InvalidAccountInput) \<and>
           unat s div unat (window_duration (rl_config rl)) < latest div unat (window_duration (rl_config rl))
       \<or> (\<exists>rl'. rl_roll rl s = Inr rl') \<and>
           latest div unat (window_duration (rl_config rl)) \<le> unat s div unat (window_duration (rl_config rl))"
proof -
  let ?d = "unat (window_duration (rl_config rl))"
  have "0 < ?d" and ws: "unat (window_start rl) = latest div ?d * ?d"
    using assms by (simp_all add: rl_inv_def Let_def)
  then have "s < window_start rl \<longleftrightarrow> unat s div ?d < latest div ?d"
    by (simp add: word_less_nat_alt div_less_iff_less_mult)
  then show ?thesis by (auto simp: rl_roll_def Let_def)
qed

lemma rl_roll_inv:
  assumes inv: "rl_inv rl latest acc" and roll: "rl_roll rl s = Inr rl'"
    and fits: "unat s + unat (window_duration (rl_config rl)) < 2 ^ 64"
  shows "rl_inv rl' (max latest (unat s)) acc"
    and "max latest (unat s) div unat (window_duration (rl_config rl)) =
           unat s div unat (window_duration (rl_config rl))"
proof -
  define d where "d = unat (window_duration (rl_config rl))"
  define k where "k = latest div d"
  define j where "j = unat s div d"
  have d: "0 < d" and ws: "unat (window_start rl) = k * d"
    and old: "\<And>t q. (t, q) \<in> set acc \<Longrightarrow> unat t div d \<le> k"
    and cur: "dv (cur_qty rl) = outflow_where (\<lambda>s. s div d = k) acc"
    and cap: "\<forall>k. outflow_where (\<lambda>s. s div d = k) acc \<le> wad * unat (max_outflow (rl_config rl))"
    using inv unfolding rl_inv_def Let_def d_def k_def by blast+
  have kj: "k \<le> j" using rl_roll_cases [OF inv, of s] roll by (auto simp: d_def k_def j_def)
  then have mx: "max latest (unat s) div d = j"
    using div_le_mono [of "unat s" latest d] by (auto simp: max_def k_def j_def)
  have acc: "\<forall>(t, q) \<in> set acc. unat t div d \<le> j" using old kj by fastforce
  have css: "unat (s div window_duration (rl_config rl) * window_duration (rl_config rl)) = j * d"
    by (simp add: unat_div_mult j_def d_def)
  have "k * d \<le> unat s" using kj d by (simp add: j_def less_eq_div_iff_mult_less_eq)
  then have "k * d + d < 2 ^ 64" using fits unfolding d_def [symmetric] by linarith
  then have nxt: "unat (window_start rl + window_duration (rl_config rl)) = (k + 1) * d"
    unfolding unat_word_ariths ws d_def [symmetric] by simp
  have cfg: "rl_config rl' = rl_config rl" using roll by (rule rl_roll_config)
  consider (same) "j = k" "rl' = rl"
    | (following) "j = k + 1" "unat (window_start rl') = j * d" "cur_qty rl' = Decimal_zero" "prev_qty rl' = cur_qty rl"
    | (later) "k + 1 < j" "unat (window_start rl') = j * d" "cur_qty rl' = Decimal_zero" "prev_qty rl' = Decimal_zero"
    using rl_roll_Inr [OF roll] kj d unfolding css nxt mult_less_cancel2 mult_cancel2
    by (elim disjE conjE) (simp_all add: less_Suc_eq_le)
  then have "rl_inv rl' (max latest (unat s)) acc"
  proof cases
    case same
    then show ?thesis using inv mx by (simp add: rl_inv_def Let_def d_def k_def)
  next
    case following
    have "outflow_where (\<lambda>t. t div d = j) acc = 0"
      by (rule outflow_where_none) (use old following(1) in fastforce)
    then show ?thesis
      unfolding rl_inv_def Let_def cfg d_def [symmetric] mx using following d cap cur acc by simp
  next
    case later
    have "outflow_where (\<lambda>t. t div d = j) acc = 0" "outflow_where (\<lambda>t. t div d + 1 = j) acc = 0"
      by (rule outflow_where_none, use old later(1) in fastforce)+
    then show ?thesis
      unfolding rl_inv_def Let_def cfg d_def [symmetric] mx using later d cap acc by simp
  qed
  then show "rl_inv rl' (max latest (unat s)) acc"
    and "max latest (unat s) div unat (window_duration (rl_config rl)) =
           unat s div unat (window_duration (rl_config rl))"
    using mx by (simp_all add: d_def j_def)
qed

text \<open>
  In the window of the slot the current outflow is computed without overflow: it is the current
  quantity and the share of the previous one.
\<close>

lemma prev_share_le: "0 < d \<Longrightarrow> prev_share d s prev \<le> prev"
proof -
  assume "0 < d"
  then have "wad * (d - (s mod d + 1)) div d \<le> wad"
    by (metis diff_le_self div_le_mono mult.commute mult_le_mono1 nonzero_mult_div_cancel_left not_gr_zero)
  then have "wad * (d - (s mod d + 1)) div d * prev div wad \<le> wad * prev div wad"
    by (intro div_le_mono mult_le_mono1)
  then show ?thesis by (simp add: prev_share_def wad_def)
qed

lemma rl_inv_qty_le:
  assumes "rl_inv rl latest acc"
  shows "dv (prev_qty rl) \<le> wad * unat (max_outflow (rl_config rl))"
    and "dv (cur_qty rl) \<le> wad * unat (max_outflow (rl_config rl))"
proof -
  define d where "d = unat (window_duration (rl_config rl))"
  define k where "k = latest div d"
  let ?M = "wad * unat (max_outflow (rl_config rl))"
  have cap: "outflow_where (\<lambda>s. s div d = i) acc \<le> ?M" for i
    using assms by (simp add: rl_inv_def Let_def d_def)
  show "dv (cur_qty rl) \<le> ?M" using assms cap by (simp add: rl_inv_def Let_def d_def)
  have "outflow_where (\<lambda>s. s div d + 1 = k) acc \<le> ?M"
  proof (cases k)
    case 0
    then have "outflow_where (\<lambda>s. s div d + 1 = k) acc = 0" by (intro outflow_where_none) simp
    then show ?thesis by simp
  next
    case (Suc i)
    then show ?thesis using cap [of i] by simp
  qed
  then show "dv (prev_qty rl) \<le> ?M" using assms by (simp add: rl_inv_def Let_def d_def k_def)
qed

lemma limit_small: "wad * unat (m :: u64) < 2 ^ 124"
proof -
  have "wad * unat m < 2 ^ 60 * 2 ^ 64"
    using unat_less_pow [of m] by (intro mult_strict_mono) (auto simp: wad_def)
  then show ?thesis by simp
qed

lemma current_outflow_eq:
  assumes inv: "rl_inv rl latest acc"
    and win: "latest div unat (window_duration (rl_config rl)) = unat s div unat (window_duration (rl_config rl))"
    and fits: "unat s + unat (window_duration (rl_config rl)) < 2 ^ 64"
  shows "\<exists>f. current_outflow rl s = Inr f \<and>
     dv f = prev_share (unat (window_duration (rl_config rl))) (unat s) (dv (prev_qty rl)) + dv (cur_qty rl)"
proof -
  define d where "d = unat (window_duration (rl_config rl))"
  let ?n = "unat s mod d + 1" and ?p = "dv (prev_qty rl)" and ?c = "dv (cur_qty rl)"
  let ?w = "wad * (d - ?n) div d"
  have d: "0 < d" and ws: "unat (window_start rl) = unat s div d * d"
    using inv win by (simp_all add: rl_inv_def Let_def d_def)
  have "window_start rl \<le> s" by (simp add: word_le_nat_alt ws)
  then have "unat (s - window_start rl) = unat s mod d"
    by (simp add: unat_sub ws minus_div_mult_eq_mod)
  moreover have nd: "?n \<le> d" using d by (simp add: Suc_leI)
  ultimately have n: "unat (s - window_start rl + 1) = ?n"
    using fits by (simp add: unat_word_ariths d_def)
  have small: "?p < 2 ^ 124" "?c < 2 ^ 124" "prev_share d (unat s) ?p < 2 ^ 124"
    using rl_inv_qty_le [OF inv] limit_small [of "max_outflow (rl_config rl)"] prev_share_le [OF d, of "unat s" ?p]
    by linarith+
  have "?w \<le> wad * d div d" by (intro div_le_mono mult_le_mono2) simp
  then have w: "?w < 2 ^ 60" using d by (simp add: wad_def)
  then have "?w * ?p < 2 ^ 60 * 2 ^ 124" using small(1) by (rule mult_strict_mono) simp_all
  also have "\<dots> \<le> 2 ^ 192" by simp
  finally have wp: "?w * ?p < 2 ^ 192" .
  have "wad * (d - ?n) \<le> wad * d" by simp
  moreover have "wad * d < 2 ^ 124" using limit_small by (simp add: d_def)
  ultimately have "wad * (d - ?n) < 2 ^ 124" by (rule le_less_trans)
  then obtain x where x: "dv x = wad * (d - ?n)" using dm.raw_surj [of "wad * (d - ?n)"] by fastforce
  obtain y where y: "dv y = ?w" using w dm.raw_surj [of ?w] by fastforce
  obtain z where z: "dv z = prev_share d (unat s) ?p"
    using small(3) dm.raw_surj [of "prev_share d (unat s) ?p"] by fastforce
  obtain f where f: "dv f = prev_share d (unat s) ?p + ?c"
    using small dm.raw_surj [of "prev_share d (unat s) ?p + ?c"] by fastforce
  note v = x y z f
  have "try_sub (Decimal_from (window_duration (rl_config rl))) (Decimal_from (s - window_start rl + 1)) = Inr x"
    using nd by (simp only: try_sub_iff v n dv_Decimal_from d_def [symmetric] add_mult_distrib2 [symmetric] le_add_diff_inverse2)
  moreover have "try_div_u64 x (window_duration (rl_config rl)) = Inr y"
    using d by (auto simp: try_div_u64_iff v d_def)
  moreover have "try_mul y (prev_qty rl) = Inr z" using wp by (simp add: try_mul_iff v prev_share_def)
  moreover have "try_add z (cur_qty rl) = Inr f" by (simp add: try_add_iff v)
  moreover have "window_duration (rl_config rl) \<noteq> 0" using d by (auto simp: d_def)
  ultimately show ?thesis by (simp add: current_outflow_def Let_def v d_def)
qed

lemma rl_update_rolled:
  assumes "rl_roll rl s = Inr r" and "current_outflow r s = Inr f" and "window_duration (rl_config rl) \<noteq> 0"
    and "dv (cur_qty r) \<le> dv f"
  shows "if dv f + dv qty \<le> wad * unat (max_outflow (rl_config r))
     then \<exists>q. dv q = dv (cur_qty r) + dv qty \<and> rl_update rl s qty = (Inr (), r\<lparr>cur_qty := q\<rparr>)
     else \<exists>e. rl_update rl s qty = (Inl e, r)"
proof (cases "dv f + dv qty \<le> wad * unat (max_outflow (rl_config r))")
  case True
  then have "dv f + dv qty < 2 ^ 192" using limit_small [of "max_outflow (rl_config r)"] by simp
  moreover from this have "dv (cur_qty r) + dv qty < 2 ^ 192" using assms(4) by linarith
  ultimately obtain t q where "dv t = dv f + dv qty" "dv q = dv (cur_qty r) + dv qty" using dm.raw_surj by metis
  moreover from this have "try_add f qty = Inr t" "try_add (cur_qty r) qty = Inr q" by (simp_all add: try_add_iff)
  ultimately show ?thesis using True assms by (auto simp: rl_update_def dec_less_iff)
next
  case False
  then have "Decimal_from (max_outflow (rl_config r)) < t" if "try_add f qty = Inr t" for t
    using that by (simp add: try_add_iff dec_less_iff)
  then show ?thesis using False assms by (cases "try_add f qty") (auto simp: rl_update_def)
qed

text \<open>One request: the limiter decides as the specification does and keeps the invariant.\<close>

lemma rl_update_refines:
  assumes inv: "rl_inv rl latest acc" and upd: "rl_update rl s qty = (res, rl')"
    and fits: "unat s + unat (window_duration (rl_config rl)) < 2 ^ 64"
  shows "(is_ok res \<longleftrightarrow> rl_spec_accepts (rl_config rl) latest acc (unat s) (dv qty)) \<and> rl_config rl' = rl_config rl \<and>
     rl_inv rl' (max latest (unat s)) (if is_ok res then (s, qty) # acc else acc)"
proof -
  define d where "d = unat (window_duration (rl_config rl))"
  have d: "0 < d" using inv by (simp add: rl_inv_def Let_def d_def)
  then have d0: "window_duration (rl_config rl) \<noteq> 0" by (auto simp: d_def)
  from rl_roll_cases [OF inv, of s] consider
      (refused) "rl_roll rl s = Inl (Custom InvalidAccountInput)" "unat s div d < latest div d"
    | (rolled) r where "rl_roll rl s = Inr r" "latest div d \<le> unat s div d"
    by (auto simp: d_def)
  then show ?thesis
  proof cases
    case refused
    then have "max latest (unat s) = latest" using div_le_mono [of latest "unat s" d] by (fastforce simp: max_def)
    then show ?thesis using refused upd inv d0 by (auto simp: rl_update_def rl_spec_accepts_def Let_def d_def)
  next
    case rolled
    let ?l = "max latest (unat s)"
    have cfg: "rl_config r = rl_config rl" using rolled(1) by (rule rl_roll_config)
    note roll = rl_roll_inv [OF inv rolled(1) fits, folded d_def]
    then have cur: "dv (cur_qty r) = outflow_where (\<lambda>t. t div d = unat s div d) acc"
      and prev: "dv (prev_qty r) = outflow_where (\<lambda>t. t div d + 1 = unat s div d) acc"
      by (simp_all add: rl_inv_def Let_def cfg d_def)
    obtain f where f: "current_outflow r s = Inr f" "dv f = prev_share d (unat s) (dv (prev_qty r)) + dv (cur_qty r)"
      using current_outflow_eq [OF roll(1), of s] roll(2) fits by (auto simp: cfg d_def)
    have spec: "rl_spec_accepts (rl_config rl) latest acc (unat s) (dv qty) \<longleftrightarrow>
        dv f + dv qty \<le> wad * unat (max_outflow (rl_config r))"
      using rolled(2) by (simp add: rl_spec_accepts_def Let_def d_def [symmetric] f(2) prev cur cfg)
    note eval = rl_update_rolled [OF rolled(1) f(1) d0, of qty, folded spec]
    show ?thesis
    proof (cases "rl_spec_accepts (rl_config rl) latest acc (unat s) (dv qty)")
      case True
      then obtain q where q: "dv q = dv (cur_qty r) + dv qty" "res = Inr ()" "rl' = r\<lparr>cur_qty := q\<rparr>"
        using eval upd f(2) by auto
      have cap: "dv (cur_qty r) + dv qty \<le> wad * unat (max_outflow (rl_config rl))"
        using True f(2) by (simp add: spec cfg)
      have "rl_inv rl' ?l ((s, qty) # acc)"
        using roll cap d unfolding rl_inv_def Let_def by (auto simp: q cfg d_def [symmetric] cur)
      then show ?thesis using True q cfg by simp
    next
      case False
      then show ?thesis using eval upd roll(1) cfg f(2) by auto
    qed
  qed
qed

lemma rl_run_inv:
  assumes "rl_inv rl latest acc" and "rl_run rl acc reqs = (rl', acc')"
    and "\<forall>(s, q) \<in> set reqs. unat s + unat (window_duration (rl_config rl)) < 2 ^ 64"
  shows "rl_inv rl' (foldl (\<lambda>m (s, _). max m (unat s)) latest reqs) acc' \<and> rl_config rl' = rl_config rl"
  using assms
proof (induction reqs arbitrary: rl acc latest)
  case Nil
  then show ?case by simp
next
  case (Cons req reqs)
  obtain s q where req: "req = (s, q)" by (cases req)
  obtain res r where upd: "rl_update rl s q = (res, r)" by (cases "rl_update rl s q")
  have fits: "unat s + unat (window_duration (rl_config rl)) < 2 ^ 64" using Cons.prems(3) req by auto
  have step: "rl_inv r (max latest (unat s)) (if is_ok res then (s, q) # acc else acc)" "rl_config r = rl_config rl"
    using rl_update_refines [OF Cons.prems(1) upd fits] by blast+
  have run: "rl_run r (if is_ok res then (s, q) # acc else acc) reqs = (rl', acc')"
    using Cons.prems(2) upd by (cases res) (auto simp: req)
  have "\<forall>(s, q) \<in> set reqs. unat s + unat (window_duration (rl_config r)) < 2 ^ 64"
    using Cons.prems(3) by (simp add: step(2))
  from Cons.IH [OF step(1) run this] show ?case by (simp add: step(2) req)
qed

text \<open>Any closed span of one window duration meets at most two aligned windows.\<close>

lemma rl_inv_span:
  assumes "rl_inv rl latest acc"
  shows "outflow_where (\<lambda>s. s \<le> t \<and> t \<le> s + unat (window_duration (rl_config rl))) acc
     \<le> 2 * (wad * unat (max_outflow (rl_config rl)))"
proof -
  let ?d = "unat (window_duration (rl_config rl))"
  have d: "0 < ?d" and cap: "\<And>k. outflow_where (\<lambda>s. s div ?d = k) acc \<le> wad * unat (max_outflow (rl_config rl))"
    using assms by (simp_all add: rl_inv_def Let_def)
  have two: "s div ?d = t div ?d \<or> s div ?d = t div ?d - 1" if "s \<le> t \<and> t \<le> s + ?d" for s
  proof -
    have "s div ?d \<le> t div ?d" using that by (simp add: div_le_mono)
    moreover have "t div ?d \<le> (s + ?d) div ?d" using that by (intro div_le_mono) simp
    then have "t div ?d \<le> s div ?d + 1" using d by simp
    ultimately show ?thesis by linarith
  qed
  have "outflow_where (\<lambda>s. s \<le> t \<and> t \<le> s + ?d) acc \<le>
      outflow_where (\<lambda>s. s div ?d = t div ?d) acc + outflow_where (\<lambda>s. s div ?d = t div ?d - 1) acc"
    by (rule outflow_where_le_union) (rule two)
  with cap [of "t div ?d"] cap [of "t div ?d - 1"] show ?thesis by linarith
qed

section \<open>Properties\<close>

text \<open>
  C13: a rate limiter with a window refines its specification over the whole history.  After any
  requests, in whatever slot order, the next one is accepted exactly when its slot lies in no
  window before that of the latest slot seen and the outflow accepted in its own window, the
  fraction of the outflow accepted in the previous window that corresponds to the slots left of
  the window, and the requested quantity together stay within the maximum; and the outflow
  accepted in any closed span of one window duration is at most twice the maximum.  The slots
  are such that adding the window duration does not wrap.  The source promises less than
  twice the maximum; twice the maximum is reached (see the witness).
\<close>
theorem rate_limiter_sliding_window:
  assumes "0 < window_duration cfg"
    and "\<forall>(s, q) \<in> set ((s, q) # reqs). unat s + unat (window_duration cfg) < 2 ^ 64"
  shows "case rl_run (rate_limiter_new cfg s0) [] reqs of (rl, acc) \<Rightarrow>
     (is_ok (fst (rl_update rl s q)) \<longleftrightarrow> rl_spec_accepts cfg (latest_slot s0 reqs) acc (unat s) (dv q)) \<and>
     outflow_where (\<lambda>s. s \<le> t \<and> t \<le> s + unat (window_duration cfg)) acc \<le> 2 * (wad * unat (max_outflow cfg))"
proof -
  obtain rl acc where run: "rl_run (rate_limiter_new cfg s0) [] reqs = (rl, acc)"
    by (cases "rl_run (rate_limiter_new cfg s0) [] reqs")
  obtain res rl' where upd: "rl_update rl s q = (res, rl')" by (cases "rl_update rl s q")
  have cfg: "rl_config (rate_limiter_new cfg s0) = cfg" by (simp add: rate_limiter_new_def Let_def)
  have inv: "rl_inv rl (latest_slot s0 reqs) acc" and cfg': "rl_config rl = cfg"
    using rl_run_inv [OF rl_inv_new [OF assms(1)] run] assms(2) by (simp_all add: cfg latest_slot_def)
  have fits: "unat s + unat (window_duration (rl_config rl)) < 2 ^ 64" using assms(2) by (simp add: cfg')
  from rl_update_refines [OF inv upd fits] rl_inv_span [OF inv, of t] show ?thesis
    by (simp add: run upd cfg')
qed

text \<open>
  A window of ten slots and a maximum of 100: after 100 in slot 9 a request of 20 in slot 10 is
  refused, because nine tenths of the previous window still count, and 100 are accepted in slot
  19, so that the closed span of slots 9 to 19 has exactly twice the maximum.
\<close>

theorem rate_limiter_sliding_window_witness:
  "\<exists>rl. rl_run (rate_limiter_new \<lparr> window_duration = 10, max_outflow = 100 \<rparr> 5) []
       [(9, Decimal_from 100), (10, Decimal_from 20), (19, Decimal_from 100)] =
       (rl, [(19, Decimal_from 100), (9, Decimal_from 100)]) \<and>
     \<not> is_ok (fst (rl_update rl 19 (Decimal_from 1))) \<and>
     outflow_where (\<lambda>s. s \<le> 19 \<and> 19 \<le> s + 10) [(19, Decimal_from 100), (9, Decimal_from 100)] = 2 * (wad * 100)"
proof -
  let ?cfg = "\<lparr> window_duration = 10, max_outflow = 100 \<rparr>" and ?D = "\<lambda>n. Decimal (n * Decimal_wad)"
  let ?rl = "\<lambda>ws p c. \<lparr> rl_config = ?cfg, prev_qty = ?D p, window_start = ws, cur_qty = ?D c \<rparr>"
  let ?reqs = "[(9, Decimal_from 100), (10, Decimal_from 20), (19, Decimal_from 100)]"
  have run: "rl_run (rate_limiter_new ?cfg 5) [] ?reqs = (?rl 10 100 100, [(19, Decimal_from 100), (9, Decimal_from 100)])"
    by (simp add: rate_limiter_new_def rl_update_def rl_roll_def current_outflow_def Decimal_from_def Decimal_zero_def Decimal_wad_def WAD_def try_sub_def
        try_div_u64_def try_mul_def try_add_def checked_add_def checked_sub_def checked_mul_def checked_div_def
        less_decimal_def Let_def)
  have "\<not> is_ok (fst (rl_update (?rl 10 100 100) 19 (Decimal_from 1)))"
    using rate_limiter_sliding_window [of ?cfg 19 "Decimal_from 1" ?reqs 5 19]
    unfolding run prod.case by (simp add: latest_slot_def rl_spec_accepts_def prev_share_def wad_def)
  with run show ?thesis by (simp del: rl_run.simps)
qed

end
