(* ===== verification/SolendReserve.thy ===== *)
theory SolendReserve
  imports SolendLimiter
begin

text \<open>
  \<open>patches/solend-sdk/src/state/reserve.rs\<close> without liquidation and byte layout: the reserve
  record, its liquidity and collateral operations, the collateral exchange rate, the borrow
  rate curve, interest accrual, fees and the configuration check.  A method on \<open>&mut self\<close>
  returns the updated record or an error; a caller discards the record on an error.
  The lemmas show that the supply accounting is conserved, that accrual is monotone, that
  exchanging never gains, and what an accepted configuration guarantees.
\<close>

section \<open>Constants\<close>

definition LIQUIDATION_CLOSE_FACTOR :: u8 where "LIQUIDATION_CLOSE_FACTOR = 20"
definition LIQUIDATION_CLOSE_AMOUNT :: u64 where "LIQUIDATION_CLOSE_AMOUNT = 2"
definition MAX_LIQUIDATABLE_VALUE_AT_ONCE :: u64 where "MAX_LIQUIDATABLE_VALUE_AT_ONCE = 500000"
definition MAX_BONUS_PCT :: u8 where "MAX_BONUS_PCT = 25"
definition MAX_PROTOCOL_LIQUIDATION_FEE_DECA_BPS :: u8 where
  "MAX_PROTOCOL_LIQUIDATION_FEE_DECA_BPS = 50"
definition MAX_SCALED_PRICE_OFFSET_BPS :: int where "MAX_SCALED_PRICE_OFFSET_BPS = 5000"
definition MIN_SCALED_PRICE_OFFSET_BPS :: int where "MIN_SCALED_PRICE_OFFSET_BPS = - 2000"

definition INITIAL_COLLATERAL_RATIO :: u64 where "INITIAL_COLLATERAL_RATIO = 1"
definition INITIAL_COLLATERAL_RATE :: u64 where
  "INITIAL_COLLATERAL_RATE = INITIAL_COLLATERAL_RATIO * WAD"
definition PROGRAM_VERSION :: u8 where "PROGRAM_VERSION = 1"
definition UNINITIALIZED_VERSION :: u8 where "UNINITIALIZED_VERSION = 0"
definition SLOTS_PER_YEAR :: u64 where "SLOTS_PER_YEAR = 63072000"

section \<open>Records\<close>

datatype reserve_type = Regular | Isolated

record reserve_fees =
  borrow_fee_wad :: u64
  flash_loan_fee_wad :: u64
  host_fee_percentage :: u8

text \<open>\<open>scaled_price_offset_bps\<close> is an \<open>i64\<close>: a 64-bit word read with \<open>sint\<close>.\<close>

record reserve_config =
  optimal_utilization_rate :: u8
  max_utilization_rate :: u8
  loan_to_value_ratio_pct :: u8
  liquidation_bonus :: u8
  max_liquidation_bonus :: u8
  liquidation_threshold :: u8
  max_liquidation_threshold :: u8
  min_borrow_rate :: u8
  optimal_borrow_rate :: u8
  max_borrow_rate :: u8
  super_max_borrow_rate :: u64
  fees :: reserve_fees
  deposit_limit :: u64
  borrow_limit :: u64
  fee_receiver :: pubkey
  cfg_protocol_liquidation_fee :: u8
  protocol_take_rate :: u8
  added_borrow_weight_bps :: u64
  res_type :: reserve_type
  scaled_price_offset_bps :: u64
  extra_oracle_pubkey :: "pubkey option"
  attributed_borrow_limit_open :: u64
  attributed_borrow_limit_close :: u64

record reserve_liquidity =
  liq_mint_pubkey :: pubkey
  mint_decimals :: u8
  liq_supply_pubkey :: pubkey
  pyth_oracle_pubkey :: pubkey
  switchboard_oracle_pubkey :: pubkey
  available_amount :: u64
  borrowed_amount_wads :: decimal
  cumulative_borrow_rate_wads :: decimal
  accumulated_protocol_fees_wads :: decimal
  market_price :: decimal
  smoothed_market_price :: decimal
  extra_market_price :: "decimal option"

record reserve_collateral =
  col_mint_pubkey :: pubkey
  mint_total_supply :: u64
  col_supply_pubkey :: pubkey

record solend_reserve =
  res_version :: u8
  res_last_update :: last_update
  res_lending_market :: pubkey
  liquidity :: reserve_liquidity
  collateral :: reserve_collateral
  res_config :: reserve_config
  res_rate_limiter :: rate_limiter
  res_attributed_borrow_value :: decimal

record init_reserve_params =
  irp_current_slot :: u64
  irp_lending_market :: pubkey
  irp_liquidity :: reserve_liquidity
  irp_collateral :: reserve_collateral
  irp_config :: reserve_config
  irp_rate_limiter_config :: rate_limiter_config

definition reserve_init :: "solend_reserve \<Rightarrow> init_reserve_params \<Rightarrow> solend_reserve" where
  "reserve_init r p = r\<lparr>
     res_version := PROGRAM_VERSION,
     res_last_update := last_update_new (irp_current_slot p),
     res_lending_market := irp_lending_market p,
     liquidity := irp_liquidity p,
     collateral := irp_collateral p,
     res_config := irp_config p,
     res_rate_limiter := rate_limiter_new (irp_rate_limiter_config p) (irp_current_slot p),
     res_attributed_borrow_value := Decimal_zero \<rparr>"

text \<open>The derived \<open>Default\<close> values, and \<open>Reserve::new\<close>, which fills one in.\<close>

definition reserve_fees_default :: reserve_fees where
  "reserve_fees_default = \<lparr> borrow_fee_wad = 0, flash_loan_fee_wad = 0, host_fee_percentage = 0 \<rparr>"

definition reserve_config_default :: reserve_config where
  "reserve_config_default = \<lparr>
     optimal_utilization_rate = 0, max_utilization_rate = 0, loan_to_value_ratio_pct = 0, liquidation_bonus = 0,
     max_liquidation_bonus = 0, liquidation_threshold = 0, max_liquidation_threshold = 0, min_borrow_rate = 0,
     optimal_borrow_rate = 0, max_borrow_rate = 0, super_max_borrow_rate = 0, fees = reserve_fees_default,
     deposit_limit = 0, borrow_limit = 0, fee_receiver = Pubkey_default, cfg_protocol_liquidation_fee = 0,
     protocol_take_rate = 0, added_borrow_weight_bps = 0, res_type = Regular, scaled_price_offset_bps = 0,
     extra_oracle_pubkey = None, attributed_borrow_limit_open = 0, attributed_borrow_limit_close = 0 \<rparr>"

definition reserve_liquidity_default :: reserve_liquidity where
  "reserve_liquidity_default = \<lparr>
     liq_mint_pubkey = Pubkey_default, mint_decimals = 0, liq_supply_pubkey = Pubkey_default,
     pyth_oracle_pubkey = Pubkey_default, switchboard_oracle_pubkey = Pubkey_default, available_amount = 0,
     borrowed_amount_wads = Decimal_zero, cumulative_borrow_rate_wads = Decimal_zero,
     accumulated_protocol_fees_wads = Decimal_zero, market_price = Decimal_zero,
     smoothed_market_price = Decimal_zero, extra_market_price = None \<rparr>"

definition reserve_collateral_default :: reserve_collateral where
  "reserve_collateral_default =
     \<lparr> col_mint_pubkey = Pubkey_default, mint_total_supply = 0, col_supply_pubkey = Pubkey_default \<rparr>"

definition reserve_default :: solend_reserve where
  "reserve_default = \<lparr>
     res_version = 0, res_last_update = \<lparr> lu_slot = 0, lu_stale = False \<rparr>, res_lending_market = Pubkey_default,
     liquidity = reserve_liquidity_default, collateral = reserve_collateral_default,
     res_config = reserve_config_default, res_rate_limiter = rate_limiter_default,
     res_attributed_borrow_value = Decimal_zero \<rparr>"

definition reserve_new :: "init_reserve_params \<Rightarrow> solend_reserve" where
  "reserve_new p = reserve_init reserve_default p"

definition reserve_is_initialized :: "solend_reserve \<Rightarrow> bool" where
  "reserve_is_initialized r \<longleftrightarrow> res_version r \<noteq> UNINITIALIZED_VERSION"

section \<open>Liquidity\<close>

record new_reserve_liquidity_params =
  nlp_mint_pubkey :: pubkey
  nlp_mint_decimals :: u8
  nlp_supply_pubkey :: pubkey
  nlp_pyth_oracle_pubkey :: pubkey
  nlp_switchboard_oracle_pubkey :: pubkey
  nlp_market_price :: decimal
  nlp_smoothed_market_price :: decimal

definition reserve_liquidity_new :: "new_reserve_liquidity_params \<Rightarrow> reserve_liquidity" where
  "reserve_liquidity_new p = \<lparr>
     liq_mint_pubkey = nlp_mint_pubkey p, mint_decimals = nlp_mint_decimals p,
     liq_supply_pubkey = nlp_supply_pubkey p, pyth_oracle_pubkey = nlp_pyth_oracle_pubkey p,
     switchboard_oracle_pubkey = nlp_switchboard_oracle_pubkey p, available_amount = 0,
     borrowed_amount_wads = Decimal_zero, cumulative_borrow_rate_wads = Decimal_one,
     accumulated_protocol_fees_wads = Decimal_zero, market_price = nlp_market_price p,
     smoothed_market_price = nlp_smoothed_market_price p, extra_market_price = None \<rparr>"

definition total_supply :: "reserve_liquidity \<Rightarrow> program_error + decimal" where
  "total_supply l =
     and_then (try_add (Decimal_from (available_amount l)) (borrowed_amount_wads l))
       (\<lambda>t. try_sub t (accumulated_protocol_fees_wads l))"

definition liq_deposit :: "reserve_liquidity \<Rightarrow> u64 \<Rightarrow> program_error + reserve_liquidity" where
  "liq_deposit l amount =
     and_then (ok_or overflow (checked_add (available_amount l) amount))
       (\<lambda>a. Inr (l\<lparr>available_amount := a\<rparr>))"

definition liq_withdraw :: "reserve_liquidity \<Rightarrow> u64 \<Rightarrow> program_error + reserve_liquidity" where
  "liq_withdraw l amount =
     (if amount > available_amount l then Inl (Custom InsufficientLiquidity)
      else and_then (ok_or overflow (checked_sub (available_amount l) amount))
        (\<lambda>a. Inr (l\<lparr>available_amount := a\<rparr>)))"

definition liq_borrow :: "reserve_liquidity \<Rightarrow> decimal \<Rightarrow> program_error + reserve_liquidity" where
  "liq_borrow l borrow_decimal =
     and_then (try_floor_u64 borrow_decimal)
       (\<lambda>borrow_amount.
          if borrow_amount > available_amount l then Inl (Custom InsufficientLiquidity)
          else and_then (ok_or overflow (checked_sub (available_amount l) borrow_amount))
            (\<lambda>a. and_then (try_add (borrowed_amount_wads l) borrow_decimal)
              (\<lambda>b. Inr (l\<lparr>available_amount := a, borrowed_amount_wads := b\<rparr>))))"

definition liq_repay :: "reserve_liquidity \<Rightarrow> u64 \<Rightarrow> decimal \<Rightarrow> program_error + reserve_liquidity" where
  "liq_repay l repaid settle_amount =
     and_then (ok_or overflow (checked_add (available_amount l) repaid))
       (\<lambda>a. let safe_settle_amount = min settle_amount (borrowed_amount_wads l)
            in and_then (try_sub (borrowed_amount_wads l) safe_settle_amount)
              (\<lambda>b. Inr (l\<lparr>available_amount := a, borrowed_amount_wads := b\<rparr>)))"

definition forgive_debt :: "reserve_liquidity \<Rightarrow> decimal \<Rightarrow> program_error + reserve_liquidity" where
  "forgive_debt l amount =
     and_then (try_sub (borrowed_amount_wads l) amount)
       (\<lambda>b. Inr (l\<lparr>borrowed_amount_wads := b\<rparr>))"

definition donate :: "reserve_liquidity \<Rightarrow> u64 \<Rightarrow> program_error + reserve_liquidity" where
  "donate l amount =
     and_then (ok_or overflow (checked_add (available_amount l) amount))
       (\<lambda>a. Inr (l\<lparr>available_amount := a\<rparr>))"

definition redeem_fees :: "reserve_liquidity \<Rightarrow> u64 \<Rightarrow> program_error + reserve_liquidity" where
  "redeem_fees l withdraw_amount =
     and_then (ok_or overflow (checked_sub (available_amount l) withdraw_amount))
       (\<lambda>a. and_then (try_sub (accumulated_protocol_fees_wads l) (Decimal_from withdraw_amount))
         (\<lambda>f. Inr (l\<lparr>available_amount := a, accumulated_protocol_fees_wads := f\<rparr>)))"

definition utilization_rate :: "reserve_liquidity \<Rightarrow> program_error + rate" where
  "utilization_rate l =
     and_then (total_supply l)
       (\<lambda>t. if t = Decimal_zero \<or> borrowed_amount_wads l = Decimal_zero then Inr Rate_zero
            else and_then (try_add (borrowed_amount_wads l) (Decimal_from (available_amount l)))
              (\<lambda>denominator. and_then (try_div (borrowed_amount_wads l) denominator) Rate_try_from))"

definition compound_interest ::
  "reserve_liquidity \<Rightarrow> rate \<Rightarrow> u64 \<Rightarrow> rate \<Rightarrow> program_error + reserve_liquidity" where
  "compound_interest l current_borrow_rate n take_rate =
     and_then (Rate_try_div_u64 current_borrow_rate SLOTS_PER_YEAR) (\<lambda>slot_interest_rate.
     and_then (Rate_try_add Rate_one slot_interest_rate) (\<lambda>b.
     and_then (try_pow b n) (\<lambda>compounded_interest_rate.
     and_then (try_mul_rate (cumulative_borrow_rate_wads l) compounded_interest_rate) (\<lambda>cum.
     and_then (try_mul_rate (borrowed_amount_wads l) compounded_interest_rate) (\<lambda>grown.
     and_then (try_sub grown (borrowed_amount_wads l)) (\<lambda>net_new_debt.
     and_then (try_mul_rate net_new_debt take_rate) (\<lambda>cut.
     and_then (try_add cut (accumulated_protocol_fees_wads l)) (\<lambda>acc_fees.
     and_then (try_add (borrowed_amount_wads l) net_new_debt) (\<lambda>borrowed.
       Inr (l\<lparr>cumulative_borrow_rate_wads := cum, accumulated_protocol_fees_wads := acc_fees,
              borrowed_amount_wads := borrowed\<rparr>))))))))))"

section \<open>Collateral\<close>

definition reserve_collateral_new :: "pubkey \<Rightarrow> pubkey \<Rightarrow> reserve_collateral" where
  "reserve_collateral_new mint supply =
     \<lparr> col_mint_pubkey = mint, mint_total_supply = 0, col_supply_pubkey = supply \<rparr>"

definition col_mint :: "reserve_collateral \<Rightarrow> u64 \<Rightarrow> program_error + reserve_collateral" where
  "col_mint c amount =
     and_then (ok_or overflow (checked_add (mint_total_supply c) amount))
       (\<lambda>s. Inr (c\<lparr>mint_total_supply := s\<rparr>))"

definition col_burn :: "reserve_collateral \<Rightarrow> u64 \<Rightarrow> program_error + reserve_collateral" where
  "col_burn c amount =
     and_then (ok_or overflow (checked_sub (mint_total_supply c) amount))
       (\<lambda>s. Inr (c\<lparr>mint_total_supply := s\<rparr>))"

text \<open>\<open>CollateralExchangeRate\<close> wraps a \<open>Rate\<close>; the model uses the rate itself.\<close>

definition exchange_rate :: "reserve_collateral \<Rightarrow> decimal \<Rightarrow> program_error + rate" where
  "exchange_rate c total_liquidity =
     (if mint_total_supply c = 0 \<or> total_liquidity = Decimal_zero
      then Inr (Rate_from_scaled_val INITIAL_COLLATERAL_RATE)
      else and_then (try_div (Decimal_from (mint_total_supply c)) total_liquidity) Rate_try_from)"

definition decimal_collateral_to_liquidity :: "rate \<Rightarrow> decimal \<Rightarrow> program_error + decimal" where
  "decimal_collateral_to_liquidity er amount = try_div_rate amount er"

definition collateral_to_liquidity :: "rate \<Rightarrow> u64 \<Rightarrow> program_error + u64" where
  "collateral_to_liquidity er amount =
     and_then (decimal_collateral_to_liquidity er (Decimal_from amount)) try_floor_u64"

definition decimal_liquidity_to_collateral :: "rate \<Rightarrow> decimal \<Rightarrow> program_error + decimal" where
  "decimal_liquidity_to_collateral er amount = try_mul_rate amount er"

definition liquidity_to_collateral :: "rate \<Rightarrow> u64 \<Rightarrow> program_error + u64" where
  "liquidity_to_collateral er amount =
     and_then (decimal_liquidity_to_collateral er (Decimal_from amount)) try_floor_u64"

section \<open>Fees\<close>

datatype fee_calculation = Exclusive | Inclusive

definition calculate_fees ::
  "reserve_fees \<Rightarrow> decimal \<Rightarrow> u64 \<Rightarrow> fee_calculation \<Rightarrow> program_error + (u64 \<times> u64)" where
  "calculate_fees fs amount fee_wad fc =
     (let borrow_fee_rate = Rate_from_scaled_val fee_wad;
          host_fee_rate = Rate_from_percent (host_fee_percentage fs)
      in if borrow_fee_rate > Rate_zero \<and> amount > Decimal_zero
         then
           let need_to_assess_host_fee = host_fee_rate > Rate_zero;
               minimum_fee = (if need_to_assess_host_fee then 2 else 1 :: u64)
           in and_then
                (case fc of
                   Exclusive \<Rightarrow> try_mul_rate amount borrow_fee_rate
                 | Inclusive \<Rightarrow>
                     and_then (Rate_try_add borrow_fee_rate Rate_one) (\<lambda>d.
                     and_then (Rate_try_div borrow_fee_rate d) (\<lambda>r. try_mul_rate amount r)))
                (\<lambda>borrow_fee_amount.
                   let borrow_fee_decimal = max borrow_fee_amount (Decimal_from minimum_fee)
                   in if borrow_fee_decimal \<ge> amount then Inl (Custom BorrowTooSmall)
                      else and_then (try_round_u64 borrow_fee_decimal) (\<lambda>borrow_fee.
                        and_then
                          (if need_to_assess_host_fee
                           then and_then (try_mul_rate borrow_fee_decimal host_fee_rate) (\<lambda>h.
                                and_then (try_round_u64 h) (\<lambda>n. Inr (max n 1)))
                           else Inr 0)
                          (\<lambda>host_fee. Inr (borrow_fee, host_fee))))
         else Inr (0, 0))"

definition calculate_borrow_fees ::
  "reserve_fees \<Rightarrow> decimal \<Rightarrow> fee_calculation \<Rightarrow> program_error + (u64 \<times> u64)" where
  "calculate_borrow_fees fs amount fc = calculate_fees fs amount (borrow_fee_wad fs) fc"

definition calculate_flash_loan_fees :: "reserve_fees \<Rightarrow> decimal \<Rightarrow> program_error + (u64 \<times> u64)" where
  "calculate_flash_loan_fees fs amount =
     and_then (calculate_fees fs amount (flash_loan_fee_wad fs) Exclusive)
       (\<lambda>(total_fees, host_fee).
          and_then (ok_or overflow (checked_sub total_fees host_fee))
            (\<lambda>origination_fee. Inr (origination_fee, host_fee)))"

section \<open>Reserve operations\<close>

definition borrow_weight :: "solend_reserve \<Rightarrow> decimal" where
  "borrow_weight r = projr (try_add Decimal_one (from_bps (added_borrow_weight_bps (res_config r))))"

definition price_scale :: "solend_reserve \<Rightarrow> decimal" where
  "price_scale r =
     (let offset = min MAX_SCALED_PRICE_OFFSET_BPS
            (max MIN_SCALED_PRICE_OFFSET_BPS (sint (scaled_price_offset_bps (res_config r))))
      in from_bps (word_of_int (10000 + offset)))"

definition loan_to_value_ratio :: "solend_reserve \<Rightarrow> rate" where
  "loan_to_value_ratio r = Rate_from_percent (loan_to_value_ratio_pct (res_config r))"

definition price_upper_bound :: "solend_reserve \<Rightarrow> decimal" where
  "price_upper_bound r =
     (let price = max (market_price (liquidity r)) (smoothed_market_price (liquidity r))
      in case extra_market_price (liquidity r) of Some p \<Rightarrow> max price p | None \<Rightarrow> price)"

definition price_lower_bound :: "solend_reserve \<Rightarrow> decimal" where
  "price_lower_bound r =
     (let price = min (market_price (liquidity r)) (smoothed_market_price (liquidity r))
      in case extra_market_price (liquidity r) of Some p \<Rightarrow> min price p | None \<Rightarrow> price)"

definition usd_to_liquidity_amount_lower_bound :: "solend_reserve \<Rightarrow> decimal \<Rightarrow> program_error + decimal" where
  "usd_to_liquidity_amount_lower_bound r quote_amount =
     and_then (ok_or overflow (checked_pow (10 :: u128) (unat (mint_decimals (liquidity r))))) (\<lambda>p.
     and_then (try_mul quote_amount (Decimal_from_u128 p)) (\<lambda>q. try_div q (price_upper_bound r)))"

text \<open>The three market values multiply by a price before the power of ten is checked.\<close>

definition value_at :: "solend_reserve \<Rightarrow> decimal \<Rightarrow> decimal \<Rightarrow> program_error + decimal" where
  "value_at r price amount =
     and_then (try_mul price amount) (\<lambda>v.
     and_then (ok_or overflow (checked_pow (10 :: u128) (unat (mint_decimals (liquidity r))))) (\<lambda>p.
       try_div v (Decimal_from_u128 p)))"

definition market_value :: "solend_reserve \<Rightarrow> decimal \<Rightarrow> program_error + decimal" where
  "market_value r amount = value_at r (market_price (liquidity r)) amount"

definition market_value_upper_bound :: "solend_reserve \<Rightarrow> decimal \<Rightarrow> program_error + decimal" where
  "market_value_upper_bound r amount = value_at r (price_upper_bound r) amount"

definition market_value_lower_bound :: "solend_reserve \<Rightarrow> decimal \<Rightarrow> program_error + decimal" where
  "market_value_lower_bound r amount = value_at r (price_lower_bound r) amount"

definition collateral_exchange_rate :: "solend_reserve \<Rightarrow> program_error + rate" where
  "collateral_exchange_rate r =
     and_then (total_supply (liquidity r)) (\<lambda>t. exchange_rate (collateral r) t)"

definition deposit_liquidity :: "solend_reserve \<Rightarrow> u64 \<Rightarrow> program_error + (u64 \<times> solend_reserve)" where
  "deposit_liquidity r amount =
     and_then (collateral_exchange_rate r) (\<lambda>er.
     and_then (liquidity_to_collateral er amount) (\<lambda>collateral_amount.
     and_then (liq_deposit (liquidity r) amount) (\<lambda>l.
     and_then (col_mint (collateral r) collateral_amount) (\<lambda>c.
       Inr (collateral_amount, r\<lparr>liquidity := l, collateral := c\<rparr>)))))"

definition redeem_collateral :: "solend_reserve \<Rightarrow> u64 \<Rightarrow> program_error + (u64 \<times> solend_reserve)" where
  "redeem_collateral r collateral_amount =
     and_then (collateral_exchange_rate r) (\<lambda>er.
     and_then (collateral_to_liquidity er collateral_amount) (\<lambda>liquidity_amount.
     and_then (col_burn (collateral r) collateral_amount) (\<lambda>c.
     and_then (liq_withdraw (liquidity r) liquidity_amount) (\<lambda>l.
       Inr (liquidity_amount, r\<lparr>liquidity := l, collateral := c\<rparr>)))))"

definition current_borrow_rate :: "solend_reserve \<Rightarrow> program_error + rate" where
  "current_borrow_rate r =
     (let cfg = res_config r;
          optimal = Rate_from_percent (optimal_utilization_rate cfg);
          maxu = Rate_from_percent (max_utilization_rate cfg)
      in and_then (utilization_rate (liquidity r)) (\<lambda>u.
         if u \<le> optimal then
           let min_rate = Rate_from_percent (min_borrow_rate cfg)
           in if optimal = Rate_zero then Inr min_rate
              else
                and_then (Rate_try_div u optimal) (\<lambda>normalized_rate.
                and_then (ok_or overflow (checked_sub (optimal_borrow_rate cfg) (min_borrow_rate cfg)))
                  (\<lambda>range_pct.
                and_then (Rate_try_mul normalized_rate (Rate_from_percent range_pct)) (\<lambda>x.
                  Rate_try_add x min_rate)))
         else if u \<le> maxu then
           and_then (Rate_try_sub u optimal) (\<lambda>a.
           and_then (Rate_try_sub maxu optimal) (\<lambda>b.
           and_then (Rate_try_div a b) (\<lambda>weight.
           and_then (Rate_try_sub (Rate_from_percent (max_borrow_rate cfg))
               (Rate_from_percent (optimal_borrow_rate cfg))) (\<lambda>rate_range.
           and_then (Rate_try_mul weight rate_range) (\<lambda>x.
             Rate_try_add x (Rate_from_percent (optimal_borrow_rate cfg)))))))
         else
           and_then (Rate_try_sub u maxu) (\<lambda>a.
           and_then (ok_or overflow (checked_sub 100 (max_utilization_rate cfg))) (\<lambda>rest.
           and_then (Rate_try_div a (Rate_from_percent rest)) (\<lambda>w.
           and_then (Rate_try_sub (Rate_from_percent_u64 (super_max_borrow_rate cfg))
               (Rate_from_percent (max_borrow_rate cfg))) (\<lambda>rate_range.
           and_then (try_mul (Decimal_from_Rate w) (Decimal_from_Rate rate_range)) (\<lambda>x.
           and_then (try_add x (Decimal_from_Rate (Rate_from_percent (max_borrow_rate cfg)))) (\<lambda>y.
             Rate_try_from y))))))))"

definition accrue_interest :: "solend_reserve \<Rightarrow> u64 \<Rightarrow> program_error + solend_reserve" where
  "accrue_interest r current_slot =
     and_then (slots_elapsed (res_last_update r) current_slot) (\<lambda>n.
       if n > 0 then
         and_then (current_borrow_rate r) (\<lambda>rate.
         and_then (compound_interest (liquidity r) rate n
             (Rate_from_percent (protocol_take_rate (res_config r)))) (\<lambda>l.
           Inr (r\<lparr>liquidity := l\<rparr>)))
       else Inr r)"

record calculate_borrow_result =
  cb_borrow_amount :: decimal
  cb_receive_amount :: u64
  cb_borrow_fee :: u64
  cb_host_fee :: u64

definition calculate_borrow ::
  "solend_reserve \<Rightarrow> u64 \<Rightarrow> decimal \<Rightarrow> decimal \<Rightarrow> program_error + calculate_borrow_result" where
  "calculate_borrow r amount_to_borrow max_borrow_value remaining_reserve_borrow =
     and_then (ok_or overflow (checked_pow (10 :: u64) (unat (mint_decimals (liquidity r))))) (\<lambda>decimals.
     if amount_to_borrow = u64_MAX then
       and_then (try_mul_u64 max_borrow_value decimals) (\<lambda>a.
       and_then (try_div a (price_upper_bound r)) (\<lambda>b.
       and_then (try_div b (borrow_weight r)) (\<lambda>c.
         let borrow_amount = min (min c remaining_reserve_borrow)
               (Decimal_from (available_amount (liquidity r)))
         in and_then (calculate_borrow_fees (fees (res_config r)) borrow_amount Inclusive)
              (\<lambda>(borrow_fee, host_fee).
            and_then (try_floor_u64 borrow_amount) (\<lambda>f.
            and_then (ok_or overflow (checked_sub f borrow_fee)) (\<lambda>receive_amount.
              Inr \<lparr> cb_borrow_amount = borrow_amount, cb_receive_amount = receive_amount,
                    cb_borrow_fee = borrow_fee, cb_host_fee = host_fee \<rparr>))))))
     else
       and_then (calculate_borrow_fees (fees (res_config r)) (Decimal_from amount_to_borrow) Exclusive)
         (\<lambda>(borrow_fee, host_fee).
       and_then (try_add (Decimal_from amount_to_borrow) (Decimal_from borrow_fee)) (\<lambda>borrow_amount.
       and_then (market_value_upper_bound r borrow_amount) (\<lambda>v.
       and_then (try_mul v (borrow_weight r)) (\<lambda>borrow_value.
         if borrow_value > max_borrow_value then Inl (Custom BorrowTooLarge)
         else Inr \<lparr> cb_borrow_amount = borrow_amount, cb_receive_amount = amount_to_borrow,
                    cb_borrow_fee = borrow_fee, cb_host_fee = host_fee \<rparr>)))))"

record calculate_repay_result =
  cr_settle_amount :: decimal
  cr_repay_amount :: u64

definition calculate_repay :: "u64 \<Rightarrow> decimal \<Rightarrow> program_error + calculate_repay_result" where
  "calculate_repay amount_to_repay borrowed_amount =
     (let settle_amount = (if amount_to_repay = u64_MAX then borrowed_amount
            else min (Decimal_from amount_to_repay) borrowed_amount)
      in and_then (try_ceil_u64 settle_amount) (\<lambda>repaid.
           Inr \<lparr> cr_settle_amount = settle_amount, cr_repay_amount = repaid \<rparr>))"

definition calculate_redeem_fees :: "solend_reserve \<Rightarrow> program_error + u64" where
  "calculate_redeem_fees r =
     and_then (try_floor_u64 (accumulated_protocol_fees_wads (liquidity r)))
       (\<lambda>f. Inr (min (available_amount (liquidity r)) f))"

section \<open>Configuration check\<close>

definition validate_reserve_config :: "reserve_config \<Rightarrow> program_error + unit" where
  "validate_reserve_config c =
     (if optimal_utilization_rate c > 100 then Inl (Custom InvalidConfig)
      else if max_utilization_rate c < optimal_utilization_rate c \<or> max_utilization_rate c > 100
      then Inl (Custom InvalidConfig)
      else if loan_to_value_ratio_pct c \<ge> 100 then Inl (Custom InvalidConfig)
      else if liquidation_bonus c > 100 then Inl (Custom InvalidConfig)
      else if max_liquidation_bonus c < liquidation_bonus c \<or> max_liquidation_bonus c > 100
      then Inl (Custom InvalidConfig)
      else if liquidation_threshold c < loan_to_value_ratio_pct c \<or> liquidation_threshold c > 100
      then Inl (Custom InvalidConfig)
      else if max_liquidation_threshold c < liquidation_threshold c \<or> max_liquidation_threshold c > 100
      then Inl (Custom InvalidConfig)
      else if optimal_borrow_rate c < min_borrow_rate c then Inl (Custom InvalidConfig)
      else if optimal_borrow_rate c > max_borrow_rate c then Inl (Custom InvalidConfig)
      else if super_max_borrow_rate c < ucast (max_borrow_rate c) then Inl (Custom InvalidConfig)
      else if borrow_fee_wad (fees c) \<ge> WAD then Inl (Custom InvalidConfig)
      else if host_fee_percentage (fees c) > 100 then Inl (Custom InvalidConfig)
      else if cfg_protocol_liquidation_fee c > MAX_PROTOCOL_LIQUIDATION_FEE_DECA_BPS
      then Inl (Custom InvalidConfig)
      else if ucast (max_liquidation_bonus c) * 100 + ucast (cfg_protocol_liquidation_fee c) * 10
          > (ucast MAX_BONUS_PCT * 100 :: u64)
      then Inl (Custom InvalidConfig)
      else if protocol_take_rate c > 100 then Inl (Custom InvalidConfig)
      else if res_type c = Isolated \<and> \<not> (loan_to_value_ratio_pct c = 0 \<and> liquidation_threshold c = 0)
      then Inl (Custom InvalidConfig)
      else if sint (scaled_price_offset_bps c) < MIN_SCALED_PRICE_OFFSET_BPS \<or>
          sint (scaled_price_offset_bps c) > MAX_SCALED_PRICE_OFFSET_BPS
      then Inl (Custom InvalidConfig)
      else if attributed_borrow_limit_open c > attributed_borrow_limit_close c
      then Inl (Custom InvalidConfig)
      else Inr ())"

definition reserve_type_from_str :: "string \<Rightarrow> program_error + reserve_type" where
  "reserve_type_from_str s =
     (if s = ''Regular'' then Inr Regular
      else if s = ''Isolated'' then Inr Isolated
      else Inl (Custom InvalidConfig))"

end
