(* ===== verification/SolendReserveProps.thy ===== *)
theory SolendReserveProps
  imports SolendReserve
begin

text \<open>
  The correctness of the reserve operations of \<open>SolendReserve\<close>: the reserve's net assets under
  each liquidity operation, the borrow rate curve on a validated configuration, the fee
  split, the collateral exchange, and interest accrual.
\<close>

declare of_nat_unat [simp del]

section \<open>Net assets\<close>

text \<open>What the depositors of a reserve own, scaled by \<open>wad\<close>: the value of \<open>total_supply\<close>.\<close>

definition assets :: "reserve_liquidity \<Rightarrow> int" where
  "assets l = int (wad * unat (available_amount l)) + int (dv (borrowed_amount_wads l))
     - int (dv (accumulated_protocol_fees_wads l))"

lemma total_supply_assets: "total_supply l = Inr t \<Longrightarrow> int (dv t) = assets l"
proof -
  assume "total_supply l = Inr t"
  then have "wad * unat (available_amount l) + dv (borrowed_amount_wads l) =
      dv t + dv (accumulated_protocol_fees_wads l)"
    by (auto simp: total_supply_def and_then_Inr_iff wad_simps)
  then show ?thesis unfolding assets_def by linarith
qed

lemma liq_deposit_iff:
  "liq_deposit l n = Inr l' \<longleftrightarrow>
     (\<exists>a. unat a = unat (available_amount l) + unat n \<and> l' = l\<lparr>available_amount := a\<rparr>)"
  by (auto simp: liq_deposit_def result_iffs)

lemma liq_withdraw_iff:
  "liq_withdraw l n = Inr l' \<longleftrightarrow>
     (\<exists>a. unat (available_amount l) = unat a + unat n \<and> l' = l\<lparr>available_amount := a\<rparr>)"
  by (auto simp: liq_withdraw_def result_iffs word_less_nat_alt)

lemma liq_borrow_Inr:
  assumes "liq_borrow l b = Inr l'"
  shows "unat (available_amount l) = unat (available_amount l') + dv b div wad"
    and "dv (borrowed_amount_wads l') = dv (borrowed_amount_wads l) + dv b"
    and "accumulated_protocol_fees_wads l' = accumulated_protocol_fees_wads l"
  using assms by (auto simp: liq_borrow_def result_iffs wad_simps split: if_splits)

lemma liq_repay_iff:
  "liq_repay l n s = Inr l' \<longleftrightarrow>
     (\<exists>a d. unat a = unat (available_amount l) + unat n \<and>
        dv (borrowed_amount_wads l) = dv d + min (dv s) (dv (borrowed_amount_wads l)) \<and>
        l' = l\<lparr>available_amount := a, borrowed_amount_wads := d\<rparr>)"
  by (auto simp: liq_repay_def result_iffs wad_simps Let_def)

lemma redeem_fees_iff:
  "redeem_fees l n = Inr l' \<longleftrightarrow>
     (\<exists>a f. unat (available_amount l) = unat a + unat n \<and>
        dv (accumulated_protocol_fees_wads l) = dv f + wad * unat n \<and>
        l' = l\<lparr>available_amount := a, accumulated_protocol_fees_wads := f\<rparr>)"
  by (auto simp: redeem_fees_def result_iffs wad_simps)

lemma calculate_repay_iff:
  "calculate_repay n b = Inr c \<Longrightarrow>
     dv (cr_settle_amount c) \<le> dv b \<and> dv (cr_settle_amount c) \<le> wad * unat (cr_repay_amount c) \<and>
     wad * unat (cr_repay_amount c) < dv (cr_settle_amount c) + wad"
  by (auto simp: calculate_repay_def Let_def and_then_Inr_iff wad_simps wad_def split: if_splits)

section \<open>Interest\<close>

lemma compound_interest_Inr:
  assumes "compound_interest l cbr n tk = Inr l'"
  shows "\<exists>c net cut. wad \<le> rv c \<and>
     dv (cumulative_borrow_rate_wads l') = dv (cumulative_borrow_rate_wads l) * rv c div wad \<and>
     dv (borrowed_amount_wads l') = dv (borrowed_amount_wads l) * rv c div wad \<and>
     dv (borrowed_amount_wads l') = dv (borrowed_amount_wads l) + net \<and>
     cut = net * rv tk div wad \<and>
     dv (accumulated_protocol_fees_wads l') = dv (accumulated_protocol_fees_wads l) + cut \<and>
     available_amount l' = available_amount l"
proof -
  from assms obtain sr b c cum grown net cut af bw where
    eqs: "Rate_try_div_u64 cbr SLOTS_PER_YEAR = Inr sr" "Rate_try_add Rate_one sr = Inr b"
      "try_mul_rate (cumulative_borrow_rate_wads l) c = Inr cum"
      "try_mul_rate (borrowed_amount_wads l) c = Inr grown"
      "try_sub grown (borrowed_amount_wads l) = Inr net" "try_mul_rate net tk = Inr cut"
      "try_add cut (accumulated_protocol_fees_wads l) = Inr af"
      "try_add (borrowed_amount_wads l) net = Inr bw"
    and c: "try_pow b n = Inr c"
    and l': "l' = l\<lparr>cumulative_borrow_rate_wads := cum, accumulated_protocol_fees_wads := af,
              borrowed_amount_wads := bw\<rparr>"
    unfolding compound_interest_def and_then_Inr_iff by blast
  note vals = eqs [unfolded wad_simps try_mul_rate_def dv_Decimal_from_Rate]
  have "wad \<le> rv c" using try_pow_ge [OF c] vals(2) by simp
  then show ?thesis
    using vals(3-8) by (intro exI [of _ c] exI [of _ "dv net"] exI [of _ "dv cut"]) (simp add: l')
qed

lemma fraction_le: "n * rv r div wad \<le> n" if "rv r \<le> wad"
proof -
  have "n * rv r div wad \<le> n * wad div wad" using that by (intro div_le_mono mult_le_mono2)
  then show ?thesis by simp
qed

lemma factor_ge: "n \<le> n * rv r div wad" if "wad \<le> rv r"
proof -
  have "n * wad div wad \<le> n * rv r div wad" using that by (intro div_le_mono mult_le_mono2)
  then show ?thesis by simp
qed

section \<open>Properties\<close>

text \<open>
  C32: the depositors' assets of a reserve: a deposit and a withdrawal move them by exactly
  the amount; lending never lowers them (the fraction of a token that is not paid out stays);
  repaying as \<open>calculate_repay\<close> computes it never lowers them and settles no more debt than
  the tokens received; redeeming protocol fees leaves them unchanged.
\<close>
theorem reserve_assets_conserved:
  "(liq_deposit l n = Inr l1 \<longrightarrow> assets l1 = assets l + int (wad * unat n)) \<and>
   (liq_withdraw l n = Inr l2 \<longrightarrow> assets l2 = assets l - int (wad * unat n)) \<and>
   (liq_borrow l b = Inr l3 \<longrightarrow> assets l \<le> assets l3 \<and> assets l3 < assets l + int wad) \<and>
   (calculate_repay n owed = Inr c \<and> liq_repay l (cr_repay_amount c) (cr_settle_amount c) = Inr l4 \<longrightarrow>
      assets l \<le> assets l4) \<and>
   (redeem_fees l n = Inr l5 \<longrightarrow> assets l5 = assets l)"
proof -
  have "assets l1 = assets l + int (wad * unat n)" if "liq_deposit l n = Inr l1"
    using that by (auto simp: liq_deposit_iff assets_def algebra_simps)
  moreover have "assets l2 = assets l - int (wad * unat n)" if "liq_withdraw l n = Inr l2"
    using that by (auto simp: liq_withdraw_iff assets_def algebra_simps)
  moreover have "assets l \<le> assets l3 \<and> assets l3 < assets l + int wad" if b: "liq_borrow l b = Inr l3"
  proof -
    have "wad * unat (available_amount l) = wad * unat (available_amount l3) + wad * (dv b div wad)"
      using liq_borrow_Inr(1) [OF b] by (simp add: algebra_simps)
    moreover have "wad * (dv b div wad) \<le> dv b" and "dv b < wad * (dv b div wad) + wad"
      using dividend_less_times_div [of wad "dv b"] by simp_all
    ultimately show ?thesis
      using liq_borrow_Inr(2) [OF b] unfolding assets_def liq_borrow_Inr(3) [OF b]
      by (intro conjI) linarith+
  qed
  moreover have "assets l \<le> assets l4"
    if c: "calculate_repay n owed = Inr c"
      and r: "liq_repay l (cr_repay_amount c) (cr_settle_amount c) = Inr l4"
  proof -
    obtain a d where ad: "unat a = unat (available_amount l) + unat (cr_repay_amount c)"
      "dv (borrowed_amount_wads l) = dv d + min (dv (cr_settle_amount c)) (dv (borrowed_amount_wads l))"
      "l4 = l\<lparr>available_amount := a, borrowed_amount_wads := d\<rparr>"
      using r unfolding liq_repay_iff by blast
    have "wad * unat a = wad * unat (available_amount l) + wad * unat (cr_repay_amount c)"
      by (simp add: ad(1) algebra_simps)
    moreover have "dv (borrowed_amount_wads l) \<le> dv d + dv (cr_settle_amount c)"
      using ad(2) by linarith
    moreover have "available_amount l4 = a" "borrowed_amount_wads l4 = d"
      "accumulated_protocol_fees_wads l4 = accumulated_protocol_fees_wads l"
      by (simp_all add: ad(3))
    ultimately show ?thesis
      using calculate_repay_iff [OF c] unfolding assets_def by (simp only:) linarith
  qed
  moreover have "assets l5 = assets l" if "redeem_fees l n = Inr l5"
    using that by (auto simp: redeem_fees_iff assets_def algebra_simps)
  ultimately show ?thesis by blast
qed

definition demo_liquidity :: reserve_liquidity where
  "demo_liquidity = (reserve_liquidity_new
     \<lparr> nlp_mint_pubkey = replicate 32 1, nlp_mint_decimals = 6, nlp_supply_pubkey = replicate 32 2,
       nlp_pyth_oracle_pubkey = replicate 32 3, nlp_switchboard_oracle_pubkey = replicate 32 4,
       nlp_market_price = Decimal_from 10, nlp_smoothed_market_price = Decimal_from 11 \<rparr>)
     \<lparr>available_amount := 1000, borrowed_amount_wads := Decimal_from 500\<rparr>"

theorem reserve_assets_conserved_witness:
  "liq_deposit demo_liquidity 7 = Inr (demo_liquidity\<lparr>available_amount := 1007\<rparr>) \<and>
   assets (demo_liquidity\<lparr>available_amount := 1007\<rparr>) = assets demo_liquidity + int (wad * 7)"
proof -
  have "liq_deposit demo_liquidity 7 = Inr (demo_liquidity\<lparr>available_amount := 1007\<rparr>)"
    by (simp add: liq_deposit_def demo_liquidity_def checked_add_def reserve_liquidity_new_def)
  with reserve_assets_conserved [of demo_liquidity 7 "demo_liquidity\<lparr>available_amount := 1007\<rparr>"]
  show ?thesis by simp
qed

text \<open>
  C33: accruing interest never lowers the cumulative borrow rate, the debt or the protocol
  fees, leaves the available tokens alone, and with a protocol take rate of at most 100%
  never lowers the depositors' assets.
\<close>
theorem accrue_interest_monotone:
  assumes "accrue_interest r slot = Inr r'"
    and "protocol_take_rate (res_config r) \<le> 100"
  shows "cumulative_borrow_rate_wads (liquidity r) \<le> cumulative_borrow_rate_wads (liquidity r') \<and>
    borrowed_amount_wads (liquidity r) \<le> borrowed_amount_wads (liquidity r') \<and>
    accumulated_protocol_fees_wads (liquidity r) \<le> accumulated_protocol_fees_wads (liquidity r') \<and>
    available_amount (liquidity r') = available_amount (liquidity r) \<and>
    assets (liquidity r) \<le> assets (liquidity r')"
proof -
  let ?l = "liquidity r"
  consider "r' = r" | cbr n l' where "r' = r\<lparr>liquidity := l'\<rparr>"
      "compound_interest ?l cbr n (Rate_from_percent (protocol_take_rate (res_config r))) = Inr l'"
    using assms(1) by (auto simp: accrue_interest_def and_then_Inr_iff split: if_splits)
  then show ?thesis
  proof cases
    case 1
    then show ?thesis by simp
  next
    case 2
    let ?take = "Rate_from_percent (protocol_take_rate (res_config r))"
    have take_le: "rv ?take \<le> wad"
      using assms(2) by (simp add: word_le_nat_alt wad_def)
    obtain c net cut where c: "wad \<le> rv c"
      "dv (cumulative_borrow_rate_wads l') = dv (cumulative_borrow_rate_wads ?l) * rv c div wad"
      "dv (borrowed_amount_wads l') = dv (borrowed_amount_wads ?l) + net"
      "cut = net * rv ?take div wad"
      "dv (accumulated_protocol_fees_wads l') = dv (accumulated_protocol_fees_wads ?l) + cut"
      "available_amount l' = available_amount ?l"
      using compound_interest_Inr [OF 2(2)] by blast
    have "cut \<le> net" unfolding c(4) using take_le by (rule fraction_le)
    then have "assets ?l \<le> assets l'" unfolding assets_def c(3,5,6) by simp
    then show ?thesis using c factor_ge [OF c(1)] by (simp add: 2(1) dec_le_iff)
  qed
qed

definition demo_config :: reserve_config where
  "demo_config = \<lparr>
     optimal_utilization_rate = 80, max_utilization_rate = 90, loan_to_value_ratio_pct = 50,
     liquidation_bonus = 5, max_liquidation_bonus = 10, liquidation_threshold = 55,
     max_liquidation_threshold = 65, min_borrow_rate = 0, optimal_borrow_rate = 4,
     max_borrow_rate = 30, super_max_borrow_rate = 60,
     fees = \<lparr> borrow_fee_wad = 100000000000000, flash_loan_fee_wad = 3000000000000000,
              host_fee_percentage = 20 \<rparr>,
     deposit_limit = 1000000, borrow_limit = 1000000, fee_receiver = replicate 32 9,
     cfg_protocol_liquidation_fee = 30, protocol_take_rate = 10, added_borrow_weight_bps = 0,
     res_type = Regular, scaled_price_offset_bps = 0, extra_oracle_pubkey = None,
     attributed_borrow_limit_open = 100, attributed_borrow_limit_close = 200 \<rparr>"

definition demo_reserve :: solend_reserve where
  "demo_reserve = \<lparr>
     res_version = 1, res_last_update = \<lparr> lu_slot = 10, lu_stale = False \<rparr>,
     res_lending_market = replicate 32 5, liquidity = demo_liquidity,
     collateral = \<lparr> col_mint_pubkey = replicate 32 6, mint_total_supply = 1500,
                    col_supply_pubkey = replicate 32 7 \<rparr>,
     res_config = demo_config, res_rate_limiter = rate_limiter_default,
     res_attributed_borrow_value = Decimal_zero \<rparr>"

lemmas demo_defs = demo_reserve_def demo_config_def demo_liquidity_def reserve_liquidity_new_def

lemmas wad_eval = Decimal_from_def Decimal_zero_def Decimal_one_def Decimal_wad_def WAD_def
  Rate_one_def Rate_zero_def Rate_wad_def Rate_from_percent_def PERCENT_SCALER_def
  try_add_def try_sub_def try_mul_def try_div_def try_mul_rate_def try_div_rate_def
  try_div_u64_def try_mul_u64_def Rate_try_add_def Rate_try_sub_def
  Rate_try_mul_def Rate_try_div_def Rate_try_div_u64_def Rate_try_from_def to_scaled_val_def
  try_narrow_def Decimal_from_Rate_def Rate_to_scaled_val_def Rate_from_scaled_val_def
  checked_add_def checked_sub_def checked_mul_def checked_div_def

lemma demo_utilization: "utilization_rate demo_liquidity = Inr (Rate 333333333333333333)"
  by (simp add: utilization_rate_def total_supply_def demo_defs wad_eval)

lemma demo_borrow_rate: "current_borrow_rate demo_reserve = Inr (Rate 16666666666666666)"
  by (simp add: current_borrow_rate_def demo_utilization demo_reserve_def demo_config_def Let_def
      less_eq_rate_def wad_eval)

lemma demo_compound: "\<exists>l'. compound_interest demo_liquidity (Rate 16666666666666666) 2 (Rate_from_percent 10) = Inr l'"
  by (simp add: compound_interest_def try_pow_def try_pow_loop.simps Let_def demo_liquidity_def
      reserve_liquidity_new_def wad_eval SLOTS_PER_YEAR_def)

theorem accrue_interest_monotone_witness:
  "\<exists>r'. accrue_interest demo_reserve 12 = Inr r' \<and> assets (liquidity demo_reserve) \<le> assets (liquidity r')"
proof -
  have "liquidity demo_reserve = demo_liquidity" "res_last_update demo_reserve = \<lparr> lu_slot = 10, lu_stale = False \<rparr>"
    and take10: "protocol_take_rate (res_config demo_reserve) = 10"
    by (simp_all add: demo_reserve_def demo_config_def)
  then obtain r' where r': "accrue_interest demo_reserve 12 = Inr r'"
    using demo_compound by (auto simp: accrue_interest_def slots_elapsed_def demo_borrow_rate checked_sub_def)
  have "protocol_take_rate (res_config demo_reserve) \<le> 100" by (simp add: take10)
  from accrue_interest_monotone [OF r' this] r' show ?thesis by blast
qed

section \<open>What an accepted configuration guarantees\<close>

lemma if_error: "(if c then Inl e else x) = Inr y \<longleftrightarrow> \<not> c \<and> x = Inr y"
  by simp

lemma validate_ok:
  assumes "validate_reserve_config c = Inr u"
  shows "unat (optimal_utilization_rate c) \<le> unat (max_utilization_rate c)"
    and "unat (max_utilization_rate c) \<le> 100"
    and "unat (liquidation_bonus c) \<le> unat (max_liquidation_bonus c)"
    and "unat (liquidation_threshold c) \<le> unat (max_liquidation_threshold c)"
    and "unat (min_borrow_rate c) \<le> unat (optimal_borrow_rate c)"
    and "unat (optimal_borrow_rate c) \<le> unat (max_borrow_rate c)"
    and "unat (max_borrow_rate c) \<le> unat (super_max_borrow_rate c)"
    and "unat (borrow_fee_wad (fees c)) < wad"
    and "unat (host_fee_percentage (fees c)) \<le> 100"
    and "protocol_take_rate c \<le> 100"
    and "unat (max_liquidation_bonus c) * 100 + unat (cfg_protocol_liquidation_fee c) * 10 \<le> 2500"
proof -
  note ok = assms [unfolded validate_reserve_config_def if_error not_less not_le de_Morgan_disj]
  from ok show "unat (optimal_utilization_rate c) \<le> unat (max_utilization_rate c)"
    and "unat (max_utilization_rate c) \<le> 100"
    and "unat (liquidation_bonus c) \<le> unat (max_liquidation_bonus c)"
    and "unat (liquidation_threshold c) \<le> unat (max_liquidation_threshold c)"
    and "unat (min_borrow_rate c) \<le> unat (optimal_borrow_rate c)"
    and "unat (optimal_borrow_rate c) \<le> unat (max_borrow_rate c)"
    and "unat (host_fee_percentage (fees c)) \<le> 100"
    and "protocol_take_rate c \<le> 100"
    by (simp_all add: word_le_nat_alt)
  from ok have "ucast (max_borrow_rate c) \<le> super_max_borrow_rate c" by blast
  then show "unat (max_borrow_rate c) \<le> unat (super_max_borrow_rate c)"
    by (simp add: word_le_nat_alt unat_ucast_up)
  from ok show "unat (borrow_fee_wad (fees c)) < wad"
    by (simp add: word_less_nat_alt WAD_def wad_def)
  from ok have le: "ucast (max_liquidation_bonus c) * 100 + ucast (cfg_protocol_liquidation_fee c) * 10
      \<le> (ucast MAX_BONUS_PCT * 100 :: u64)" by blast
  have "unat (ucast (max_liquidation_bonus c) * 100 + ucast (cfg_protocol_liquidation_fee c) * 10 :: u64) =
      unat (max_liquidation_bonus c) * 100 + unat (cfg_protocol_liquidation_fee c) * 10"
    using unat_less_pow [of "max_liquidation_bonus c"] unat_less_pow [of "cfg_protocol_liquidation_fee c"]
    by (simp add: unat_word_ariths unat_ucast_up)
  then show "unat (max_liquidation_bonus c) * 100 + unat (cfg_protocol_liquidation_fee c) * 10 \<le> 2500"
    using le by (simp add: word_le_nat_alt MAX_BONUS_PCT_def)
qed

lemma utilization_le_one: "utilization_rate l = Inr u \<Longrightarrow> rv u \<le> wad"
proof -
  assume u: "utilization_rate l = Inr u"
  have "n * wad div (n + m) \<le> wad" if "n + m \<noteq> 0" for n m :: nat
  proof -
    have "n * wad div (n + m) \<le> (n + m) * wad div (n + m)" by (intro div_le_mono) simp
    then show ?thesis using that by (simp only: nonzero_mult_div_cancel_left not_False_eq_True)
  qed
  then show ?thesis
    using u by (auto simp: utilization_rate_def and_then_Inr_iff wad_simps split: if_splits)
qed

text \<open>The three pieces of the rate curve: a weight of at most one applied to a range.\<close>

lemma rate_piece:
  assumes "rv a \<le> wad" and "rv a \<le> rv b" and "0 < rv b" and "rv lo + rv rg \<le> 2 ^ 68"
  shows "\<exists>w x y. Rate_try_div a b = Inr w \<and> Rate_try_mul w rg = Inr x \<and>
           Rate_try_add x lo = Inr y \<and> rv lo \<le> rv y \<and> rv y \<le> rv lo + rv rg"
proof -
  have "rv a * wad \<le> wad * wad" using assms(1) by simp
  also have "\<dots> < 2 ^ 128" by (simp add: wad_def)
  finally have aw: "rv a * wad < 2 ^ 128" .
  have wle: "rv a * wad div rv b \<le> wad"
    using div_le_mono [of "rv a * wad" "rv b * wad" "rv b"] assms(2,3) by simp
  then have "rv a * wad div rv b < 2 ^ 128" by (simp add: wad_def)
  then obtain w where w: "rv w = rv a * wad div rv b" using rm.raw_surj by blast
  have "rv w * rv rg \<le> wad * 2 ^ 68" using wle assms(4) by (intro mult_le_mono) (simp_all add: w)
  also have "\<dots> < 2 ^ 128" by (simp add: wad_def)
  finally have wr: "rv w * rv rg < 2 ^ 128" .
  then obtain x where x: "Rate_try_mul w rg = Inr x" using rm.mul_total by blast
  have xle: "rv x \<le> rv rg"
    using x fraction_le [of w "rv rg"] wle by (simp add: wad_simps w mult.commute)
  then have "rv x + rv lo < 2 ^ 128" using assms(4) by simp
  then obtain y where y: "rv y = rv x + rv lo" using rm.raw_surj by blast
  have "Rate_try_div a b = Inr w" using aw assms(3) w by (simp add: wad_simps)
  moreover have "Rate_try_add x lo = Inr y" using y by (simp add: wad_simps)
  moreover have "rv lo \<le> rv y" and "rv y \<le> rv lo + rv rg" using y xle by linarith+
  ultimately show ?thesis using x by blast
qed

lemma rv_percent_le: "rv (Rate_from_percent p) \<le> 255 * (wad div 100)"
  using unat_less_pow [of p] by (simp add: wad_def)

lemma percent_le_iff: "unat p * (wad div 100) \<le> unat q * (wad div 100) \<longleftrightarrow> unat p \<le> unat q"
  by (simp add: wad_def)

lemma percent_100: "100 * (wad div 100) = wad"
  by (simp add: wad_def)

lemma low_rate:
  assumes cfg: "validate_reserve_config (res_config r) = Inr v"
    and u: "utilization_rate (liquidity r) = Inr u"
    and le: "u \<le> Rate_from_percent (optimal_utilization_rate (res_config r))"
  shows "\<exists>y. current_borrow_rate r = Inr y \<and>
     unat (min_borrow_rate (res_config r)) * (wad div 100) \<le> rv y \<and>
     rv y \<le> unat (optimal_borrow_rate (res_config r)) * (wad div 100)"
proof (cases "Rate_from_percent (optimal_utilization_rate (res_config r)) = Rate_zero")
  case True
  then show ?thesis
    using u le validate_ok(5) [OF cfg]
    by (simp add: current_borrow_rate_def Let_def percent_le_iff)
next
  case False
  let ?c = "res_config r"
  let ?opt = "Rate_from_percent (optimal_utilization_rate ?c)"
  have pos: "0 < rv ?opt" using False by (auto simp: rate_eq_iff)
  obtain d where d: "checked_sub (optimal_borrow_rate ?c) (min_borrow_rate ?c) = Some d"
    "unat d + unat (min_borrow_rate ?c) = unat (optimal_borrow_rate ?c)"
    using validate_ok(5) [OF cfg]
    by (cases "checked_sub (optimal_borrow_rate ?c) (min_borrow_rate ?c)")
       (auto simp: checked_sub_Some_iff checked_sub_None_iff)
  have sum: "rv (Rate_from_percent (min_borrow_rate ?c)) + rv (Rate_from_percent d) =
      unat (optimal_borrow_rate ?c) * (wad div 100)"
    by (simp add: algebra_simps flip: d(2))
  also have "\<dots> \<le> 2 ^ 68" using rv_percent_le [of "optimal_borrow_rate ?c"] by (simp add: wad_def)
  finally have small: "rv (Rate_from_percent (min_borrow_rate ?c)) + rv (Rate_from_percent d) \<le> 2 ^ 68" .
  have le': "rv u \<le> rv ?opt" using le by (simp add: rate_le_iff)
  obtain w x y where "Rate_try_div u ?opt = Inr w" "Rate_try_mul w (Rate_from_percent d) = Inr x"
    "Rate_try_add x (Rate_from_percent (min_borrow_rate ?c)) = Inr y"
    "rv (Rate_from_percent (min_borrow_rate ?c)) \<le> rv y"
    "rv y \<le> rv (Rate_from_percent (min_borrow_rate ?c)) + rv (Rate_from_percent d)"
    using rate_piece [OF utilization_le_one [OF u] le' pos small] by blast
  then show ?thesis
    using False u le d(1) sum by (simp add: current_borrow_rate_def Let_def)
qed

lemma mid_rate:
  assumes cfg: "validate_reserve_config (res_config r) = Inr v"
    and u: "utilization_rate (liquidity r) = Inr u"
    and gt: "\<not> u \<le> Rate_from_percent (optimal_utilization_rate (res_config r))"
    and le: "u \<le> Rate_from_percent (max_utilization_rate (res_config r))"
  shows "\<exists>y. current_borrow_rate r = Inr y \<and>
     unat (optimal_borrow_rate (res_config r)) * (wad div 100) \<le> rv y \<and>
     rv y \<le> unat (max_borrow_rate (res_config r)) * (wad div 100)"
proof -
  let ?c = "res_config r"
  let ?opt = "Rate_from_percent (optimal_utilization_rate ?c)"
  let ?max = "Rate_from_percent (max_utilization_rate ?c)"
  have lt: "rv ?opt < rv u" and le': "rv u \<le> rv ?max"
    using gt le by (simp_all only: rate_le_iff not_le)
  have ule: "rv u \<le> wad" using u by (rule utilization_le_one)
  obtain a where a: "Rate_try_sub u ?opt = Inr a" "rv u = rv a + rv ?opt"
    using rm.sub_total [of ?opt u] lt by auto
  obtain b where b: "Rate_try_sub ?max ?opt = Inr b" "rv ?max = rv b + rv ?opt"
    using rm.sub_total [of ?opt ?max] order.trans [OF less_imp_le [OF lt] le'] by blast
  obtain g where g: "Rate_try_sub (Rate_from_percent (max_borrow_rate ?c))
      (Rate_from_percent (optimal_borrow_rate ?c)) = Inr g"
    "rv (Rate_from_percent (max_borrow_rate ?c)) = rv g + rv (Rate_from_percent (optimal_borrow_rate ?c))"
    using validate_ok(6) [OF cfg]
      rm.sub_total [of "Rate_from_percent (optimal_borrow_rate ?c)" "Rate_from_percent (max_borrow_rate ?c)"]
    by (auto simp: percent_le_iff)
  have small: "rv (Rate_from_percent (optimal_borrow_rate ?c)) + rv g \<le> 2 ^ 68"
    using rv_percent_le [of "max_borrow_rate ?c"] g(2) by (simp add: wad_def)
  have "rv a \<le> wad" "rv a \<le> rv b" "0 < rv b" using a(2) b(2) lt le' ule by linarith+
  then obtain w x y where "Rate_try_div a b = Inr w" "Rate_try_mul w g = Inr x"
    "Rate_try_add x (Rate_from_percent (optimal_borrow_rate ?c)) = Inr y"
    "rv (Rate_from_percent (optimal_borrow_rate ?c)) \<le> rv y"
    "rv y \<le> rv (Rate_from_percent (optimal_borrow_rate ?c)) + rv g"
    using rate_piece [OF _ _ _ small] by blast
  then show ?thesis
    using u gt le a(1) b(1) g by (simp add: current_borrow_rate_def Let_def)
qed

lemma top_rate:
  assumes cfg: "validate_reserve_config (res_config r) = Inr v"
    and u: "utilization_rate (liquidity r) = Inr u"
    and gt: "\<not> u \<le> Rate_from_percent (optimal_utilization_rate (res_config r))"
    and gt2: "\<not> u \<le> Rate_from_percent (max_utilization_rate (res_config r))"
  shows "\<exists>y. current_borrow_rate r = Inr y \<and>
     unat (max_borrow_rate (res_config r)) * (wad div 100) \<le> rv y \<and>
     rv y \<le> unat (super_max_borrow_rate (res_config r)) * (wad div 100)"
proof -
  let ?c = "res_config r"
  let ?max = "Rate_from_percent (max_utilization_rate ?c)"
  let ?lo = "Rate_from_percent (max_borrow_rate ?c)"
  let ?hi = "Rate_from_percent_u64 (super_max_borrow_rate ?c)"
  have lt: "rv ?max < rv u" using gt2 by (simp only: rate_le_iff not_le)
  have ule: "rv u \<le> wad" using u by (rule utilization_le_one)
  obtain a where a: "Rate_try_sub u ?max = Inr a" "rv u = rv a + rv ?max"
    using rm.sub_total [of ?max u] lt by auto
  obtain rest where rest: "checked_sub 100 (max_utilization_rate ?c) = Some rest"
    "unat rest + unat (max_utilization_rate ?c) = 100"
    using validate_ok(2) [OF cfg]
    by (cases "checked_sub 100 (max_utilization_rate ?c)")
       (auto simp: checked_sub_Some_iff checked_sub_None_iff)
  let ?b = "Rate_from_percent rest"
  have "rv ?b + rv ?max = (unat rest + unat (max_utilization_rate ?c)) * (wad div 100)"
    by (simp add: algebra_simps)
  then have b: "rv ?b + rv ?max = wad" by (simp only: rest(2) percent_100)
  have ab: "rv a \<le> rv ?b" "0 < rv ?b" "rv a \<le> wad" using a(2) b lt ule by linarith+
  obtain g where g: "Rate_try_sub ?hi ?lo = Inr g" "rv ?hi = rv g + rv ?lo"
    using validate_ok(7) [OF cfg] rm.sub_total [of ?lo ?hi] by (auto simp: percent_le_iff)
  have aw: "rv a * wad < 2 ^ 128"
    using mult_le_mono1 [OF ab(3), of wad] by (simp add: wad_def)
  have wle: "rv a * wad div rv ?b \<le> wad"
    using div_le_mono [OF mult_le_mono1 [OF ab(1)], of wad "rv ?b"] ab(2) by simp
  then obtain w where w: "rv w = rv a * wad div rv ?b"
    using rm.raw_surj [of "rv a * wad div rv ?b"] by (auto simp: wad_def)
  have dw: "Rate_try_div a ?b = Inr w" using aw ab(2) w by (simp add: wad_simps)
  have his: "rv ?hi < 2 ^ 64 * (wad div 100)"
    using unat_less_pow [of "super_max_borrow_rate ?c"] by (simp add: wad_def)
  have "rv w * rv g \<le> wad * (2 ^ 64 * (wad div 100))"
    using wle g(2) his by (intro mult_le_mono) (simp_all add: w)
  also have "\<dots> < 2 ^ 192" by (simp add: wad_def)
  finally obtain x where x: "try_mul (Decimal_from_Rate w) (Decimal_from_Rate g) = Inr x"
    using dm.mul_total [of "Decimal_from_Rate w" "Decimal_from_Rate g"] by auto
  have xle: "dv x \<le> rv g"
    using x fraction_le [of w "rv g"] wle by (simp add: wad_simps w mult.commute)
  have yb: "dv x + rv ?lo \<le> rv ?hi" using xle g(2) by simp
  then have "dv x + dv (Decimal_from_Rate ?lo) < 2 ^ 192" using his by (simp add: wad_def)
  then obtain y where y: "try_add x (Decimal_from_Rate ?lo) = Inr y" "dv y = dv x + rv ?lo"
    using dm.add_total [of x "Decimal_from_Rate ?lo"] by auto
  obtain z where z: "Rate_try_from y = Inr z" "rv z = dv y"
    using rm.raw_surj [of "dv y"] yb y(2) rv_less [of ?hi] by (auto simp: wad_simps)
  show ?thesis
    using u gt gt2 a(1) rest(1) dw g(1) x y z yb by (simp add: current_borrow_rate_def Let_def)
qed

text \<open>
  C34: on a validated configuration the borrow rate curve is total and bounded: whenever
  the utilization can be computed, the current borrow rate can, and it lies between the
  minimum and the super-maximum rate of the configuration.
\<close>
theorem borrow_rate_total_and_bounded:
  assumes "validate_reserve_config (res_config r) = Inr v"
    and "utilization_rate (liquidity r) = Inr u"
  shows "\<exists>y. current_borrow_rate r = Inr y \<and>
     Rate_from_percent (min_borrow_rate (res_config r)) \<le> y \<and>
     y \<le> Rate_from_percent_u64 (super_max_borrow_rate (res_config r))"
proof -
  note pieces = low_rate [OF assms] mid_rate [OF assms] top_rate [OF assms]
  have mono: "unat (min_borrow_rate (res_config r)) * (wad div 100) \<le> unat (optimal_borrow_rate (res_config r)) * (wad div 100)"
    "unat (optimal_borrow_rate (res_config r)) * (wad div 100) \<le> unat (max_borrow_rate (res_config r)) * (wad div 100)"
    "unat (max_borrow_rate (res_config r)) * (wad div 100) \<le> unat (super_max_borrow_rate (res_config r)) * (wad div 100)"
    using validate_ok(5,6,7) [OF assms(1)] by (simp_all add: mult_le_mono1)
  show ?thesis
    unfolding rate_le_iff rv_from_percent rv_from_percent_u64
    using pieces mono order.trans by meson
qed

theorem borrow_rate_total_and_bounded_witness:
  "\<exists>y. current_borrow_rate demo_reserve = Inr y \<and> y \<le> Rate_from_percent_u64 60"
proof -
  have cfg: "res_config demo_reserve = demo_config" and l: "liquidity demo_reserve = demo_liquidity"
    by (simp_all add: demo_reserve_def)
  have v: "validate_reserve_config (res_config demo_reserve) = Inr ()"
    by (simp add: cfg validate_reserve_config_def demo_config_def WAD_def MAX_BONUS_PCT_def
        MAX_PROTOCOL_LIQUIDATION_FEE_DECA_BPS_def MIN_SCALED_PRICE_OFFSET_BPS_def
        MAX_SCALED_PRICE_OFFSET_BPS_def)
  have "super_max_borrow_rate (res_config demo_reserve) = 60" by (simp add: cfg demo_config_def)
  with borrow_rate_total_and_bounded [OF v] show ?thesis using demo_utilization l by metis
qed

section \<open>Collateral exchange\<close>

lemma div_wad_mult_le: "n div wad * wad \<le> n"
  by simp

lemma liquidity_to_collateral_Inr:
  "liquidity_to_collateral er x = Inr c \<Longrightarrow> unat c = unat x * rv er div wad"
  by (auto simp: liquidity_to_collateral_def decimal_liquidity_to_collateral_def try_mul_rate_def
      and_then_Inr_iff wad_simps mult.assoc)

lemma collateral_to_liquidity_Inr:
  "collateral_to_liquidity er c = Inr y \<Longrightarrow> 0 < rv er \<and> unat y = wad * unat c * wad div rv er div wad"
  by (auto simp: collateral_to_liquidity_def decimal_collateral_to_liquidity_def try_div_rate_def
      and_then_Inr_iff wad_simps)

text \<open>
  exchanging never gains at a fixed exchange rate: liquidity turned into collateral and
  back is at most the liquidity put in, and collateral turned into liquidity and back is at
  most the collateral put in.
\<close>
lemma exchange_never_gains:
  "(liquidity_to_collateral er x = Inr c \<and> collateral_to_liquidity er c = Inr y \<longrightarrow> y \<le> x) \<and>
   (collateral_to_liquidity er c = Inr z \<and> liquidity_to_collateral er z = Inr c' \<longrightarrow> c' \<le> c)"
proof -
  have "y \<le> x" if "liquidity_to_collateral er x = Inr c" "collateral_to_liquidity er c = Inr y"
  proof -
    have c: "unat c * wad \<le> unat x * rv er"
      using liquidity_to_collateral_Inr [OF that(1)] div_wad_mult_le by simp
    note y = collateral_to_liquidity_Inr [OF that(2)]
    have "wad * unat c * wad div rv er \<le> wad * (unat x * rv er) div rv er"
      using c by (intro div_le_mono) (simp add: mult.assoc)
    also have "\<dots> = wad * unat x" using y by (simp flip: mult.assoc)
    finally have "wad * unat c * wad div rv er div wad \<le> wad * unat x div wad" by (rule div_le_mono)
    then show ?thesis using y by (simp add: word_le_nat_alt)
  qed
  moreover have "c' \<le> c" if "collateral_to_liquidity er c = Inr z" "liquidity_to_collateral er z = Inr c'"
  proof -
    note z = collateral_to_liquidity_Inr [OF that(1)]
    have "unat z * wad \<le> wad * unat c * wad div rv er" using z div_wad_mult_le by simp
    then have "unat z * wad * rv er \<le> wad * unat c * wad div rv er * rv er" by (rule mult_le_mono1)
    also have "\<dots> \<le> wad * unat c * wad" by simp
    finally have "(unat z * rv er) * wad \<le> (unat c * wad) * wad" by (simp add: ac_simps)
    then have "unat z * rv er \<le> unat c * wad" by (simp only: mult_le_cancel2 wad_pos simp_thms)
    then have "unat z * rv er div wad \<le> unat c * wad div wad" by (rule div_le_mono)
    then show ?thesis using liquidity_to_collateral_Inr [OF that(2)] by (simp add: word_le_nat_alt)
  qed
  ultimately show ?thesis by blast
qed

lemma exchange_never_gains_witness:
  "liquidity_to_collateral (Rate 1500000000000000000) 7 = Inr 10 \<and>
   collateral_to_liquidity (Rate 1500000000000000000) 10 = Inr 6 \<and> (6 :: u64) \<le> 7"
proof -
  have "liquidity_to_collateral (Rate 1500000000000000000) 7 = Inr 10 \<and>
      collateral_to_liquidity (Rate 1500000000000000000) 10 = Inr 6"
    by (simp add: liquidity_to_collateral_def decimal_liquidity_to_collateral_def
        collateral_to_liquidity_def decimal_collateral_to_liquidity_def try_floor_u64_def wad_eval)
  with exchange_never_gains [of "Rate 1500000000000000000" 7 10 6] show ?thesis by blast
qed

section \<open>Fees\<close>

lemma calculate_fees_Inr:
  assumes "calculate_fees fs amount fw fc = Inr (fee, host)"
    and "0 < fw" and "Decimal_zero < amount"
  shows "\<exists>D. dv D < dv amount \<and> unat fee = (wad div 2 + dv D) div wad \<and>
    (if host_fee_percentage fs = 0 then host = 0 \<and> wad \<le> dv D
     else 2 * wad \<le> dv D \<and>
       unat host = max ((wad div 2 + dv D * (unat (host_fee_percentage fs) * (wad div 100)) div wad) div wad) 1)"
proof -
  let ?need = "Rate_zero < Rate_from_percent (host_fee_percentage fs)"
  let ?min = "if ?need then 2 else 1 :: u64"
  have rp: "Rate_zero < Rate_from_scaled_val fw"
    using assms(2) by (simp add: rate_less_iff word_less_nat_alt)
  have need: "?need \<longleftrightarrow> host_fee_percentage fs \<noteq> 0"
    by (simp add: rate_less_iff wad_def unat_gt_0)
  have c: "Rate_zero < Rate_from_scaled_val fw \<and> Decimal_zero < amount" using rp assms(3) by blast
  obtain bf f h where fin:
    "\<not> max bf (Decimal_from ?min) \<ge> amount" "try_round_u64 (max bf (Decimal_from ?min)) = Inr f"
    "(if ?need then and_then (try_mul_rate (max bf (Decimal_from ?min)) (Rate_from_percent (host_fee_percentage fs)))
        (\<lambda>h. and_then (try_round_u64 h) (\<lambda>n. Inr (max n 1))) else Inr 0) = Inr h"
    "Inr (f, h) = (Inr (fee, host) :: program_error + (u64 \<times> u64))"
    using assms(1) unfolding calculate_fees_def Let_def if_P [OF c] and_then_Inr_iff if_error
    by blast
  define D where "D = max bf (Decimal_from ?min)"
  note fin = fin [folded D_def]
  have D: "dv D < dv amount" "unat fee = (wad div 2 + dv D) div wad" and h: "h = host"
    using fin(1,2,4) by (auto simp: try_round_u64_iff dec_le_iff)
  have m: "wad * unat ?min \<le> dv D" by (simp add: D_def)
  show ?thesis
  proof (cases "host_fee_percentage fs = 0")
    case True
    then show ?thesis using D m h fin(3) need by (intro exI [of _ D]) simp
  next
    case False
    then obtain q n where "try_mul_rate D (Rate_from_percent (host_fee_percentage fs)) = Inr q"
      "try_round_u64 q = Inr n" "host = max n 1"
      using fin(3) need h by (auto simp: and_then_Inr_iff)
    then have "unat host = max ((wad div 2 + dv D * (unat (host_fee_percentage fs) * (wad div 100)) div wad) div wad) 1"
      by (simp add: try_mul_rate_def try_mul_iff try_round_u64_iff unat_max)
    then show ?thesis using False D m need by (intro exI [of _ D]) simp
  qed
qed

lemma calculate_fees_zero:
  "\<not> (0 < fw \<and> 0 < n) \<Longrightarrow> calculate_fees fs (Decimal_from n) fw fc = Inr (0, 0)"
proof -
  assume "\<not> (0 < fw \<and> 0 < n)"
  then have "\<not> (Rate_zero < Rate_from_scaled_val fw \<and> Decimal_zero < Decimal_from n)"
    by (auto simp: rate_less_iff dec_less_iff word_less_nat_alt)
  then show ?thesis by (simp only: calculate_fees_def Let_def if_False)
qed

lemma fee_split:
  assumes pct: "host_fee_percentage fs \<le> 100"
    and fees: "calculate_fees fs (Decimal_from n) fw fc = Inr (fee, host)"
  shows "host \<le> fee \<and> fee \<le> n \<and>
    (0 < fw \<and> 0 < n \<longrightarrow> 0 < fee \<and> (0 < host_fee_percentage fs \<longrightarrow> 0 < host))"
proof (cases "0 < fw \<and> 0 < n")
  case False
  then show ?thesis using fees calculate_fees_zero [OF False, of fs fc] by auto
next
  case True
  then have "Decimal_zero < Decimal_from n" by (simp add: dec_less_iff word_less_nat_alt)
  with calculate_fees_Inr [OF fees] True obtain D where
    D: "dv D < wad * unat n" "unat fee = (wad div 2 + dv D) div wad" and
    h: "if host_fee_percentage fs = 0 then host = 0 \<and> wad \<le> dv D
      else 2 * wad \<le> dv D \<and> unat host =
        max ((wad div 2 + dv D * (unat (host_fee_percentage fs) * (wad div 100)) div wad) div wad) 1"
    by auto
  have fee_n: "unat fee \<le> unat n"
  proof -
    have "(wad div 2 + dv D) div wad \<le> (wad - 1 + wad * unat n) div wad"
      using D(1) by (intro div_le_mono) (simp add: wad_def)
    also have "\<dots> = unat n" by (simp add: div_mult_self2 wad_def)
    finally show ?thesis by (simp add: D(2))
  qed
  have wD: "wad \<le> dv D" using h by (auto split: if_splits)
  then have "wad div wad \<le> (wad div 2 + dv D) div wad" by (intro div_le_mono) simp
  then have fee1: "1 \<le> unat fee" by (simp add: D(2))
  have "unat (host_fee_percentage fs) * (wad div 100) \<le> wad"
    using pct by (simp add: word_le_nat_alt wad_def)
  then have "dv D * (unat (host_fee_percentage fs) * (wad div 100)) div wad \<le> dv D"
    using div_le_mono [OF mult_le_mono2, of _ wad "dv D" wad] by simp
  then have "(wad div 2 + dv D * (unat (host_fee_percentage fs) * (wad div 100)) div wad) div wad \<le> unat fee"
    unfolding D(2) by (intro div_le_mono) simp
  then have "unat host \<le> unat fee" "host_fee_percentage fs \<noteq> 0 \<Longrightarrow> 1 \<le> unat host"
    using h fee1 by (auto split: if_splits)
  then show ?thesis
    using fee_n fee1
    by (cases "host_fee_percentage fs = 0") (simp_all add: word_le_nat_alt word_less_nat_alt)
qed

text \<open>
  on a whole number of tokens and a host share of at most 100%, the fee computed for a
  flash loan is at least the host's part and never more than the loan, is positive whenever
  the fee rate and the loan are (the host's part too when its share is), and splitting off the
  origination fee cannot fail: the two parts add up to the fee.
\<close>
lemma flash_fee_split_sound:
  assumes "host_fee_percentage fs \<le> 100"
    and "calculate_fees fs (Decimal_from n) (flash_loan_fee_wad fs) Exclusive = Inr (fee, host)"
  shows "host \<le> fee \<and> fee \<le> n \<and>
    (0 < flash_loan_fee_wad fs \<and> 0 < n \<longrightarrow> 0 < fee \<and> (0 < host_fee_percentage fs \<longrightarrow> 0 < host)) \<and>
    (\<exists>origination. calculate_flash_loan_fees fs (Decimal_from n) = Inr (origination, host) \<and>
       unat origination + unat host = unat fee)"
proof -
  note fs = fee_split [OF assms]
  then obtain o' where o: "checked_sub fee host = Some o'" "unat fee = unat o' + unat host"
    by (cases "checked_sub fee host") (auto simp: checked_sub_None_iff checked_sub_Some_iff word_le_nat_alt)
  then have "calculate_flash_loan_fees fs (Decimal_from n) = Inr (o', host)"
    by (simp add: calculate_flash_loan_fees_def assms(2))
  then show ?thesis using fs o(2) by auto
qed

lemma flash_fee_split_sound_witness:
  "\<exists>origination. calculate_flash_loan_fees (fees demo_config) (Decimal_from 10000) = Inr (origination, 6) \<and>
     unat origination + 6 = 30"
proof -
  have "calculate_fees (fees demo_config) (Decimal_from 10000) (flash_loan_fee_wad (fees demo_config)) Exclusive =
      Inr (30, 6)"
    by (simp add: calculate_fees_def demo_config_def Let_def wad_eval less_rate_def less_decimal_def
        less_eq_decimal_def max_def try_round_u64_def Decimal_half_wad_def HALF_WAD_def)
       (simp add: word_le_nat_alt)
  moreover have "host_fee_percentage (fees demo_config) \<le> 100" by (simp add: demo_config_def)
  ultimately have "\<exists>origination. calculate_flash_loan_fees (fees demo_config) (Decimal_from 10000) =
      Inr (origination, 6) \<and> unat origination + unat (6 :: u64) = unat (30 :: u64)"
    using flash_fee_split_sound by blast
  then show ?thesis by simp
qed

end
