(* ===== verification/SolendObligation.thy ===== *)
theory SolendObligation
  imports SolendReserveProps
begin

text \<open>
  \<open>patches/solend-sdk/src/state/obligation.rs\<close> and the liquidation part of \<open>reserve.rs\<close>: the
  obligation record, its deposits and borrows, the liquidation bonus, the amounts of a
  liquidation and the protocol's cut.  Indexing a vector out of range panics, so \<open>repay\<close> and
  \<open>withdraw\<close> return \<open>panic + (program_error + obligation)\<close>; a mutable reference into a vector is
  its index.  The step relation \<open>ob_step\<close> has the operations that change the two vectors;
  its invariant is that reserves are unique and at most ten.
\<close>

section \<open>Records\<close>

definition MAX_OBLIGATION_RESERVES :: nat where "MAX_OBLIGATION_RESERVES = 10"

record obligation_collateral =
  deposit_reserve :: pubkey
  deposited_amount :: u64
  oc_market_value :: decimal
  oc_attributed_borrow_value :: decimal

record obligation_liquidity =
  borrow_reserve :: pubkey
  ol_cumulative_borrow_rate_wads :: decimal
  ol_borrowed_amount_wads :: decimal
  ol_market_value :: decimal

record obligation =
  ob_version :: u8
  ob_last_update :: last_update
  ob_lending_market :: pubkey
  ob_owner :: pubkey
  deposits :: "obligation_collateral list"
  borrows :: "obligation_liquidity list"
  deposited_value :: decimal
  borrowed_value :: decimal
  unweighted_borrowed_value :: decimal
  borrowed_value_upper_bound :: decimal
  allowed_borrow_value :: decimal
  unhealthy_borrow_value :: decimal
  super_unhealthy_borrow_value :: decimal
  borrowing_isolated_asset :: bool
  closeable :: bool

record init_obligation_params =
  iop_current_slot :: u64
  iop_lending_market :: pubkey
  iop_owner :: pubkey
  iop_deposits :: "obligation_collateral list"
  iop_borrows :: "obligation_liquidity list"

definition obligation_init :: "obligation \<Rightarrow> init_obligation_params \<Rightarrow> obligation" where
  "obligation_init ob p = ob\<lparr>
     ob_version := PROGRAM_VERSION,
     ob_last_update := last_update_new (iop_current_slot p),
     ob_lending_market := iop_lending_market p,
     ob_owner := iop_owner p,
     deposits := iop_deposits p,
     borrows := iop_borrows p \<rparr>"

definition obligation_default :: obligation where
  "obligation_default = \<lparr>
     ob_version = 0, ob_last_update = \<lparr> lu_slot = 0, lu_stale = False \<rparr>,
     ob_lending_market = Pubkey_default, ob_owner = Pubkey_default, deposits = [], borrows = [],
     deposited_value = Decimal_zero, borrowed_value = Decimal_zero,
     unweighted_borrowed_value = Decimal_zero, borrowed_value_upper_bound = Decimal_zero,
     allowed_borrow_value = Decimal_zero, unhealthy_borrow_value = Decimal_zero,
     super_unhealthy_borrow_value = Decimal_zero, borrowing_isolated_asset = False,
     closeable = False \<rparr>"

definition obligation_new :: "init_obligation_params \<Rightarrow> obligation" where
  "obligation_new p = obligation_init obligation_default p"

section \<open>Collateral and liquidity entries\<close>

definition obligation_collateral_new :: "pubkey \<Rightarrow> obligation_collateral" where
  "obligation_collateral_new res =
     \<lparr> deposit_reserve = res, deposited_amount = 0, oc_market_value = Decimal_zero,
       oc_attributed_borrow_value = Decimal_zero \<rparr>"

definition oc_deposit :: "obligation_collateral \<Rightarrow> u64 \<Rightarrow> program_error + obligation_collateral" where
  "oc_deposit c n =
     and_then (ok_or overflow (checked_add (deposited_amount c) n)) (\<lambda>a. Inr (c\<lparr>deposited_amount := a\<rparr>))"

definition oc_withdraw :: "obligation_collateral \<Rightarrow> u64 \<Rightarrow> program_error + obligation_collateral" where
  "oc_withdraw c n =
     and_then (ok_or overflow (checked_sub (deposited_amount c) n)) (\<lambda>a. Inr (c\<lparr>deposited_amount := a\<rparr>))"

definition obligation_liquidity_new :: "pubkey \<Rightarrow> decimal \<Rightarrow> obligation_liquidity" where
  "obligation_liquidity_new res cum =
     \<lparr> borrow_reserve = res, ol_cumulative_borrow_rate_wads = cum,
       ol_borrowed_amount_wads = Decimal_zero, ol_market_value = Decimal_zero \<rparr>"

definition ol_repay :: "obligation_liquidity \<Rightarrow> decimal \<Rightarrow> program_error + obligation_liquidity" where
  "ol_repay l settle_amount =
     and_then (try_sub (ol_borrowed_amount_wads l) settle_amount)
       (\<lambda>b. Inr (l\<lparr>ol_borrowed_amount_wads := b\<rparr>))"

definition ol_borrow :: "obligation_liquidity \<Rightarrow> decimal \<Rightarrow> program_error + obligation_liquidity" where
  "ol_borrow l borrow_amount =
     and_then (try_add (ol_borrowed_amount_wads l) borrow_amount)
       (\<lambda>b. Inr (l\<lparr>ol_borrowed_amount_wads := b\<rparr>))"

definition ol_accrue_interest :: "obligation_liquidity \<Rightarrow> decimal \<Rightarrow> program_error + obligation_liquidity" where
  "ol_accrue_interest l cum =
     (if cum < ol_cumulative_borrow_rate_wads l then Inl (Custom NegativeInterestRate)
      else if cum = ol_cumulative_borrow_rate_wads l then Inr l
      else
        and_then (try_div cum (ol_cumulative_borrow_rate_wads l)) (\<lambda>q.
        and_then (Rate_try_from q) (\<lambda>compounded_interest_rate.
        and_then (try_mul_rate (ol_borrowed_amount_wads l) compounded_interest_rate) (\<lambda>b.
          Inr (l\<lparr>ol_borrowed_amount_wads := b, ol_cumulative_borrow_rate_wads := cum\<rparr>)))))"

section \<open>Obligation operations\<close>

definition loan_to_value :: "obligation \<Rightarrow> program_error + decimal" where
  "loan_to_value ob = try_div (borrowed_value ob) (deposited_value ob)"

definition vec_remove :: "nat \<Rightarrow> 'a list \<Rightarrow> 'a list" where
  "vec_remove i xs = take i xs @ drop (Suc i) xs"

definition ob_repay :: "obligation \<Rightarrow> decimal \<Rightarrow> nat \<Rightarrow> panic + (program_error + obligation)" where
  "ob_repay ob settle_amount i =
     (if length (borrows ob) \<le> i then Inl Panic
      else Inr (
        if settle_amount = ol_borrowed_amount_wads (borrows ob ! i)
        then Inr (ob\<lparr>borrows := vec_remove i (borrows ob)\<rparr>)
        else and_then (ol_repay (borrows ob ! i) settle_amount)
               (\<lambda>l. Inr (ob\<lparr>borrows := (borrows ob)[i := l]\<rparr>))))"

definition ob_withdraw :: "obligation \<Rightarrow> u64 \<Rightarrow> nat \<Rightarrow> panic + (program_error + obligation)" where
  "ob_withdraw ob withdraw_amount i =
     (if length (deposits ob) \<le> i then Inl Panic
      else Inr (
        if withdraw_amount = deposited_amount (deposits ob ! i)
        then Inr (ob\<lparr>deposits := vec_remove i (deposits ob)\<rparr>)
        else and_then (oc_withdraw (deposits ob ! i) withdraw_amount)
               (\<lambda>c. Inr (ob\<lparr>deposits := (deposits ob)[i := c]\<rparr>))))"

definition max_withdraw_amount ::
  "obligation \<Rightarrow> obligation_collateral \<Rightarrow> solend_reserve \<Rightarrow> program_error + u64" where
  "max_withdraw_amount ob c withdraw_reserve =
     (if borrows ob = [] then Inr (deposited_amount c)
      else if allowed_borrow_value ob \<le> borrowed_value_upper_bound ob then Inr 0
      else
        let ltv = loan_to_value_ratio withdraw_reserve
        in if ltv = Rate_zero then Inr (deposited_amount c)
           else
             and_then (try_sub (allowed_borrow_value ob) (borrowed_value_upper_bound ob)) (\<lambda>room.
             and_then (try_div_rate room ltv) (\<lambda>max_withdraw_value.
             and_then (ok_or overflow (checked_pow (10 :: u64) (unat (mint_decimals (liquidity withdraw_reserve)))))
               (\<lambda>decimals.
             and_then (try_mul_u64 max_withdraw_value decimals) (\<lambda>m.
             and_then (try_div m (price_lower_bound withdraw_reserve)) (\<lambda>max_liquidity.
             and_then (collateral_exchange_rate withdraw_reserve) (\<lambda>er.
             and_then (decimal_liquidity_to_collateral er max_liquidity) (\<lambda>mc.
             and_then (try_floor_u64 mc) (\<lambda>f. Inr (min f (deposited_amount c)))))))))))"

definition remaining_borrow_value :: "obligation \<Rightarrow> program_error + decimal" where
  "remaining_borrow_value ob = try_sub (allowed_borrow_value ob) (borrowed_value_upper_bound ob)"

definition max_liquidation_amount :: "obligation \<Rightarrow> obligation_liquidity \<Rightarrow> program_error + decimal" where
  "max_liquidation_amount ob l =
     and_then (try_mul_rate (borrowed_value ob) (Rate_from_percent LIQUIDATION_CLOSE_FACTOR)) (\<lambda>v.
       let max_liquidation_value =
             min (min v (ol_market_value l)) (Decimal_from MAX_LIQUIDATABLE_VALUE_AT_ONCE)
       in and_then (try_div max_liquidation_value (ol_market_value l)) (\<lambda>pct.
            try_mul (ol_borrowed_amount_wads l) pct))"

definition find_index_by :: "('a \<Rightarrow> bool) \<Rightarrow> 'a list \<Rightarrow> nat option" where
  "find_index_by P xs = find (\<lambda>i. P (xs ! i)) [0..<length xs]"

definition find_collateral_index_in_deposits :: "obligation \<Rightarrow> pubkey \<Rightarrow> nat option" where
  "find_collateral_index_in_deposits ob res = find_index_by (\<lambda>c. deposit_reserve c = res) (deposits ob)"

definition find_liquidity_index_in_borrows :: "obligation \<Rightarrow> pubkey \<Rightarrow> nat option" where
  "find_liquidity_index_in_borrows ob res = find_index_by (\<lambda>l. borrow_reserve l = res) (borrows ob)"

definition find_collateral_in_deposits ::
  "obligation \<Rightarrow> pubkey \<Rightarrow> program_error + (obligation_collateral \<times> nat)" where
  "find_collateral_in_deposits ob res =
     (if deposits ob = [] then Inl (Custom ObligationDepositsEmpty)
      else and_then (ok_or (Custom InvalidObligationCollateral) (find_collateral_index_in_deposits ob res))
        (\<lambda>i. Inr (deposits ob ! i, i)))"

definition find_liquidity_in_borrows ::
  "obligation \<Rightarrow> pubkey \<Rightarrow> program_error + (obligation_liquidity \<times> nat)" where
  "find_liquidity_in_borrows ob res =
     (if borrows ob = [] then Inl (Custom ObligationBorrowsEmpty)
      else and_then (ok_or (Custom InvalidObligationLiquidity) (find_liquidity_index_in_borrows ob res))
        (\<lambda>i. Inr (borrows ob ! i, i)))"

text \<open>The mutable variant hands out the index under which the entry is then updated.\<close>

definition find_liquidity_in_borrows_mut ::
  "obligation \<Rightarrow> pubkey \<Rightarrow> program_error + (obligation_liquidity \<times> nat)" where
  "find_liquidity_in_borrows_mut ob res =
     (if borrows ob = [] then Inl (Custom ObligationBorrowsEmpty)
      else and_then (ok_or (Custom InvalidObligationLiquidity) (find_liquidity_index_in_borrows ob res))
        (\<lambda>i. Inr (borrows ob ! i, i)))"

definition obligation_is_initialized :: "obligation \<Rightarrow> bool" where
  "obligation_is_initialized ob \<longleftrightarrow> ob_version ob \<noteq> UNINITIALIZED_VERSION"

definition obligation_collateral_default :: obligation_collateral where
  "obligation_collateral_default = \<lparr> deposit_reserve = Pubkey_default, deposited_amount = 0,
     oc_market_value = Decimal_zero, oc_attributed_borrow_value = Decimal_zero \<rparr>"

definition obligation_liquidity_default :: obligation_liquidity where
  "obligation_liquidity_default = \<lparr> borrow_reserve = Pubkey_default, ol_cumulative_borrow_rate_wads = Decimal_zero,
     ol_borrowed_amount_wads = Decimal_zero, ol_market_value = Decimal_zero \<rparr>"

definition find_or_add_collateral_to_deposits ::
  "obligation \<Rightarrow> pubkey \<Rightarrow> program_error + (nat \<times> obligation)" where
  "find_or_add_collateral_to_deposits ob res =
     (case find_collateral_index_in_deposits ob res of
        Some i \<Rightarrow> Inr (i, ob)
      | None \<Rightarrow>
          if length (deposits ob) + length (borrows ob) \<ge> MAX_OBLIGATION_RESERVES
          then Inl (Custom ObligationReserveLimit)
          else Inr (length (deposits ob), ob\<lparr>deposits := deposits ob @ [obligation_collateral_new res]\<rparr>))"

definition find_or_add_liquidity_to_borrows ::
  "obligation \<Rightarrow> pubkey \<Rightarrow> decimal \<Rightarrow> program_error + (nat \<times> obligation)" where
  "find_or_add_liquidity_to_borrows ob res cum =
     (case find_liquidity_index_in_borrows ob res of
        Some i \<Rightarrow> Inr (i, ob)
      | None \<Rightarrow>
          if length (deposits ob) + length (borrows ob) \<ge> MAX_OBLIGATION_RESERVES
          then Inl (Custom ObligationReserveLimit)
          else Inr (length (borrows ob), ob\<lparr>borrows := borrows ob @ [obligation_liquidity_new res cum]\<rparr>))"

section \<open>Liquidation\<close>

record bonus =
  total_bonus :: decimal
  bonus_protocol_fee :: decimal

definition calculate_bonus :: "solend_reserve \<Rightarrow> obligation \<Rightarrow> program_error + bonus" where
  "calculate_bonus r ob =
     (if borrowed_value ob < unhealthy_borrow_value ob then
        (if closeable ob then Inr \<lparr> total_bonus = Decimal_zero, bonus_protocol_fee = Decimal_zero \<rparr>
         else Inl (Custom ObligationHealthy))
      else
        let lb = Decimal_from_percent (liquidation_bonus (res_config r));
            mb = Decimal_from_percent (max_liquidation_bonus (res_config r));
            pf = from_deca_bps (cfg_protocol_liquidation_fee (res_config r))
        in if unhealthy_borrow_value ob = super_unhealthy_borrow_value ob then
             and_then (try_add lb pf) (\<lambda>t.
               Inr \<lparr> total_bonus = min t (Decimal_from_percent MAX_BONUS_PCT), bonus_protocol_fee = pf \<rparr>)
           else
             and_then (try_sub (borrowed_value ob) (unhealthy_borrow_value ob)) (\<lambda>over.
             and_then (try_sub (super_unhealthy_borrow_value ob) (unhealthy_borrow_value ob)) (\<lambda>span.
               let weight = min (case try_div over span of Inr w \<Rightarrow> w | Inl _ \<Rightarrow> Decimal_one) Decimal_one
               in and_then (try_sub mb lb) (\<lambda>room.
                  and_then (try_mul weight room) (\<lambda>x.
                  and_then (try_add lb x) (\<lambda>y.
                  and_then (try_add y pf) (\<lambda>bns.
                    Inr \<lparr> total_bonus = min bns (Decimal_from_percent MAX_BONUS_PCT),
                          bonus_protocol_fee = pf \<rparr>)))))))"

record calculate_liquidation_result =
  cl_settle_amount :: decimal
  cl_repay_amount :: u64
  cl_withdraw_amount :: u64

text \<open>
  The three arms of each comparison: the liquidation takes the whole collateral
  (\<open>take_all\<close>), a reduced debt for the whole collateral (\<open>take_all_reduced\<close>), or a part of it.
  \<open>liquidate_dust\<close> is the branch for a borrow worth at most one, \<open>liquidate_part\<close> the other.
\<close>

definition take_all ::
  "obligation_collateral \<Rightarrow> decimal \<Rightarrow> program_error + calculate_liquidation_result" where
  "take_all c settle =
     and_then (try_ceil_u64 settle) (\<lambda>repaid.
       Inr \<lparr> cl_settle_amount = settle, cl_repay_amount = repaid, cl_withdraw_amount = deposited_amount c \<rparr>)"

definition take_all_reduced ::
  "obligation_collateral \<Rightarrow> decimal \<Rightarrow> decimal \<Rightarrow> program_error + calculate_liquidation_result" where
  "take_all_reduced c amount liquidation_value =
     and_then (try_div (oc_market_value c) liquidation_value) (\<lambda>repay_pct.
     and_then (try_mul amount repay_pct) (\<lambda>settle. take_all c settle))"

definition liquidate_dust ::
  "obligation_liquidity \<Rightarrow> obligation_collateral \<Rightarrow> decimal
     \<Rightarrow> program_error + calculate_liquidation_result" where
  "liquidate_dust l c bonus_rate =
     and_then (try_mul (ol_market_value l) bonus_rate) (\<lambda>liquidation_value.
       if liquidation_value > oc_market_value c
       then take_all_reduced c (ol_borrowed_amount_wads l) liquidation_value
       else if liquidation_value = oc_market_value c then take_all c (ol_borrowed_amount_wads l)
       else
         and_then (try_div liquidation_value (oc_market_value c)) (\<lambda>withdraw_pct.
         and_then (try_ceil_u64 (ol_borrowed_amount_wads l)) (\<lambda>repaid.
           if repaid = 0 then Inl (Custom LiquidationTooSmall)
           else
             and_then (try_mul (Decimal_from (deposited_amount c)) withdraw_pct) (\<lambda>w.
             and_then (try_floor_u64 w) (\<lambda>f.
               Inr \<lparr> cl_settle_amount = ol_borrowed_amount_wads l, cl_repay_amount = repaid,
                     cl_withdraw_amount = max f 1 \<rparr>)))))"

definition liquidate_part ::
  "obligation \<Rightarrow> obligation_liquidity \<Rightarrow> obligation_collateral \<Rightarrow> decimal \<Rightarrow> decimal
     \<Rightarrow> program_error + calculate_liquidation_result" where
  "liquidate_part ob l c bonus_rate max_amount =
     and_then (max_liquidation_amount ob l) (\<lambda>m.
       let liquidation_amount = min m max_amount
       in and_then (try_div liquidation_amount (ol_borrowed_amount_wads l)) (\<lambda>pct.
          and_then (try_mul (ol_market_value l) pct) (\<lambda>v.
          and_then (try_mul v bonus_rate) (\<lambda>liquidation_value.
            if liquidation_value > oc_market_value c
            then take_all_reduced c liquidation_amount liquidation_value
            else if liquidation_value = oc_market_value c then take_all c liquidation_amount
            else
              and_then (try_div liquidation_value (oc_market_value c)) (\<lambda>withdraw_pct.
              and_then (try_ceil_u64 liquidation_amount) (\<lambda>repaid.
              and_then (try_mul (Decimal_from (deposited_amount c)) withdraw_pct) (\<lambda>w.
              and_then (try_floor_u64 w) (\<lambda>f.
                Inr \<lparr> cl_settle_amount = liquidation_amount, cl_repay_amount = repaid,
                      cl_withdraw_amount = f \<rparr>))))))))"

definition calculate_liquidation ::
  "u64 \<Rightarrow> obligation \<Rightarrow> obligation_liquidity \<Rightarrow> obligation_collateral \<Rightarrow> bonus
     \<Rightarrow> program_error + calculate_liquidation_result" where
  "calculate_liquidation amount_to_liquidate ob l c bns =
     (if total_bonus bns > Decimal_from_percent MAX_BONUS_PCT then Inl (Custom InvalidAmount)
      else
        and_then (try_add (total_bonus bns) Decimal_one) (\<lambda>bonus_rate.
        let max_amount = (if amount_to_liquidate = u64_MAX then ol_borrowed_amount_wads l
              else min (Decimal_from amount_to_liquidate) (ol_borrowed_amount_wads l))
        in if ol_market_value l \<le> Decimal_one then liquidate_dust l c bonus_rate
           else liquidate_part ob l c bonus_rate max_amount))"

definition calculate_protocol_liquidation_fee :: "u64 \<Rightarrow> bonus \<Rightarrow> program_error + u64" where
  "calculate_protocol_liquidation_fee amount_liquidated bns =
     (if total_bonus bns > Decimal_from_percent MAX_BONUS_PCT then Inl (Custom InvalidAmount)
      else
        and_then (try_add Decimal_one (total_bonus bns)) (\<lambda>d.
        and_then (try_div (Decimal_from amount_liquidated) d) (\<lambda>nonbonus_amount.
        and_then (try_mul nonbonus_amount (bonus_protocol_fee bns)) (\<lambda>x.
        and_then (try_ceil_u64 x) (\<lambda>n. Inr (max n 1))))))"

end
