(* ===== verification/SolendCodec.thy ===== *)
theory SolendCodec
  imports SolendObligation
begin

text \<open>
  The byte layout of the Save accounts (\<open>Pack\<close> of \<open>rate_limiter.rs\<close>, \<open>lending_market.rs\<close>,
  \<open>obligation.rs\<close>, \<open>reserve.rs\<close>, and the helpers of \<open>state/mod.rs\<close>).  \<open>array_ref!\<close> panics on a
  slice that is too short, so packing returns \<open>panic + bytes\<close> and unpacking
  \<open>panic + (program_error + 'a)\<close>; \<open>array_refs!\<close> cuts an array into consecutive fields and the
  model names a field by its position.  Packing takes the destination's old bytes, because
  padding is left as it was.  The locale \<open>account_codec\<close> is what each layout promises.
\<close>

section \<open>Little-endian integers\<close>

fun le_bytes :: "nat \<Rightarrow> nat \<Rightarrow> bytes" where
  "le_bytes 0 x = []"
| "le_bytes (Suc k) x = of_nat x # le_bytes k (x div 256)"

fun le_val :: "bytes \<Rightarrow> nat" where
  "le_val [] = 0"
| "le_val (b # bs) = unat b + 256 * le_val bs"

definition to_le_bytes :: "'a::len word \<Rightarrow> bytes" where
  "to_le_bytes w = le_bytes (LENGTH('a) div 8) (unat w)"

definition from_le_bytes :: "bytes \<Rightarrow> 'a::len word" where
  "from_le_bytes bs = of_nat (le_val bs)"

lemma length_le_bytes [simp]: "length (le_bytes k x) = k"
  by (induction k arbitrary: x) auto

lemma length_to_le_bytes [simp]: "length (to_le_bytes (w :: 'a::len word)) = LENGTH('a) div 8"
  by (simp add: to_le_bytes_def)

lemma le_val_le_bytes: "le_val (le_bytes k x) = x mod 256 ^ k"
proof (induction k arbitrary: x)
  case 0
  then show ?case by simp
next
  case (Suc k)
  have "unat (of_nat x :: u8) = x mod 256" by (simp add: unat_of_nat take_bit_eq_mod)
  then show ?case
    using Suc by (simp add: mod_mult2_eq algebra_simps)
qed

lemma from_to_le_bytes: "8 dvd LENGTH('a) \<Longrightarrow> from_le_bytes (to_le_bytes w) = (w :: 'a::len word)"
proof -
  assume "8 dvd LENGTH('a)"
  then obtain k where k: "LENGTH('a) = 8 * k" by blast
  have "(256 :: nat) ^ k = (2 ^ 8) ^ k" by simp
  also have "\<dots> = 2 ^ LENGTH('a)" by (simp only: k power_mult)
  finally have "le_val (to_le_bytes w) = unat w" 
    using unat_less_pow [of w] by (simp add: to_le_bytes_def le_val_le_bytes k)
  then show ?thesis by (simp add: from_le_bytes_def of_nat_unat)
qed

lemma le_bytes_le_val: "le_bytes (length bs) (le_val bs) = bs"
proof (induction bs)
  case (Cons b bs)
  have "(unat b + 256 * le_val bs) div 256 = le_val bs" using unat_less_pow [of b] by simp
  moreover have "of_nat (unat b + 256 * le_val bs) = (b :: u8)"
  proof -
    have "(of_nat (256 * le_val bs) :: u8) = 0" by (simp only: word_of_nat_eq_0_iff) simp
    then show ?thesis by (simp only: of_nat_add of_nat_unat ucast_id add_0_right)
  qed
  ultimately show ?case using Cons by simp
qed simp

lemma le_val_less: "le_val bs < 256 ^ length bs"
proof (induction bs)
  case (Cons b bs)
  have "unat b + 256 * le_val bs < 256 * (le_val bs + 1)" using unat_less_pow [of b] by simp
  also have "\<dots> \<le> 256 * 256 ^ length bs" using Cons by (intro mult_le_mono) simp_all
  finally show ?case by simp
qed simp

lemma to_from_le_bytes:
  assumes "LENGTH('w :: len) = 8 * length bs"
  shows "to_le_bytes (from_le_bytes bs :: 'w word) = bs"
proof -
  have "le_val bs < 2 ^ LENGTH('w)" using le_val_less [of bs] by (simp add: assms power_mult)
  then have "unat (of_nat (le_val bs) :: 'w word) = le_val bs" by (simp add: unat_of_nat)
  then show ?thesis using assms le_bytes_le_val [of bs] by (simp add: to_le_bytes_def from_le_bytes_def)
qed

section \<open>Cutting arrays into fields\<close>

definition array_ref :: "nat \<Rightarrow> bytes \<Rightarrow> panic + bytes" where
  "array_ref n src = (if n \<le> length src then Inr (take n src) else Inl Panic)"

fun array_refs :: "nat list \<Rightarrow> bytes \<Rightarrow> bytes list" where
  "array_refs [] bs = []"
| "array_refs (n # ns) bs = take n bs # array_refs ns (drop n bs)"

lemma array_refs_concat: "map length fs = ns \<Longrightarrow> array_refs ns (concat fs @ rest) = fs"
  by (induction fs arbitrary: ns) auto

lemma array_refs_concat': "map length fs = ns \<Longrightarrow> array_refs ns (concat fs) = fs"
  using array_refs_concat [of fs ns "[]"] by simp

lemma length_concat_fields: "map length fs = ns \<Longrightarrow> length (concat fs) = sum_list ns"
  by (simp add: length_concat)

lemma array_ref_concat:
  "map length fs = ns \<Longrightarrow> sum_list ns = n \<Longrightarrow> array_ref n (concat fs @ rest) = Inr (concat fs)"
  by (simp add: array_ref_def length_concat)

declare array_refs.simps [simp del]

text \<open>Reading the fields of an array that was written as their concatenation.\<close>

lemma read_fields:
  assumes "map length fs = ns" and "sum_list ns = n"
  shows "and_then (array_ref n (concat fs @ rest)) (\<lambda>s. K (array_refs ns s)) = K fs"
  by (simp only: array_ref_concat [OF assms] and_then_simps array_refs_concat' [OF assms(1)])

section \<open>Helpers of state/mod.rs\<close>

definition pack_decimal :: "decimal \<Rightarrow> panic + bytes" where
  "pack_decimal d = (case to_scaled_val d of Inl _ \<Rightarrow> Inl Panic | Inr v \<Rightarrow> Inr (to_le_bytes v))"

definition unpack_decimal :: "bytes \<Rightarrow> decimal" where
  "unpack_decimal src = from_scaled_val (from_le_bytes src)"

definition pack_bool :: "bool \<Rightarrow> bytes" where
  "pack_bool b = [if b then 1 else 0]"

definition unpack_bool :: "bytes \<Rightarrow> program_error + bool" where
  "unpack_bool src =
     (let n = from_le_bytes src :: u8
      in if n = 0 then Inr False else if n = 1 then Inr True else Inl InvalidAccountData)"

definition fits :: "decimal \<Rightarrow> bool" where
  "fits d \<longleftrightarrow> dv d < 2 ^ 128"

lemma pack_decimal_ok: "fits d \<Longrightarrow> \<exists>bs. pack_decimal d = Inr bs"
  by (simp add: pack_decimal_def to_scaled_val_def try_narrow_def fits_def)

lemma pack_decimal_Inr:
  assumes "pack_decimal d = Inr bs"
  shows "length bs = 16" and "unpack_decimal bs = d" and "fits d"
proof -
  from assms obtain v where v: "to_scaled_val d = Inr v" and bs: "bs = to_le_bytes v"
    by (auto simp: pack_decimal_def split: sum.splits)
  show "length bs = 16" by (simp add: bs)
  have u: "unat v = dv d" using v by (simp add: to_scaled_val_iff)
  show "unpack_decimal bs = d"
    by (simp add: unpack_decimal_def bs from_to_le_bytes dec_eq_iff u)
  show "fits d" using unat_less_pow [of v] by (simp add: fits_def u)
qed

lemma pack_bool_simps [simp]: "length (pack_bool b) = 1" "unpack_bool (pack_bool b) = Inr b"
  by (simp_all add: pack_bool_def unpack_bool_def from_le_bytes_def)

lemma le_roundtrip [simp]:
  "from_le_bytes (to_le_bytes (w8 :: u8)) = w8"
  "from_le_bytes (to_le_bytes (w64 :: u64)) = w64"
  "from_le_bytes (to_le_bytes (w128 :: u128)) = w128"
  by (simp_all add: from_to_le_bytes)

section \<open>The contract of an account layout\<close>

locale account_codec =
  fixes len :: nat
    and valid :: "'a \<Rightarrow> bool"
    and pack :: "'a \<Rightarrow> bytes \<Rightarrow> panic + bytes"
    and unpack :: "bytes \<Rightarrow> panic + (program_error + 'a)"
  assumes pack_ok: "valid a \<Longrightarrow> len \<le> length dst \<Longrightarrow> \<exists>out. pack a dst = Inr out"
    and pack_length: "valid a \<Longrightarrow> pack a dst = Inr out \<Longrightarrow> length out = length dst"
    and unpack_short: "length src < len \<Longrightarrow> unpack src = Inl Panic"
    and unpack_pack: "valid a \<Longrightarrow> pack a dst = Inr out \<Longrightarrow> unpack out = Inr (Inr a)"
begin

lemma pack_injective: "valid a \<Longrightarrow> valid b \<Longrightarrow> pack a d = Inr out \<Longrightarrow> pack b d' = Inr out \<Longrightarrow> a = b"
  by (metis Inr_inject unpack_pack)

lemma overwrite:
  assumes "valid a" and "valid b" and "pack a dst = Inr out" and "len \<le> length dst"
  shows "\<exists>out'. pack b out = Inr out' \<and> length out' = length dst \<and> unpack out' = Inr (Inr b)"
  by (metis assms pack_length pack_ok unpack_pack)

lemma store_load:
  assumes "valid a" and "len \<le> length dst"
  shows "\<exists>out. pack a dst = Inr out \<and> length out = length dst \<and> unpack out = Inr (Inr a)"
  by (metis assms pack_length pack_ok unpack_pack)

end

section \<open>Rate limiter\<close>

definition RATE_LIMITER_LEN :: nat where "RATE_LIMITER_LEN = 56"

definition rl_pack :: "rate_limiter \<Rightarrow> bytes \<Rightarrow> panic + bytes" where
  "rl_pack rl dst =
     and_then (array_ref RATE_LIMITER_LEN dst) (\<lambda>_.
     and_then (pack_decimal (prev_qty rl)) (\<lambda>prev.
     and_then (pack_decimal (cur_qty rl)) (\<lambda>cur.
       Inr (concat [to_le_bytes (max_outflow (rl_config rl)), to_le_bytes (window_duration (rl_config rl)),
          prev, to_le_bytes (window_start rl), cur] @ drop RATE_LIMITER_LEN dst))))"

definition rl_unpack :: "bytes \<Rightarrow> panic + (program_error + rate_limiter)" where
  "rl_unpack src =
     and_then (array_ref RATE_LIMITER_LEN src) (\<lambda>src.
       let f = array_refs [8, 8, 16, 8, 16] src
       in Inr (Inr \<lparr> rl_config = \<lparr> window_duration = from_le_bytes (f ! 1), max_outflow = from_le_bytes (f ! 0) \<rparr>,
            prev_qty = unpack_decimal (f ! 2), window_start = from_le_bytes (f ! 3),
            cur_qty = unpack_decimal (f ! 4) \<rparr>))"

definition rl_valid :: "rate_limiter \<Rightarrow> bool" where
  "rl_valid rl \<longleftrightarrow> fits (prev_qty rl) \<and> fits (cur_qty rl)"

lemma rl_pack_fields:
  assumes "rl_pack rl dst = Inr out"
  shows "\<exists>p c. pack_decimal (prev_qty rl) = Inr p \<and> pack_decimal (cur_qty rl) = Inr c \<and>
     RATE_LIMITER_LEN \<le> length dst \<and>
     out = concat [to_le_bytes (max_outflow (rl_config rl)), to_le_bytes (window_duration (rl_config rl)),
          p, to_le_bytes (window_start rl), c] @ drop RATE_LIMITER_LEN dst"
  using assms by (auto simp: rl_pack_def and_then_Inr_iff array_ref_def split: if_splits)

interpretation rl_codec: account_codec RATE_LIMITER_LEN rl_valid rl_pack rl_unpack
proof unfold_locales
  fix a and dst :: bytes
  assume "rl_valid a" "RATE_LIMITER_LEN \<le> length dst"
  then show "\<exists>out. rl_pack a dst = Inr out"
    using pack_decimal_ok [of "prev_qty a"] pack_decimal_ok [of "cur_qty a"]
    by (auto simp: rl_valid_def rl_pack_def array_ref_def)
next
  fix a dst out
  assume p: "rl_pack a dst = Inr out"
  from rl_pack_fields [OF p] show "length out = length dst"
    by (auto dest!: pack_decimal_Inr(1) simp: RATE_LIMITER_LEN_def)
  from rl_pack_fields [OF p] obtain p c where pc: "pack_decimal (prev_qty a) = Inr p" "pack_decimal (cur_qty a) = Inr c"
    and out: "out = concat [to_le_bytes (max_outflow (rl_config a)), to_le_bytes (window_duration (rl_config a)),
          p, to_le_bytes (window_start a), c] @ drop RATE_LIMITER_LEN dst" by blast
  let ?fs = "[to_le_bytes (max_outflow (rl_config a)), to_le_bytes (window_duration (rl_config a)),
          p, to_le_bytes (window_start a), c]"
  have len: "map length ?fs = [8, 8, 16, 8, 16]" using pc by (simp add: pack_decimal_Inr(1))
  show "rl_unpack out = Inr (Inr a)"
    unfolding rl_unpack_def out Let_def
    by (subst read_fields [OF len]) (simp_all add: RATE_LIMITER_LEN_def pack_decimal_Inr(2) pc)
next
  fix src :: bytes
  assume "length src < RATE_LIMITER_LEN"
  then show "rl_unpack src = Inl Panic" by (simp add: rl_unpack_def array_ref_def)
qed

end
