(* ===== verification/SolendMarket.thy ===== *)
theory SolendMarket
  imports SolendCodec
begin

text \<open>
  \<open>patches/solend-sdk/src/state/lending_market.rs\<close>: the lending market account, its
  initialisation and its byte layout, with the layout contract \<open>account_codec\<close>.
\<close>

record lending_market =
  lm_version :: u8
  bump_seed :: u8
  lm_owner :: pubkey
  quote_currency :: bytes
  token_program_id :: pubkey
  oracle_program_id :: pubkey
  switchboard_oracle_program_id :: pubkey
  lm_rate_limiter :: rate_limiter
  whitelisted_liquidator :: "pubkey option"
  risk_authority :: pubkey

record init_lending_market_params =
  ilm_bump_seed :: u8
  ilm_owner :: pubkey
  ilm_quote_currency :: bytes
  ilm_token_program_id :: pubkey
  ilm_oracle_program_id :: pubkey
  ilm_switchboard_oracle_program_id :: pubkey

definition lending_market_init :: "lending_market \<Rightarrow> init_lending_market_params \<Rightarrow> lending_market" where
  "lending_market_init m p = m\<lparr>
     lm_version := PROGRAM_VERSION, bump_seed := ilm_bump_seed p, lm_owner := ilm_owner p,
     quote_currency := ilm_quote_currency p, token_program_id := ilm_token_program_id p,
     oracle_program_id := ilm_oracle_program_id p,
     switchboard_oracle_program_id := ilm_switchboard_oracle_program_id p,
     lm_rate_limiter := rate_limiter_default, whitelisted_liquidator := None,
     risk_authority := ilm_owner p \<rparr>"

definition lending_market_default :: lending_market where
  "lending_market_default = \<lparr>
     lm_version = 0, bump_seed = 0, lm_owner = Pubkey_default, quote_currency = replicate 32 0,
     token_program_id = Pubkey_default, oracle_program_id = Pubkey_default,
     switchboard_oracle_program_id = Pubkey_default, lm_rate_limiter = rate_limiter_default,
     whitelisted_liquidator = None, risk_authority = Pubkey_default \<rparr>"

definition lending_market_new :: "init_lending_market_params \<Rightarrow> lending_market" where
  "lending_market_new p = lending_market_init lending_market_default p"

definition lm_is_initialized :: "lending_market \<Rightarrow> bool" where
  "lm_is_initialized m \<longleftrightarrow> lm_version m \<noteq> UNINITIALIZED_VERSION"

definition LENDING_MARKET_LEN :: nat where "LENDING_MARKET_LEN = 290"

text \<open>An optional key is packed as 32 zero bytes when absent.\<close>

definition pack_key_option :: "pubkey option \<Rightarrow> bytes" where
  "pack_key_option k = (case k of Some pk \<Rightarrow> pk | None \<Rightarrow> replicate 32 0)"

definition unpack_key_option :: "bytes \<Rightarrow> pubkey option" where
  "unpack_key_option bs = (if bs = replicate 32 0 then None else Some bs)"

definition lm_pack :: "lending_market \<Rightarrow> bytes \<Rightarrow> panic + bytes" where
  "lm_pack m dst =
     and_then (array_ref LENDING_MARKET_LEN dst) (\<lambda>old.
     let f = array_refs [1, 1, 32, 32, 32, 32, 32, RATE_LIMITER_LEN, 32, 32, 8] old
     in and_then (rl_pack (lm_rate_limiter m) (f ! 7)) (\<lambda>rl.
       Inr (concat [to_le_bytes (lm_version m), to_le_bytes (bump_seed m), lm_owner m, quote_currency m,
          token_program_id m, oracle_program_id m, switchboard_oracle_program_id m, rl,
          pack_key_option (whitelisted_liquidator m), risk_authority m, f ! 10]
          @ drop LENDING_MARKET_LEN dst)))"

definition lm_unpack :: "bytes \<Rightarrow> panic + (program_error + lending_market)" where
  "lm_unpack src =
     and_then (array_ref LENDING_MARKET_LEN src) (\<lambda>input.
     let f = array_refs [1, 1, 32, 32, 32, 32, 32, RATE_LIMITER_LEN, 32, 32, 8] input;
         version = from_le_bytes (f ! 0) :: u8
     in if version > PROGRAM_VERSION then Inr (Inl InvalidAccountData)
        else and_then (rl_unpack (f ! 7)) (\<lambda>rl_res.
          Inr (and_then rl_res (\<lambda>rl.
            Inr \<lparr> lm_version = version, bump_seed = from_le_bytes (f ! 1), lm_owner = f ! 2,
                  quote_currency = f ! 3, token_program_id = f ! 4, oracle_program_id = f ! 5,
                  switchboard_oracle_program_id = f ! 6, lm_rate_limiter = rl,
                  whitelisted_liquidator = unpack_key_option (f ! 8),
                  risk_authority = (if f ! 9 = replicate 32 0 then f ! 2 else f ! 9) \<rparr>))))"

text \<open>
  What the layout can represent: keys of 32 bytes, a version the program knows, quantities
  that fit, and no all-zero key where zero means absent.
\<close>

definition lm_valid :: "lending_market \<Rightarrow> bool" where
  "lm_valid m \<longleftrightarrow> lm_version m \<le> PROGRAM_VERSION \<and> length (lm_owner m) = 32 \<and>
     length (quote_currency m) = 32 \<and> length (token_program_id m) = 32 \<and>
     length (oracle_program_id m) = 32 \<and> length (switchboard_oracle_program_id m) = 32 \<and>
     rl_valid (lm_rate_limiter m) \<and> length (risk_authority m) = 32 \<and>
     risk_authority m \<noteq> replicate 32 0 \<and>
     (case whitelisted_liquidator m of None \<Rightarrow> True | Some k \<Rightarrow> length k = 32 \<and> k \<noteq> replicate 32 0)"

lemma length_array_refs [simp]: "length (array_refs ns bs) = length ns"
  by (induction ns arbitrary: bs) (auto simp: array_refs.simps)

lemma lengths_array_refs: "sum_list ns \<le> length bs \<Longrightarrow> map length (array_refs ns bs) = ns"
  by (induction ns arbitrary: bs) (auto simp: array_refs.simps)

lemma length_array_ref_nth:
  "array_ref n bs = Inr old \<Longrightarrow> sum_list ns = n \<Longrightarrow> k < length ns \<Longrightarrow> length (array_refs ns old ! k) = ns ! k"
  using lengths_array_refs [of ns old]
  by (metis array_ref_def length_array_refs length_take min.absorb2 nth_map order_refl old.sum.distinct(1)
      sum.inject(2))

lemma key_option_roundtrip:
  "(case k of None \<Rightarrow> True | Some pk \<Rightarrow> length pk = 32 \<and> pk \<noteq> replicate 32 0) \<Longrightarrow>
     length (pack_key_option k) = 32 \<and> unpack_key_option (pack_key_option k) = k"
  by (auto simp: pack_key_option_def unpack_key_option_def split: option.splits)

lemma lm_pack_cases:
  assumes "lm_pack m dst = Inr out"
  obtains old rl pad where "array_ref LENDING_MARKET_LEN dst = Inr old" "length pad = 8"
    "rl_pack (lm_rate_limiter m) (array_refs [1, 1, 32, 32, 32, 32, 32, RATE_LIMITER_LEN, 32, 32, 8] old ! 7) = Inr rl"
    "out = concat [to_le_bytes (lm_version m), to_le_bytes (bump_seed m), lm_owner m, quote_currency m,
          token_program_id m, oracle_program_id m, switchboard_oracle_program_id m, rl,
          pack_key_option (whitelisted_liquidator m), risk_authority m, pad] @ drop LENDING_MARKET_LEN dst"
proof -
  let ?ns = "[1, 1, 32, 32, 32, 32, 32, RATE_LIMITER_LEN, 32, 32, 8]"
  from assms obtain old rl where old: "array_ref LENDING_MARKET_LEN dst = Inr old" and
    rl: "rl_pack (lm_rate_limiter m) (array_refs ?ns old ! 7) = Inr rl" and
    out: "out = concat [to_le_bytes (lm_version m), to_le_bytes (bump_seed m), lm_owner m, quote_currency m,
          token_program_id m, oracle_program_id m, switchboard_oracle_program_id m, rl,
          pack_key_option (whitelisted_liquidator m), risk_authority m, array_refs ?ns old ! 10]
          @ drop LENDING_MARKET_LEN dst"
    unfolding lm_pack_def and_then_Inr_iff Let_def by blast
  have "length (array_refs ?ns old ! 10) = 8"
    using length_array_ref_nth [OF old, of ?ns 10]
    by (simp add: LENDING_MARKET_LEN_def RATE_LIMITER_LEN_def)
  with old rl out that show thesis by blast
qed

interpretation lm_codec: account_codec LENDING_MARKET_LEN lm_valid lm_pack lm_unpack
proof unfold_locales
  fix a and dst :: bytes
  let ?ns = "[1, 1, 32, 32, 32, 32, 32, RATE_LIMITER_LEN, 32, 32, 8]"
  assume v: "lm_valid a" and l: "LENDING_MARKET_LEN \<le> length dst"
  obtain old where old: "array_ref LENDING_MARKET_LEN dst = Inr old" using l by (simp add: array_ref_def)
  have "RATE_LIMITER_LEN \<le> length (array_refs ?ns old ! 7)"
    using length_array_ref_nth [OF old, of ?ns 7] by (simp add: LENDING_MARKET_LEN_def RATE_LIMITER_LEN_def)
  then obtain rl where "rl_pack (lm_rate_limiter a) (array_refs ?ns old ! 7) = Inr rl"
    using rl_codec.pack_ok v by (auto simp: lm_valid_def)
  with old show "\<exists>out. lm_pack a dst = Inr out" by (simp add: lm_pack_def Let_def)
next
  fix a and dst out :: bytes
  let ?ns = "[1, 1, 32, 32, 32, 32, 32, RATE_LIMITER_LEN, 32, 32, 8]"
  assume v: "lm_valid a" and p: "lm_pack a dst = Inr out"
  obtain old rl pad where old: "array_ref LENDING_MARKET_LEN dst = Inr old" and pad: "length pad = 8"
    and rl: "rl_pack (lm_rate_limiter a) (array_refs ?ns old ! 7) = Inr rl"
    and out: "out = concat [to_le_bytes (lm_version a), to_le_bytes (bump_seed a), lm_owner a, quote_currency a,
          token_program_id a, oracle_program_id a, switchboard_oracle_program_id a, rl,
          pack_key_option (whitelisted_liquidator a), risk_authority a, pad] @ drop LENDING_MARKET_LEN dst"
    using p by (rule lm_pack_cases)
  let ?fs = "[to_le_bytes (lm_version a), to_le_bytes (bump_seed a), lm_owner a, quote_currency a,
          token_program_id a, oracle_program_id a, switchboard_oracle_program_id a, rl,
          pack_key_option (whitelisted_liquidator a), risk_authority a, pad]"
  have rv: "rl_valid (lm_rate_limiter a)" using v by (simp add: lm_valid_def)
  have wl: "length (pack_key_option (whitelisted_liquidator a)) = 32"
    "unpack_key_option (pack_key_option (whitelisted_liquidator a)) = whitelisted_liquidator a"
    using key_option_roundtrip v unfolding lm_valid_def by blast+
  have "length rl = RATE_LIMITER_LEN"
    using rl_codec.pack_length [OF rv rl] length_array_ref_nth [OF old, of ?ns 7]
    by (simp add: LENDING_MARKET_LEN_def RATE_LIMITER_LEN_def)
  then have len: "map length ?fs = ?ns" using v wl pad by (simp add: lm_valid_def)
  have tot: "sum_list ?ns = LENDING_MARKET_LEN" by (simp add: LENDING_MARKET_LEN_def RATE_LIMITER_LEN_def)
  have "LENDING_MARKET_LEN \<le> length dst" using old by (simp add: array_ref_def split: if_splits)
  then show "length out = length dst"
    unfolding out using length_concat_fields [OF len] tot by simp
  show "lm_unpack out = Inr (Inr a)"
    unfolding lm_unpack_def out Let_def
    by (subst read_fields [OF len tot])
       (use v in \<open>simp add: wl rl_codec.unpack_pack [OF rv rl] lm_valid_def not_less\<close>)
next
  fix src :: bytes
  assume "length src < LENDING_MARKET_LEN"
  then show "lm_unpack src = Inl Panic" by (simp add: lm_unpack_def array_ref_def)
qed

end
