(* ===== verification/SolendReserveCodec.thy ===== *)
theory SolendReserveCodec
  imports SolendMarket
begin

text \<open>
  The byte layout of \<open>Reserve\<close> (\<open>impl Pack for Reserve\<close> of
  \<open>patches/solend-sdk/src/state/reserve.rs\<close>): 48 fields in 619 bytes.  Unpacking clamps the
  limits that older account versions left at zero, refuses a newer version, a bad flag or a
  bad boolean with an error, and panics on a buffer that is too short or on an unknown
  reserve type.
\<close>

definition RESERVE_LEN :: nat where "RESERVE_LEN = 619"

definition reserve_sizes :: "nat list" where
  "reserve_sizes = [1, 8, 1, 32, 32, 1, 32, 32, 32, 8, 16, 16, 16, 32, 8, 32, 1, 1, 1, 1, 1, 1, 1,
     8, 8, 1, 8, 8, 32, 1, 1, 16, RATE_LIMITER_LEN, 8, 16, 1, 1, 8, 1, 1, 8, 32, 1, 16, 16, 8, 8, 49]"

definition reserve_type_code :: "reserve_type \<Rightarrow> u8" where
  "reserve_type_code t = (case t of Regular \<Rightarrow> 0 | Isolated \<Rightarrow> 1)"

definition reserve_type_from_u8 :: "u8 \<Rightarrow> reserve_type option" where
  "reserve_type_from_u8 n = (if n = 0 then Some Regular else if n = 1 then Some Isolated else None)"

text \<open>Packing the optional extra price writes a flag and a decimal, zero when absent.\<close>

definition extra_price_flag :: "decimal option \<Rightarrow> bytes" where
  "extra_price_flag p = [case p of Some _ \<Rightarrow> 1 | None \<Rightarrow> 0]"

definition extra_price_decimal :: "decimal option \<Rightarrow> decimal" where
  "extra_price_decimal p = (case p of Some d \<Rightarrow> d | None \<Rightarrow> Decimal_zero)"

text \<open>The fields in layout order; the arguments are the parts that packing computes.\<close>

definition reserve_fields ::
  "solend_reserve \<Rightarrow> bytes \<Rightarrow> bytes \<Rightarrow> bytes \<Rightarrow> bytes \<Rightarrow> bytes \<Rightarrow> bytes \<Rightarrow> bytes \<Rightarrow> bytes \<Rightarrow> bytes \<Rightarrow> bytes list" where
  "reserve_fields r borrowed cumulative acc_fees price smoothed extra rl attributed pad =
     (let l = liquidity r; c = res_config r in
     [to_le_bytes (res_version r), to_le_bytes (lu_slot (res_last_update r)),
     pack_bool (lu_stale (res_last_update r)), res_lending_market r,
     liq_mint_pubkey l, to_le_bytes (mint_decimals l), liq_supply_pubkey l,
     pyth_oracle_pubkey l, switchboard_oracle_pubkey l, to_le_bytes (available_amount l),
     borrowed, cumulative, price,
     col_mint_pubkey (collateral r), to_le_bytes (mint_total_supply (collateral r)),
     col_supply_pubkey (collateral r),
     to_le_bytes (optimal_utilization_rate c), to_le_bytes (loan_to_value_ratio_pct c),
     to_le_bytes (liquidation_bonus c), to_le_bytes (liquidation_threshold c),
     to_le_bytes (min_borrow_rate c), to_le_bytes (optimal_borrow_rate c),
     to_le_bytes (max_borrow_rate c), to_le_bytes (borrow_fee_wad (fees c)),
     to_le_bytes (flash_loan_fee_wad (fees c)), to_le_bytes (host_fee_percentage (fees c)),
     to_le_bytes (deposit_limit c), to_le_bytes (borrow_limit c), fee_receiver c,
     to_le_bytes (cfg_protocol_liquidation_fee c), to_le_bytes (protocol_take_rate c),
     acc_fees, rl, to_le_bytes (added_borrow_weight_bps c), smoothed,
     to_le_bytes (reserve_type_code (res_type c)), to_le_bytes (max_utilization_rate c),
     to_le_bytes (super_max_borrow_rate c), to_le_bytes (max_liquidation_bonus c),
     to_le_bytes (max_liquidation_threshold c), to_le_bytes (scaled_price_offset_bps c),
     pack_key_option (extra_oracle_pubkey c), extra_price_flag (extra_market_price l), extra,
     attributed, to_le_bytes (attributed_borrow_limit_open c),
     to_le_bytes (attributed_borrow_limit_close c), pad])"

definition reserve_pack :: "solend_reserve \<Rightarrow> bytes \<Rightarrow> panic + bytes" where
  "reserve_pack r dst =
     and_then (array_ref RESERVE_LEN dst) (\<lambda>old.
     let f = array_refs reserve_sizes old; l = liquidity r
     in and_then (pack_decimal (borrowed_amount_wads l)) (\<lambda>borrowed.
        and_then (pack_decimal (cumulative_borrow_rate_wads l)) (\<lambda>cumulative.
        and_then (pack_decimal (accumulated_protocol_fees_wads l)) (\<lambda>acc_fees.
        and_then (pack_decimal (market_price l)) (\<lambda>price.
        and_then (pack_decimal (smoothed_market_price l)) (\<lambda>smoothed.
        and_then (pack_decimal (extra_price_decimal (extra_market_price l))) (\<lambda>extra.
        and_then (rl_pack (res_rate_limiter r) (f ! 32)) (\<lambda>rl.
        and_then (pack_decimal (res_attributed_borrow_value r)) (\<lambda>attributed.
          Inr (concat (reserve_fields r borrowed cumulative acc_fees price smoothed extra rl
                 attributed (f ! 47)) @ drop RESERVE_LEN dst))))))))))"

definition zero_to_max :: "u64 \<Rightarrow> u64" where
  "zero_to_max v = (if v = 0 then u64_MAX else v)"

definition unpack_extra_price :: "bytes \<Rightarrow> bytes \<Rightarrow> program_error + decimal option" where
  "unpack_extra_price flag price =
     (if flag ! 0 = 0 then Inr None
      else if flag ! 0 = 1 then Inr (Some (unpack_decimal price))
      else Inl InvalidAccountData)"

definition unpack_liquidity :: "bytes list \<Rightarrow> decimal option \<Rightarrow> reserve_liquidity" where
  "unpack_liquidity f extra = \<lparr>
     liq_mint_pubkey = f ! 4, mint_decimals = from_le_bytes (f ! 5), liq_supply_pubkey = f ! 6,
     pyth_oracle_pubkey = f ! 7, switchboard_oracle_pubkey = f ! 8,
     available_amount = from_le_bytes (f ! 9), borrowed_amount_wads = unpack_decimal (f ! 10),
     cumulative_borrow_rate_wads = unpack_decimal (f ! 11),
     accumulated_protocol_fees_wads = unpack_decimal (f ! 31),
     market_price = unpack_decimal (f ! 12), smoothed_market_price = unpack_decimal (f ! 34),
     extra_market_price = extra \<rparr>"

definition unpack_config :: "bytes list \<Rightarrow> reserve_type \<Rightarrow> reserve_config" where
  "unpack_config f t =
     (let optimal = from_le_bytes (f ! 16) :: u8; maxb = from_le_bytes (f ! 22) :: u8;
          lb = from_le_bytes (f ! 18) :: u8; thr = from_le_bytes (f ! 19) :: u8
      in \<lparr> optimal_utilization_rate = optimal,
           max_utilization_rate = max optimal (from_le_bytes (f ! 36)),
           loan_to_value_ratio_pct = from_le_bytes (f ! 17),
           liquidation_bonus = lb,
           max_liquidation_bonus = max lb (from_le_bytes (f ! 38)),
           liquidation_threshold = thr,
           max_liquidation_threshold = max thr (from_le_bytes (f ! 39)),
           min_borrow_rate = from_le_bytes (f ! 20),
           optimal_borrow_rate = from_le_bytes (f ! 21),
           max_borrow_rate = maxb,
           super_max_borrow_rate = max (ucast maxb) (from_le_bytes (f ! 37)),
           fees = \<lparr> borrow_fee_wad = from_le_bytes (f ! 23), flash_loan_fee_wad = from_le_bytes (f ! 24),
                    host_fee_percentage = from_le_bytes (f ! 25) \<rparr>,
           deposit_limit = from_le_bytes (f ! 26),
           borrow_limit = from_le_bytes (f ! 27),
           fee_receiver = f ! 28,
           cfg_protocol_liquidation_fee =
             min (from_le_bytes (f ! 29)) MAX_PROTOCOL_LIQUIDATION_FEE_DECA_BPS,
           protocol_take_rate = from_le_bytes (f ! 30),
           added_borrow_weight_bps = from_le_bytes (f ! 33),
           res_type = t,
           scaled_price_offset_bps = from_le_bytes (f ! 40),
           extra_oracle_pubkey = unpack_key_option (f ! 41),
           attributed_borrow_limit_open = zero_to_max (from_le_bytes (f ! 45)),
           attributed_borrow_limit_close = zero_to_max (from_le_bytes (f ! 46)) \<rparr>)"

text \<open>The struct expression is evaluated in field order: the error of \<open>last_update\<close>, then the
  error of the price flag, then the panic of the reserve type.\<close>

definition reserve_unpack :: "bytes \<Rightarrow> panic + (program_error + solend_reserve)" where
  "reserve_unpack src =
     and_then (array_ref RESERVE_LEN src) (\<lambda>input.
     let f = array_refs reserve_sizes input;
         version = from_le_bytes (f ! 0) :: u8
     in if version > PROGRAM_VERSION then Inr (Inl InvalidAccountData)
        else case unpack_bool (f ! 2) of Inl e \<Rightarrow> Inr (Inl e) | Inr stale \<Rightarrow>
         (case unpack_extra_price (f ! 42) (f ! 43) of Inl e \<Rightarrow> Inr (Inl e) | Inr extra \<Rightarrow>
         (case reserve_type_from_u8 (f ! 35 ! 0) of None \<Rightarrow> Inl Panic | Some t \<Rightarrow>
            and_then (rl_unpack (f ! 32)) (\<lambda>rl_res.
              Inr (and_then rl_res (\<lambda>rl.
                Inr \<lparr> res_version = version,
                      res_last_update = \<lparr> lu_slot = from_le_bytes (f ! 1), lu_stale = stale \<rparr>,
                      res_lending_market = f ! 3,
                      liquidity = unpack_liquidity f extra,
                      collateral = \<lparr> col_mint_pubkey = f ! 13, mint_total_supply = from_le_bytes (f ! 14),
                        col_supply_pubkey = f ! 15 \<rparr>,
                      res_config = unpack_config f t,
                      res_rate_limiter = rl,
                      res_attributed_borrow_value = unpack_decimal (f ! 44) \<rparr>))))))"

section \<open>What the layout represents\<close>

definition liquidity_valid :: "reserve_liquidity \<Rightarrow> bool" where
  "liquidity_valid l \<longleftrightarrow>
     length (liq_mint_pubkey l) = 32 \<and> length (liq_supply_pubkey l) = 32 \<and>
     length (pyth_oracle_pubkey l) = 32 \<and> length (switchboard_oracle_pubkey l) = 32 \<and>
     fits (borrowed_amount_wads l) \<and> fits (cumulative_borrow_rate_wads l) \<and>
     fits (accumulated_protocol_fees_wads l) \<and> fits (market_price l) \<and>
     fits (smoothed_market_price l) \<and> fits (extra_price_decimal (extra_market_price l))"

definition config_packable :: "reserve_config \<Rightarrow> bool" where
  "config_packable c \<longleftrightarrow>
     length (fee_receiver c) = 32 \<and> optimal_utilization_rate c \<le> max_utilization_rate c \<and>
     liquidation_bonus c \<le> max_liquidation_bonus c \<and>
     liquidation_threshold c \<le> max_liquidation_threshold c \<and>
     ucast (max_borrow_rate c) \<le> super_max_borrow_rate c \<and>
     cfg_protocol_liquidation_fee c \<le> MAX_PROTOCOL_LIQUIDATION_FEE_DECA_BPS \<and>
     attributed_borrow_limit_open c \<noteq> 0 \<and> attributed_borrow_limit_close c \<noteq> 0 \<and>
     (case extra_oracle_pubkey c of None \<Rightarrow> True | Some k \<Rightarrow> length k = 32 \<and> k \<noteq> replicate 32 0)"

definition reserve_valid :: "solend_reserve \<Rightarrow> bool" where
  "reserve_valid r \<longleftrightarrow>
     res_version r \<le> PROGRAM_VERSION \<and> length (res_lending_market r) = 32 \<and>
     liquidity_valid (liquidity r) \<and> length (col_mint_pubkey (collateral r)) = 32 \<and>
     length (col_supply_pubkey (collateral r)) = 32 \<and> config_packable (res_config r) \<and>
     rl_valid (res_rate_limiter r) \<and> fits (res_attributed_borrow_value r)"

lemma reserve_sizes_sum: "sum_list reserve_sizes = RESERVE_LEN"
  by (simp add: reserve_sizes_def RESERVE_LEN_def RATE_LIMITER_LEN_def)

lemma reserve_sizes_nth: "reserve_sizes ! 32 = RATE_LIMITER_LEN" "reserve_sizes ! 47 = 49"
  "length reserve_sizes = 48"
  by (simp_all add: reserve_sizes_def)

lemma reserve_type_roundtrip: "reserve_type_from_u8 (to_le_bytes (reserve_type_code t) ! 0) = Some t"
  by (cases t) (simp_all add: reserve_type_code_def reserve_type_from_u8_def to_le_bytes_def)

lemma extra_price_roundtrip:
  "pack_decimal (extra_price_decimal p) = Inr bs \<Longrightarrow> unpack_extra_price (extra_price_flag p) bs = Inr p"
  using pack_decimal_Inr(2) [of "extra_price_decimal p" bs]
  by (cases p) (auto simp: unpack_extra_price_def extra_price_flag_def extra_price_decimal_def)

lemma reserve_pack_total:
  assumes v: "reserve_valid r" and l: "RESERVE_LEN \<le> length dst"
  shows "\<exists>out. reserve_pack r dst = Inr out"
proof -
  obtain old where old: "array_ref RESERVE_LEN dst = Inr old" using l by (simp add: array_ref_def)
  have "length (array_refs reserve_sizes old ! 32) = RATE_LIMITER_LEN"
    using length_array_ref_nth [OF old reserve_sizes_sum, of 32] by (simp add: reserve_sizes_nth)
  then obtain rl where "rl_pack (res_rate_limiter r) (array_refs reserve_sizes old ! 32) = Inr rl"
    using rl_codec.pack_ok [of "res_rate_limiter r" "array_refs reserve_sizes old ! 32"] v
    by (auto simp: reserve_valid_def)
  moreover have "\<exists>b. pack_decimal (borrowed_amount_wads (liquidity r)) = Inr b"
    "\<exists>b. pack_decimal (cumulative_borrow_rate_wads (liquidity r)) = Inr b"
    "\<exists>b. pack_decimal (accumulated_protocol_fees_wads (liquidity r)) = Inr b"
    "\<exists>b. pack_decimal (market_price (liquidity r)) = Inr b"
    "\<exists>b. pack_decimal (smoothed_market_price (liquidity r)) = Inr b"
    "\<exists>b. pack_decimal (extra_price_decimal (extra_market_price (liquidity r))) = Inr b"
    "\<exists>b. pack_decimal (res_attributed_borrow_value r) = Inr b"
    using v by (simp_all add: reserve_valid_def liquidity_valid_def pack_decimal_ok)
  ultimately show ?thesis using old by (auto simp: reserve_pack_def Let_def simp del: concat.simps)
qed

lemma reserve_pack_cases:
  assumes "reserve_pack r dst = Inr out"
  obtains borrowed cumulative acc_fees price smoothed extra rl attributed pad old where
    "array_ref RESERVE_LEN dst = Inr old"
    "pack_decimal (borrowed_amount_wads (liquidity r)) = Inr borrowed"
    "pack_decimal (cumulative_borrow_rate_wads (liquidity r)) = Inr cumulative"
    "pack_decimal (accumulated_protocol_fees_wads (liquidity r)) = Inr acc_fees"
    "pack_decimal (market_price (liquidity r)) = Inr price"
    "pack_decimal (smoothed_market_price (liquidity r)) = Inr smoothed"
    "pack_decimal (extra_price_decimal (extra_market_price (liquidity r))) = Inr extra"
    "rl_pack (res_rate_limiter r) (array_refs reserve_sizes old ! 32) = Inr rl"
    "pack_decimal (res_attributed_borrow_value r) = Inr attributed" "length pad = 49"
    "out = concat (reserve_fields r borrowed cumulative acc_fees price smoothed extra rl attributed pad)
       @ drop RESERVE_LEN dst"
proof -
  have pad: "length (array_refs reserve_sizes old ! 47) = 49" if "array_ref RESERVE_LEN dst = Inr old" for old
    using length_array_ref_nth [OF that reserve_sizes_sum, of 47] by (simp add: reserve_sizes_nth)
  show thesis
    using assms that pad unfolding reserve_pack_def and_then_Inr_iff Let_def by blast
qed

lemma unpack_config_fields:
  assumes "config_packable (res_config r)"
  shows "unpack_config (reserve_fields r b cu a p s e rl att pad) (res_type (res_config r)) = res_config r"
proof -
  have "unpack_key_option (pack_key_option (extra_oracle_pubkey (res_config r))) = extra_oracle_pubkey (res_config r)"
    using key_option_roundtrip assms unfolding config_packable_def by blast
  then show ?thesis
    using assms
    by (simp add: unpack_config_def reserve_fields_def Let_def config_packable_def max_absorb2 min_absorb1
        zero_to_max_def)
qed

interpretation reserve_codec: account_codec RESERVE_LEN reserve_valid reserve_pack reserve_unpack
proof unfold_locales
  fix a and dst :: bytes
  assume "reserve_valid a" "RESERVE_LEN \<le> length dst"
  then show "\<exists>out. reserve_pack a dst = Inr out" by (rule reserve_pack_total)
next
  fix r and dst out :: bytes
  assume v: "reserve_valid r" and p: "reserve_pack r dst = Inr out"
  obtain borrowed cumulative acc_fees price smoothed extra rl attributed pad old where
    old: "array_ref RESERVE_LEN dst = Inr old" and
    decs: "pack_decimal (borrowed_amount_wads (liquidity r)) = Inr borrowed"
    "pack_decimal (cumulative_borrow_rate_wads (liquidity r)) = Inr cumulative"
    "pack_decimal (accumulated_protocol_fees_wads (liquidity r)) = Inr acc_fees"
    "pack_decimal (market_price (liquidity r)) = Inr price"
    "pack_decimal (smoothed_market_price (liquidity r)) = Inr smoothed"
    "pack_decimal (extra_price_decimal (extra_market_price (liquidity r))) = Inr extra"
    "pack_decimal (res_attributed_borrow_value r) = Inr attributed" and
    rl: "rl_pack (res_rate_limiter r) (array_refs reserve_sizes old ! 32) = Inr rl" and
    pad: "length pad = 49" and
    out: "out = concat (reserve_fields r borrowed cumulative acc_fees price smoothed extra rl attributed pad)
       @ drop RESERVE_LEN dst"
    using p by (rule reserve_pack_cases)
  let ?fs = "reserve_fields r borrowed cumulative acc_fees price smoothed extra rl attributed pad"
  have rv: "rl_valid (res_rate_limiter r)" and cp: "config_packable (res_config r)"
    using v by (simp_all add: reserve_valid_def)
  have wl: "length (pack_key_option (extra_oracle_pubkey (res_config r))) = 32"
    using key_option_roundtrip cp unfolding config_packable_def by blast
  have "length rl = RATE_LIMITER_LEN"
    using rl_codec.pack_length [OF rv rl] length_array_ref_nth [OF old reserve_sizes_sum, of 32]
    by (simp add: reserve_sizes_nth)
  then have len: "map length ?fs = reserve_sizes"
    using v wl pad decs by (simp add: reserve_fields_def reserve_sizes_def Let_def reserve_valid_def
        liquidity_valid_def config_packable_def pack_decimal_Inr(1) extra_price_flag_def)
  have "RESERVE_LEN \<le> length dst" using old by (simp add: array_ref_def split: if_splits)
  then show "length out = length dst"
    unfolding out using length_concat_fields [OF len] reserve_sizes_sum by simp
  have nths: "?fs ! 0 = to_le_bytes (res_version r)" "?fs ! 2 = pack_bool (lu_stale (res_last_update r))"
    "?fs ! 42 = extra_price_flag (extra_market_price (liquidity r))" "?fs ! 43 = extra"
    "?fs ! 35 = to_le_bytes (reserve_type_code (res_type (res_config r)))" "?fs ! 32 = rl"
    by (simp_all add: reserve_fields_def Let_def)
  have liq: "unpack_liquidity ?fs (extra_market_price (liquidity r)) = liquidity r"
    using decs by (simp add: unpack_liquidity_def reserve_fields_def Let_def pack_decimal_Inr(2))
  have rest: "?fs ! Suc 0 = to_le_bytes (lu_slot (res_last_update r))" "?fs ! 3 = res_lending_market r"
    "?fs ! 13 = col_mint_pubkey (collateral r)" "?fs ! 14 = to_le_bytes (mint_total_supply (collateral r))"
    "?fs ! 15 = col_supply_pubkey (collateral r)" "?fs ! 44 = attributed"
    by (simp_all add: reserve_fields_def Let_def)
  have ver: "\<not> res_version r > PROGRAM_VERSION" using v by (simp add: reserve_valid_def not_less)
  show "reserve_unpack out = Inr (Inr r)"
    unfolding reserve_unpack_def out Let_def
    by (subst read_fields [OF len reserve_sizes_sum])
       (simp add: nths rest liq ver unpack_config_fields [OF cp] reserve_type_roundtrip
        extra_price_roundtrip [OF decs(6)] rl_codec.unpack_pack [OF rv rl] pack_decimal_Inr(2) [OF decs(7)])
next
  fix src :: bytes
  assume "length src < RESERVE_LEN"
  then show "reserve_unpack src = Inl Panic" by (simp add: reserve_unpack_def array_ref_def)
qed

lemma zero_to_max_pos: "zero_to_max v \<noteq> 0"
  by (simp add: zero_to_max_def)

lemma unpack_config_ordered:
  "optimal_utilization_rate (unpack_config f t) \<le> max_utilization_rate (unpack_config f t)"
  "liquidation_bonus (unpack_config f t) \<le> max_liquidation_bonus (unpack_config f t)"
  "liquidation_threshold (unpack_config f t) \<le> max_liquidation_threshold (unpack_config f t)"
  "ucast (max_borrow_rate (unpack_config f t)) \<le> super_max_borrow_rate (unpack_config f t)"
  "cfg_protocol_liquidation_fee (unpack_config f t) \<le> MAX_PROTOCOL_LIQUIDATION_FEE_DECA_BPS"
  "attributed_borrow_limit_open (unpack_config f t) \<noteq> 0"
  "attributed_borrow_limit_close (unpack_config f t) \<noteq> 0"
  by (simp_all add: unpack_config_def Let_def zero_to_max_pos)

section \<open>Properties\<close>

text \<open>
  C37: storing a reserve and loading it again gives it back, whatever bytes the account held
  before and whatever follows it: packing a representable reserve into a buffer of at
  least 619 bytes succeeds, keeps the length of the buffer, and unpacking the result gives
  the reserve.
\<close>
theorem reserve_pack_roundtrip:
  assumes "reserve_valid r" and "RESERVE_LEN \<le> length dst"
  shows "\<exists>out. reserve_pack r dst = Inr out \<and> length out = length dst \<and> reserve_unpack out = Inr (Inr r)"
  using assms by (rule reserve_codec.store_load)

lemma demo_reserve_valid: "reserve_valid demo_reserve"
  by (simp add: reserve_valid_def demo_reserve_def liquidity_valid_def demo_liquidity_def
      reserve_liquidity_new_def config_packable_def demo_config_def rl_valid_def rate_limiter_default_def
      rate_limiter_new_def Let_def fits_def extra_price_decimal_def PROGRAM_VERSION_def
      MAX_PROTOCOL_LIQUIDATION_FEE_DECA_BPS_def wad_def)

theorem reserve_pack_roundtrip_witness:
  "\<exists>out. reserve_pack demo_reserve (replicate 619 0) = Inr out \<and> reserve_unpack out = Inr (Inr demo_reserve)"
proof -
  have "RESERVE_LEN \<le> length (replicate 619 (0 :: u8))" by (simp add: RESERVE_LEN_def)
  from reserve_pack_roundtrip [OF demo_reserve_valid this] show ?thesis by blast
qed

text \<open>A field of the layout by the place of its bytes in the account.\<close>

lemma array_refs_nth:
  "i < length ns \<Longrightarrow> array_refs ns bs ! i = take (ns ! i) (drop (sum_list (take i ns)) bs)"
proof (induction ns arbitrary: bs i)
  case (Cons n ns)
  then show ?case by (cases i) (simp_all add: array_refs.simps add.commute)
qed simp

lemma one_byte: "i < length bs \<Longrightarrow> take 1 (drop i bs) = [bs ! i]"
  by (metis Cons_nth_drop_Suc One_nat_def take0 take_Suc_Cons)

lemma reserve_bytes:
  assumes "RESERVE_LEN \<le> length src"
  defines "f \<equiv> array_refs reserve_sizes (take RESERVE_LEN src)"
  shows "f ! 0 = [src ! 0]" "f ! 2 = [src ! 9]" "f ! 35 = [src ! 469]" "f ! 42 = [src ! 521]"
    and "\<exists>rl. rl_unpack (f ! 32) = Inr (Inr rl)"
proof -
  have len: "length (take RESERVE_LEN src) = 619" using assms(1) by (simp add: RESERVE_LEN_def)
  have at: "take 1 (drop i (take RESERVE_LEN src)) = [src ! i]" if "i < 619" for i
    using one_byte [of i "take RESERVE_LEN src"] len that by (simp add: RESERVE_LEN_def)
  have f: "f ! i = take (reserve_sizes ! i) (drop (sum_list (take i reserve_sizes)) (take RESERVE_LEN src))" if "i < 48" for i
    using that unfolding f_def by (intro array_refs_nth) (simp add: reserve_sizes_nth)
  show "f ! 0 = [src ! 0]" "f ! 2 = [src ! 9]" "f ! 35 = [src ! 469]" "f ! 42 = [src ! 521]"
    using at [of 0] at [of 9] at [of 469] at [of 521] f [of 0] f [of 2] f [of 35] f [of 42]
    by (simp_all add: reserve_sizes_def RATE_LIMITER_LEN_def)
  have "length (f ! 32) = RATE_LIMITER_LEN"
    using f [of 32] len by (simp add: reserve_sizes_def RATE_LIMITER_LEN_def)
  then show "\<exists>rl. rl_unpack (f ! 32) = Inr (Inr rl)" by (simp add: rl_unpack_def array_ref_def Let_def)
qed

lemma from_le_byte: "(from_le_bytes [b] :: u8) = b"
  by (simp add: from_le_bytes_def of_nat_unat)

lemma small_byte: "(b :: u8) \<le> 1 \<longleftrightarrow> b = 0 \<or> b = 1"
  by (auto simp: word_le_nat_alt word_unat_eq_iff)

lemma large_byte: "1 < (b :: u8) \<longleftrightarrow> b \<noteq> 0 \<and> b \<noteq> 1"
  using small_byte [of b] by (auto simp: not_le [symmetric])

text \<open>
  C38: what unpacking a reserve does with any bytes.  It panics exactly when there are fewer than
  619 bytes or when the version, the staleness flag and the price flag are all valid and the reserve
  type, byte 469, is above one; an invalid version or flag is an error; otherwise it returns a
  reserve of the type the byte names, with every clamped limit in order, so that the ordering checks
  of the configuration hold even for accounts written by older versions.
\<close>
theorem reserve_unpack_sanitises:
  "if length src < 619 then reserve_unpack src = Inl Panic
   else if 1 < src ! 0 \<or> 1 < src ! 9 \<or> 1 < src ! 521 then reserve_unpack src = Inr (Inl InvalidAccountData)
   else if 1 < src ! 469 then reserve_unpack src = Inl Panic
   else \<exists>r. reserve_unpack src = Inr (Inr r) \<and> res_version r = src ! 0 \<and>
      res_type (res_config r) = (if src ! 469 = 0 then Regular else Isolated) \<and>
      optimal_utilization_rate (res_config r) \<le> max_utilization_rate (res_config r) \<and>
      liquidation_bonus (res_config r) \<le> max_liquidation_bonus (res_config r) \<and>
      liquidation_threshold (res_config r) \<le> max_liquidation_threshold (res_config r) \<and>
      ucast (max_borrow_rate (res_config r)) \<le> super_max_borrow_rate (res_config r) \<and>
      cfg_protocol_liquidation_fee (res_config r) \<le> MAX_PROTOCOL_LIQUIDATION_FEE_DECA_BPS \<and>
      attributed_borrow_limit_open (res_config r) \<noteq> 0 \<and> attributed_borrow_limit_close (res_config r) \<noteq> 0"
proof (cases "length src < 619")
  case True
  then show ?thesis using reserve_codec.unpack_short [of src] by (simp add: RESERVE_LEN_def)
next
  case False
  then have len: "RESERVE_LEN \<le> length src" by (simp add: RESERVE_LEN_def)
  define f where "f = array_refs reserve_sizes (take RESERVE_LEN src)"
  note b = reserve_bytes [OF len, folded f_def]
  obtain rl where rl: "rl_unpack (f ! 32) = Inr (Inr rl)" using b(5) by blast
  have "array_ref RESERVE_LEN src = Inr (take RESERVE_LEN src)" using len by (simp add: array_ref_def)
  note un = reserve_unpack_def [of src, unfolded this and_then_simps Let_def, folded f_def,
      unfolded b(1-4) rl from_le_byte PROGRAM_VERSION_def]
  note steps = un Let_def unpack_bool_def from_le_byte unpack_extra_price_def reserve_type_from_u8_def
  consider (header) "1 < src ! 0 \<or> 1 < src ! 9 \<or> 1 < src ! 521"
    | (type) "src ! 0 \<le> 1" "src ! 9 \<le> 1" "src ! 521 \<le> 1" "1 < src ! 469"
    | (good) "src ! 0 \<le> 1" "src ! 9 \<le> 1" "src ! 521 \<le> 1" "src ! 469 \<le> 1"
    by (meson not_less)
  then show ?thesis
  proof cases
    case header
    then show ?thesis using False by (auto simp: steps large_byte)
  next
    case type
    then show ?thesis using False by (auto simp: steps small_byte large_byte)
  next
    case good
    have "res_type (unpack_config f t) = t" for t by (simp add: unpack_config_def Let_def)
    with good False show ?thesis by (auto simp: steps small_byte unpack_config_ordered)
  qed
qed

text \<open>An account of zeros is a reserve, the same with the type byte at two panics, with the version at two is an error.\<close>

theorem reserve_unpack_sanitises_witness:
  "reserve_unpack (replicate 100 0) = Inl Panic \<and>
   reserve_unpack ((replicate 619 0)[469 := 2]) = Inl Panic \<and>
   reserve_unpack ((replicate 619 0)[0 := 2, 469 := 2]) = Inr (Inl InvalidAccountData) \<and>
   (\<exists>r. reserve_unpack ((replicate 619 0)[469 := 1]) = Inr (Inr r) \<and> res_type (res_config r) = Isolated)"
  using reserve_unpack_sanitises [of "replicate 100 0"] reserve_unpack_sanitises [of "(replicate 619 0)[469 := 2]"]
    reserve_unpack_sanitises [of "(replicate 619 0)[0 := 2, 469 := 2]"] reserve_unpack_sanitises [of "(replicate 619 0)[469 := 1]"]
  by (auto simp: nth_list_update)

end
