(* ===== verification/SolendInstruction.thy ===== *)
theory SolendInstruction
  imports SolendReserveCodec
begin

text \<open>
  \<open>patches/solend-sdk/src/instruction.rs\<close>: the instruction enumeration, its byte encoding
  \<open>pack\<close> and its decoder \<open>unpack\<close>.  Decoding reads the fields one after the other; a field that
  is missing is an error, and the reserve type of a configuration is unwrapped at the end, so
  an unknown one panics.  Bytes after the last field are ignored.
\<close>

datatype lending_instruction =
    InitLendingMarket pubkey bytes
  | SetLendingMarketOwnerAndConfig pubkey rate_limiter_config "pubkey option" pubkey
  | InitReserve u64 reserve_config
  | RefreshReserve
  | DepositReserveLiquidity u64
  | RedeemReserveCollateral u64
  | InitObligation
  | RefreshObligation
  | DepositObligationCollateral u64
  | WithdrawObligationCollateral u64
  | BorrowObligationLiquidity u64
  | RepayObligationLiquidity u64
  | LiquidateObligation u64
  | FlashLoan u64
  | DepositReserveLiquidityAndObligationCollateral u64
  | WithdrawObligationCollateralAndRedeemReserveCollateral u64
  | UpdateReserveConfig reserve_config rate_limiter_config
  | LiquidateObligationAndRedeemReserveCollateral u64
  | RedeemFees
  | FlashBorrowReserveLiquidity u64
  | FlashRepayReserveLiquidity u64 u8
  | ForgiveDebt u64
  | UpdateMarketMetadata
  | SetObligationCloseabilityStatus bool
  | DonateToReserve u64

section \<open>Reading fields\<close>

abbreviation unpack_error :: program_error where "unpack_error \<equiv> Custom InstructionUnpackError"

definition split_field :: "nat \<Rightarrow> bytes \<Rightarrow> program_error + (bytes \<times> bytes)" where
  "split_field n input = (if length input < n then Inl unpack_error else Inr (take n input, drop n input))"

definition unpack_u64 :: "bytes \<Rightarrow> program_error + (u64 \<times> bytes)" where
  "unpack_u64 input = and_then (split_field 8 input) (\<lambda>(bs, rest). Inr (from_le_bytes bs, rest))"

text \<open>An \<open>i64\<close> is kept as its 64-bit word.\<close>

definition unpack_i64 :: "bytes \<Rightarrow> program_error + (u64 \<times> bytes)" where
  "unpack_i64 input = and_then (split_field 8 input) (\<lambda>(bs, rest). Inr (from_le_bytes bs, rest))"

definition unpack_u8 :: "bytes \<Rightarrow> program_error + (u8 \<times> bytes)" where
  "unpack_u8 input = and_then (split_field 1 input) (\<lambda>(bs, rest). Inr (from_le_bytes bs, rest))"

definition unpack_bytes32 :: "bytes \<Rightarrow> program_error + (bytes \<times> bytes)" where
  "unpack_bytes32 input = split_field 32 input"

definition unpack_pubkey :: "bytes \<Rightarrow> program_error + (pubkey \<times> bytes)" where
  "unpack_pubkey input = split_field 32 input"

definition unpack_option_pubkey :: "bytes \<Rightarrow> program_error + (pubkey option \<times> bytes)" where
  "unpack_option_pubkey input =
     and_then (unpack_u8 input) (\<lambda>(flag, rest).
       if flag = 0 then Inr (None, rest)
       else if flag = 1 then and_then (unpack_pubkey rest) (\<lambda>(k, rest). Inr (Some k, rest))
       else Inl unpack_error)"

text \<open>
  The configuration of tags 2 and 16, up to the unwrap of the reserve type: the result is the
  configuration for a reserve type, the type's byte and the rest.
\<close>

definition unpack_config_fields ::
  "bytes \<Rightarrow> program_error + ((reserve_type \<Rightarrow> reserve_config) \<times> u8 \<times> bytes)" where
  "unpack_config_fields rest =
     and_then (unpack_u8 rest) (\<lambda>(optimal_util, rest).
     and_then (unpack_u8 rest) (\<lambda>(max_util, rest).
     and_then (unpack_u8 rest) (\<lambda>(ltv, rest).
     and_then (unpack_u8 rest) (\<lambda>(liq_bonus, rest).
     and_then (unpack_u8 rest) (\<lambda>(liq_threshold, rest).
     and_then (unpack_u8 rest) (\<lambda>(min_rate, rest).
     and_then (unpack_u8 rest) (\<lambda>(optimal_rate, rest).
     and_then (unpack_u8 rest) (\<lambda>(max_rate, rest).
     and_then (unpack_u64 rest) (\<lambda>(super_max_rate, rest).
     and_then (unpack_u64 rest) (\<lambda>(borrow_fee, rest).
     and_then (unpack_u64 rest) (\<lambda>(flash_fee, rest).
     and_then (unpack_u8 rest) (\<lambda>(host_fee, rest).
     and_then (unpack_u64 rest) (\<lambda>(dep_limit, rest).
     and_then (unpack_u64 rest) (\<lambda>(bor_limit, rest).
     and_then (unpack_pubkey rest) (\<lambda>(receiver, rest).
     and_then (unpack_u8 rest) (\<lambda>(liq_fee, rest).
     and_then (unpack_u8 rest) (\<lambda>(take_rate, rest).
     and_then (unpack_u64 rest) (\<lambda>(weight, rest).
     and_then (unpack_u8 rest) (\<lambda>(asset_type, rest).
     and_then (unpack_u8 rest) (\<lambda>(max_bonus, rest).
     and_then (unpack_u8 rest) (\<lambda>(max_threshold, rest).
     and_then (unpack_i64 rest) (\<lambda>(offset, rest).
     and_then (unpack_option_pubkey rest) (\<lambda>(oracle, rest).
     and_then (unpack_u64 rest) (\<lambda>(limit_open, rest).
     and_then (unpack_u64 rest) (\<lambda>(limit_close, rest).
       Inr (\<lambda>t. \<lparr> optimal_utilization_rate = optimal_util, max_utilization_rate = max_util,
             loan_to_value_ratio_pct = ltv, liquidation_bonus = liq_bonus, max_liquidation_bonus = max_bonus,
             liquidation_threshold = liq_threshold, max_liquidation_threshold = max_threshold,
             min_borrow_rate = min_rate, optimal_borrow_rate = optimal_rate, max_borrow_rate = max_rate,
             super_max_borrow_rate = super_max_rate,
             fees = \<lparr> borrow_fee_wad = borrow_fee, flash_loan_fee_wad = flash_fee, host_fee_percentage = host_fee \<rparr>,
             deposit_limit = dep_limit, borrow_limit = bor_limit, fee_receiver = receiver,
             cfg_protocol_liquidation_fee = liq_fee, protocol_take_rate = take_rate,
             added_borrow_weight_bps = weight, res_type = t, scaled_price_offset_bps = offset,
             extra_oracle_pubkey = oracle, attributed_borrow_limit_open = limit_open,
             attributed_borrow_limit_close = limit_close \<rparr>, asset_type, rest))))))))))))))))))))))))))"

section \<open>unpack\<close>

type_synonym unpacked = "panic + (program_error + lending_instruction)"

definition no_panic :: "program_error + lending_instruction \<Rightarrow> unpacked" where
  "no_panic r = Inr r"

definition with_amount :: "(u64 \<Rightarrow> lending_instruction) \<Rightarrow> bytes \<Rightarrow> unpacked" where
  "with_amount mk rest = no_panic (and_then (unpack_u64 rest) (\<lambda>(amount, _). Inr (mk amount)))"

definition unpack_init_lending_market :: "bytes \<Rightarrow> unpacked" where
  "unpack_init_lending_market rest = no_panic (
     and_then (unpack_pubkey rest) (\<lambda>(own, rest).
     and_then (unpack_bytes32 rest) (\<lambda>(quote, _). Inr (InitLendingMarket own quote))))"

definition unpack_set_market_config :: "bytes \<Rightarrow> unpacked" where
  "unpack_set_market_config rest = no_panic (
     and_then (unpack_pubkey rest) (\<lambda>(new_owner, rest).
     and_then (unpack_u64 rest) (\<lambda>(window, rest).
     and_then (unpack_u64 rest) (\<lambda>(outflow, rest).
     and_then (unpack_option_pubkey rest) (\<lambda>(liquidator, rest).
     and_then (unpack_pubkey rest) (\<lambda>(risk, _).
       Inr (SetLendingMarketOwnerAndConfig new_owner \<lparr> window_duration = window, max_outflow = outflow \<rparr>
              liquidator risk)))))))"

text \<open>The unwrap of \<open>ReserveType::from_u8\<close> comes after the fields have been read.\<close>

definition unwrap_type :: "program_error + ((reserve_type \<Rightarrow> lending_instruction) \<times> u8) \<Rightarrow> unpacked" where
  "unwrap_type r =
     (case r of
        Inl e \<Rightarrow> Inr (Inl e)
      | Inr (mk, asset_type) \<Rightarrow>
          (case reserve_type_from_u8 asset_type of None \<Rightarrow> Inl Panic | Some t \<Rightarrow> Inr (Inr (mk t))))"

definition unpack_init_reserve :: "bytes \<Rightarrow> unpacked" where
  "unpack_init_reserve rest = unwrap_type (
     and_then (unpack_u64 rest) (\<lambda>(amount, rest).
     and_then (unpack_config_fields rest) (\<lambda>(cfg, asset_type, _).
       Inr (\<lambda>t. InitReserve amount (cfg t), asset_type))))"

definition unpack_update_reserve_config :: "bytes \<Rightarrow> unpacked" where
  "unpack_update_reserve_config rest = unwrap_type (
     and_then (unpack_config_fields rest) (\<lambda>(cfg, asset_type, rest).
     and_then (unpack_u64 rest) (\<lambda>(window, rest).
     and_then (unpack_u64 rest) (\<lambda>(outflow, _).
       Inr (\<lambda>t. UpdateReserveConfig (cfg t) \<lparr> window_duration = window, max_outflow = outflow \<rparr>, asset_type)))))"

definition unpack_flash_repay :: "bytes \<Rightarrow> unpacked" where
  "unpack_flash_repay rest = no_panic (
     and_then (unpack_u64 rest) (\<lambda>(amount, rest).
     and_then (unpack_u8 rest) (\<lambda>(index, _). Inr (FlashRepayReserveLiquidity amount index))))"

definition unpack_closeability :: "bytes \<Rightarrow> unpacked" where
  "unpack_closeability rest = no_panic (
     and_then (unpack_u8 rest) (\<lambda>(b, _).
       if b = 0 then Inr (SetObligationCloseabilityStatus False)
       else if b = 1 then Inr (SetObligationCloseabilityStatus True)
       else Inl unpack_error))"

definition unpack_instruction :: "bytes \<Rightarrow> unpacked" where
  "unpack_instruction input =
     (case input of
        [] \<Rightarrow> Inr (Inl unpack_error)
      | tag # rest \<Rightarrow>
          if tag = 0 then unpack_init_lending_market rest
          else if tag = 1 then unpack_set_market_config rest
          else if tag = 2 then unpack_init_reserve rest
          else if tag = 3 then Inr (Inr RefreshReserve)
          else if tag = 4 then with_amount DepositReserveLiquidity rest
          else if tag = 5 then with_amount RedeemReserveCollateral rest
          else if tag = 6 then Inr (Inr InitObligation)
          else if tag = 7 then Inr (Inr RefreshObligation)
          else if tag = 8 then with_amount DepositObligationCollateral rest
          else if tag = 9 then with_amount WithdrawObligationCollateral rest
          else if tag = 10 then with_amount BorrowObligationLiquidity rest
          else if tag = 11 then with_amount RepayObligationLiquidity rest
          else if tag = 12 then with_amount LiquidateObligation rest
          else if tag = 13 then with_amount FlashLoan rest
          else if tag = 14 then with_amount DepositReserveLiquidityAndObligationCollateral rest
          else if tag = 15 then with_amount WithdrawObligationCollateralAndRedeemReserveCollateral rest
          else if tag = 16 then unpack_update_reserve_config rest
          else if tag = 17 then with_amount LiquidateObligationAndRedeemReserveCollateral rest
          else if tag = 18 then Inr (Inr RedeemFees)
          else if tag = 19 then with_amount FlashBorrowReserveLiquidity rest
          else if tag = 20 then unpack_flash_repay rest
          else if tag = 21 then with_amount ForgiveDebt rest
          else if tag = 22 then Inr (Inr UpdateMarketMetadata)
          else if tag = 23 then unpack_closeability rest
          else if tag = 24 then with_amount DonateToReserve rest
          else Inr (Inl unpack_error))"

section \<open>pack\<close>

definition pack_option_pubkey :: "pubkey option \<Rightarrow> bytes" where
  "pack_option_pubkey k = (case k of Some pk \<Rightarrow> 1 # pk | None \<Rightarrow> [0])"

definition pack_config_fields :: "reserve_config \<Rightarrow> bytes" where
  "pack_config_fields c =
     to_le_bytes (optimal_utilization_rate c) @ to_le_bytes (max_utilization_rate c) @
     to_le_bytes (loan_to_value_ratio_pct c) @ to_le_bytes (liquidation_bonus c) @
     to_le_bytes (liquidation_threshold c) @ to_le_bytes (min_borrow_rate c) @
     to_le_bytes (optimal_borrow_rate c) @ to_le_bytes (max_borrow_rate c) @
     to_le_bytes (super_max_borrow_rate c) @ to_le_bytes (borrow_fee_wad (fees c)) @
     to_le_bytes (flash_loan_fee_wad (fees c)) @ to_le_bytes (host_fee_percentage (fees c)) @
     to_le_bytes (deposit_limit c) @ to_le_bytes (borrow_limit c) @ fee_receiver c @
     to_le_bytes (cfg_protocol_liquidation_fee c) @ to_le_bytes (protocol_take_rate c) @
     to_le_bytes (added_borrow_weight_bps c) @ to_le_bytes (reserve_type_code (res_type c)) @
     to_le_bytes (max_liquidation_bonus c) @ to_le_bytes (max_liquidation_threshold c) @
     to_le_bytes (scaled_price_offset_bps c) @ pack_option_pubkey (extra_oracle_pubkey c) @
     to_le_bytes (attributed_borrow_limit_open c) @ to_le_bytes (attributed_borrow_limit_close c)"

definition pack_limiter_config :: "rate_limiter_config \<Rightarrow> bytes" where
  "pack_limiter_config c = to_le_bytes (window_duration c) @ to_le_bytes (max_outflow c)"

fun pack_instruction :: "lending_instruction \<Rightarrow> bytes" where
  "pack_instruction (InitLendingMarket own quote) = 0 # own @ quote"
| "pack_instruction (SetLendingMarketOwnerAndConfig new_owner cfg liquidator risk) =
     1 # new_owner @ pack_limiter_config cfg @ pack_option_pubkey liquidator @ risk"
| "pack_instruction (InitReserve n cfg) = 2 # to_le_bytes n @ pack_config_fields cfg"
| "pack_instruction RefreshReserve = [3]"
| "pack_instruction (DepositReserveLiquidity n) = 4 # to_le_bytes n"
| "pack_instruction (RedeemReserveCollateral n) = 5 # to_le_bytes n"
| "pack_instruction InitObligation = [6]"
| "pack_instruction RefreshObligation = [7]"
| "pack_instruction (DepositObligationCollateral n) = 8 # to_le_bytes n"
| "pack_instruction (WithdrawObligationCollateral n) = 9 # to_le_bytes n"
| "pack_instruction (BorrowObligationLiquidity n) = 10 # to_le_bytes n"
| "pack_instruction (RepayObligationLiquidity n) = 11 # to_le_bytes n"
| "pack_instruction (LiquidateObligation n) = 12 # to_le_bytes n"
| "pack_instruction (FlashLoan n) = 13 # to_le_bytes n"
| "pack_instruction (DepositReserveLiquidityAndObligationCollateral n) = 14 # to_le_bytes n"
| "pack_instruction (WithdrawObligationCollateralAndRedeemReserveCollateral n) = 15 # to_le_bytes n"
| "pack_instruction (UpdateReserveConfig cfg rl) = 16 # pack_config_fields cfg @ pack_limiter_config rl"
| "pack_instruction (LiquidateObligationAndRedeemReserveCollateral n) = 17 # to_le_bytes n"
| "pack_instruction RedeemFees = [18]"
| "pack_instruction (FlashBorrowReserveLiquidity n) = 19 # to_le_bytes n"
| "pack_instruction (FlashRepayReserveLiquidity n index) = 20 # to_le_bytes n @ to_le_bytes index"
| "pack_instruction (ForgiveDebt n) = 21 # to_le_bytes n"
| "pack_instruction UpdateMarketMetadata = []"
| "pack_instruction (SetObligationCloseabilityStatus b) = 23 # to_le_bytes (if b then 1 else 0 :: u8)"
| "pack_instruction (DonateToReserve n) = 24 # to_le_bytes n"

section \<open>Round trip\<close>

named_theorems field_simps_io \<open>reading back a field that was just written\<close>

lemma split_field_append [field_simps_io]: "length bs = n \<Longrightarrow> split_field n (bs @ rest) = Inr (bs, rest)"
  by (simp add: split_field_def)

lemma unpack_words [field_simps_io]:
  "unpack_u64 (to_le_bytes v @ rest) = Inr (v, rest)"
  "unpack_i64 (to_le_bytes v @ rest) = Inr (v, rest)"
  "unpack_u8 (to_le_bytes b @ rest) = Inr (b, rest)"
  by (simp_all add: unpack_u64_def unpack_i64_def unpack_u8_def split_field_append from_to_le_bytes)

lemma unpack_keys [field_simps_io]:
  "length k = 32 \<Longrightarrow> unpack_pubkey (k @ rest) = Inr (k, rest)"
  "length k = 32 \<Longrightarrow> unpack_bytes32 (k @ rest) = Inr (k, rest)"
  by (simp_all add: unpack_pubkey_def unpack_bytes32_def split_field_append)

definition key_option_ok :: "pubkey option \<Rightarrow> bool" where
  "key_option_ok k = (case k of Some pk \<Rightarrow> length pk = 32 | None \<Rightarrow> True)"

lemma unpack_u8_Cons: "unpack_u8 (b # rest) = Inr (b, rest)"
  using unpack_words(3) [of b rest] by (simp add: to_le_bytes_def of_nat_unat)

lemma unpack_option_key [field_simps_io]:
  "key_option_ok k \<Longrightarrow> unpack_option_pubkey (pack_option_pubkey k @ rest) = Inr (k, rest)"
  by (cases k) (simp_all add: unpack_option_pubkey_def pack_option_pubkey_def unpack_u8_Cons key_option_ok_def unpack_keys)

definition config_keys_ok :: "reserve_config \<Rightarrow> bool" where
  "config_keys_ok c \<longleftrightarrow> length (fee_receiver c) = 32 \<and> key_option_ok (extra_oracle_pubkey c)"

lemma unpack_config [field_simps_io]:
  "config_keys_ok c \<Longrightarrow> \<exists>cfg. unpack_config_fields (pack_config_fields c @ rest) =
     Inr (cfg, reserve_type_code (res_type c), rest) \<and> cfg (res_type c) = c"
  unfolding unpack_config_fields_def pack_config_fields_def config_keys_ok_def append_assoc
  by (simp add: field_simps_io)

lemma reserve_type_code_back: "reserve_type_from_u8 (reserve_type_code t) = Some t"
  by (cases t) (simp_all add: reserve_type_code_def reserve_type_from_u8_def)

text \<open>The keys of an instruction are 32 bytes long, and it is not the metadata update.\<close>

fun packable :: "lending_instruction \<Rightarrow> bool" where
  "packable (InitLendingMarket own quote) \<longleftrightarrow> length own = 32 \<and> length quote = 32"
| "packable (SetLendingMarketOwnerAndConfig new_owner cfg liquidator risk) \<longleftrightarrow>
     length new_owner = 32 \<and> key_option_ok liquidator \<and> length risk = 32"
| "packable (InitReserve n cfg) \<longleftrightarrow> config_keys_ok cfg"
| "packable (UpdateReserveConfig cfg rl) \<longleftrightarrow> config_keys_ok cfg"
| "packable UpdateMarketMetadata \<longleftrightarrow> False"
| "packable _ \<longleftrightarrow> True"

lemma with_amount_packed: "with_amount mk (to_le_bytes n @ rest) = Inr (Inr (mk n))"
  by (simp add: with_amount_def no_panic_def unpack_words)

lemma unpack_init_reserve_packed:
  assumes "config_keys_ok cfg"
  shows "unpack_init_reserve (to_le_bytes n @ pack_config_fields cfg @ rest) = Inr (Inr (InitReserve n cfg))"
  using unpack_config [OF assms, of rest]
  by (auto simp: unpack_init_reserve_def unpack_words unwrap_type_def reserve_type_code_back)

lemma unpack_update_reserve_config_packed:
  assumes "config_keys_ok cfg"
  shows "unpack_update_reserve_config (pack_config_fields cfg @ pack_limiter_config rl @ rest) =
     Inr (Inr (UpdateReserveConfig cfg rl))"
  using unpack_config [OF assms, of "pack_limiter_config rl @ rest"]
  by (auto simp: unpack_update_reserve_config_def unpack_words unwrap_type_def reserve_type_code_back
      pack_limiter_config_def)

lemma unpack_pack: "packable i \<Longrightarrow> unpack_instruction (pack_instruction i @ rest) = Inr (Inr i)"
  by (cases i)
     (auto simp: unpack_instruction_def with_amount_packed unpack_init_reserve_packed
      unpack_update_reserve_config_packed [unfolded pack_limiter_config_def append_assoc]
      unpack_init_lending_market_def unpack_set_market_config_def
      unpack_flash_repay_def unpack_closeability_def no_panic_def field_simps_io pack_limiter_config_def)

text \<open>
  C24: Decoding an encoded instruction gives the instruction back, whatever bytes follow it, for
  every instruction of the program but the metadata update, whose encoding is empty; the empty
  input and every tag above 24 are refused with an error.
\<close>

theorem instruction_roundtrip:
  "(packable i \<longrightarrow> unpack_instruction (pack_instruction i @ rest) = Inr (Inr i)) \<and>
   unpack_instruction (pack_instruction UpdateMarketMetadata) = Inr (Inl unpack_error) \<and>
   (24 < tag \<longrightarrow> unpack_instruction (tag # rest) = Inr (Inl unpack_error))"
proof (intro conjI impI)
  assume "packable i"
  then show "unpack_instruction (pack_instruction i @ rest) = Inr (Inr i)" by (rule unpack_pack)
next
  show "unpack_instruction (pack_instruction UpdateMarketMetadata) = Inr (Inl unpack_error)"
    by (simp add: unpack_instruction_def)
next
  assume "24 < tag"
  then have "tag \<noteq> numeral n" if "numeral n \<le> (24 :: u8)" for n using that by auto
  moreover have "tag \<noteq> 0" "tag \<noteq> 1" using \<open>24 < tag\<close> by auto
  ultimately show "unpack_instruction (tag # rest) = Inr (Inl unpack_error)"
    by (simp add: unpack_instruction_def)
qed

theorem instruction_roundtrip_witness:
  "unpack_instruction (pack_instruction (FlashRepayReserveLiquidity 77 2) @ [9, 9]) =
     Inr (Inr (FlashRepayReserveLiquidity 77 2)) \<and>
   unpack_instruction [25] = Inr (Inl unpack_error)"
  using instruction_roundtrip [of "FlashRepayReserveLiquidity 77 2" "[9, 9]" 25] 
    instruction_roundtrip [of RefreshReserve "[]" 25] by simp

section \<open>Decoding is canonical\<close>

text \<open>Reading a field succeeds exactly on inputs that start with its encoding.\<close>

named_theorems field_iffs \<open>when reading a field succeeds\<close>

lemma unpack_word_iffs [field_iffs]:
  "unpack_u64 x = Inr (v, rest) \<longleftrightarrow> x = to_le_bytes v @ rest"
  "unpack_i64 x = Inr (v, rest) \<longleftrightarrow> x = to_le_bytes v @ rest"
  "unpack_u8 x = Inr (b, rest) \<longleftrightarrow> x = to_le_bytes b @ rest"
proof -
  have 8: "unpack_u64 x = Inr (v, rest)" "unpack_i64 x = Inr (v, rest)" if "x = to_le_bytes v @ rest"
    by (simp_all add: that unpack_words)
  have 1: "unpack_u8 x = Inr (b, rest)" if "x = to_le_bytes b @ rest" by (simp add: that unpack_words)
  have "x = to_le_bytes v @ rest" if "unpack_u64 x = Inr (v, rest) \<or> unpack_i64 x = Inr (v, rest)"
    using that to_from_le_bytes [of "take 8 x", where 'w = 64]
    by (auto simp: unpack_u64_def unpack_i64_def split_field_def and_then_Inr_iff split: if_splits)
  with 8 show "unpack_u64 x = Inr (v, rest) \<longleftrightarrow> x = to_le_bytes v @ rest"
    "unpack_i64 x = Inr (v, rest) \<longleftrightarrow> x = to_le_bytes v @ rest" by blast+
  have "x = to_le_bytes b @ rest" if "unpack_u8 x = Inr (b, rest)"
    using that to_from_le_bytes [of "take 1 x", where 'w = 8]
    by (cases x) (auto simp: unpack_u8_def split_field_def and_then_Inr_iff split: if_splits)
  with 1 show "unpack_u8 x = Inr (b, rest) \<longleftrightarrow> x = to_le_bytes b @ rest" by blast
qed

lemma unpack_key_iffs [field_iffs]:
  "unpack_pubkey x = Inr (k, rest) \<longleftrightarrow> length k = 32 \<and> x = k @ rest"
  "unpack_bytes32 x = Inr (k, rest) \<longleftrightarrow> length k = 32 \<and> x = k @ rest"
  by (auto simp: unpack_pubkey_def unpack_bytes32_def split_field_def)

lemma unpack_option_pubkey_iff [field_iffs]:
  "unpack_option_pubkey x = Inr (k, rest) \<longleftrightarrow> key_option_ok k \<and> x = pack_option_pubkey k @ rest"
proof
  assume "unpack_option_pubkey x = Inr (k, rest)"
  then show "key_option_ok k \<and> x = pack_option_pubkey k @ rest"
    by (auto simp: unpack_option_pubkey_def and_then_Inr_iff field_iffs key_option_ok_def pack_option_pubkey_def
        to_le_bytes_def split: if_splits)
qed (simp add: unpack_option_key)

lemma unpack_config_fields_canonical:
  assumes "unpack_config_fields x = Inr (cfg, reserve_type_code t, rest)"
  shows "config_keys_ok (cfg t) \<and> x = pack_config_fields (cfg t) @ rest"
proof -
  have "res_type (cfg t) = t"
    using assms by (auto simp: unpack_config_fields_def and_then_Inr_iff)
  then show ?thesis
    using assms by (auto simp: unpack_config_fields_def and_then_Inr_iff field_iffs config_keys_ok_def pack_config_fields_def)
qed

lemma with_amount_canonical: "with_amount mk x = Inr (Inr i) \<Longrightarrow> \<exists>n rest. i = mk n \<and> x = to_le_bytes n @ rest"
  by (auto simp: with_amount_def no_panic_def and_then_Inr_iff field_iffs)

lemma unwrap_type_Inr:
  "unwrap_type r = Inr (Inr i) \<longleftrightarrow> (\<exists>mk t. r = Inr (mk, reserve_type_code t) \<and> i = mk t)"
proof -
  have "b = reserve_type_code t" if "reserve_type_from_u8 b = Some t" for b t
    using that by (cases t) (auto simp: reserve_type_code_def reserve_type_from_u8_def split: if_splits)
  then have "unwrap_type r = Inr (Inr i) \<Longrightarrow> \<exists>mk t. r = Inr (mk, reserve_type_code t) \<and> i = mk t"
    by (cases r) (fastforce simp: unwrap_type_def split: option.splits)+
  then show ?thesis by (auto simp: unwrap_type_def reserve_type_code_back)
qed

text \<open>The decoders with more than one amount.\<close>

lemma unpack_parts_canonical:
  "unpack_init_lending_market x = Inr (Inr i) \<Longrightarrow> packable i \<and> (\<exists>rest. 0 # x = pack_instruction i @ rest)"
  "unpack_set_market_config x = Inr (Inr i) \<Longrightarrow> packable i \<and> (\<exists>rest. 1 # x = pack_instruction i @ rest)"
  "unpack_init_reserve x = Inr (Inr i) \<Longrightarrow> packable i \<and> (\<exists>rest. 2 # x = pack_instruction i @ rest)"
  "unpack_update_reserve_config x = Inr (Inr i) \<Longrightarrow> packable i \<and> (\<exists>rest. 16 # x = pack_instruction i @ rest)"
  "unpack_flash_repay x = Inr (Inr i) \<Longrightarrow> packable i \<and> (\<exists>rest. 20 # x = pack_instruction i @ rest)"
  "unpack_closeability x = Inr (Inr i) \<Longrightarrow> packable i \<and> (\<exists>rest. 23 # x = pack_instruction i @ rest)"
  by (auto simp: unpack_init_lending_market_def unpack_set_market_config_def unpack_flash_repay_def
      unpack_closeability_def unpack_init_reserve_def unpack_update_reserve_config_def unwrap_type_Inr no_panic_def
      and_then_Inr_iff field_iffs pack_limiter_config_def dest!: unpack_config_fields_canonical split: if_splits)

text \<open>
  C17: Every instruction that the lending program decodes is well-formed, with keys of exactly 32
  bytes, and its data starts with the one encoding of that instruction, so what the
  program executes is exactly what an encoder of the SDK wrote.  The metadata update, which the
  SDK's encoder does not encode, is the one exception.
\<close>

theorem decoded_instruction_wellformed:
  assumes "unpack_instruction data = Inr (Inr i)" and "i \<noteq> UpdateMarketMetadata"
  shows "packable i \<and> (\<exists>rest. data = pack_instruction i @ rest)"
proof -
  obtain tag x where x: "data = tag # x" using assms(1) by (cases data) (auto simp: unpack_instruction_def)
  show ?thesis
    using assms unfolding x
    by (auto simp: unpack_instruction_def dest!: with_amount_canonical unpack_parts_canonical split: if_splits)
qed

theorem decoded_instruction_wellformed_witness:
  "\<exists>rest. [20, 77, 0, 0, 0, 0, 0, 0, 0, 2, 9] = pack_instruction (FlashRepayReserveLiquidity 77 2) @ rest"
proof -
  have "unpack_instruction [20, 77, 0, 0, 0, 0, 0, 0, 0, 2, 9] = Inr (Inr (FlashRepayReserveLiquidity 77 2))"
    by (simp add: unpack_instruction_def unpack_flash_repay_def no_panic_def unpack_u64_def unpack_u8_def split_field_def
        from_le_bytes_def)
  from decoded_instruction_wellformed [OF this] show ?thesis by simp
qed

end
