(* ===== verification/SolendBuilders.thy ===== *)
theory SolendBuilders
  imports SolendInstruction
begin

text \<open>
  The instruction builders of \<open>patches/solend-sdk/src/instruction.rs\<close> and the metadata account
  of \<open>state/lending_market_metadata.rs\<close>.  Program-derived addresses and the well-known keys of
  the chain come from \<open>solana_program\<close> and are the fields of the record \<open>chain\<close>.  The lemmas show
  that what a builder writes is decoded as the instruction it is named after.
\<close>

section \<open>Instructions and accounts\<close>

record account_meta =
  meta_pubkey :: pubkey
  is_signer :: bool
  is_writable :: bool

record instruction =
  ix_program_id :: pubkey
  ix_accounts :: "account_meta list"
  ix_data :: bytes

definition meta_new :: "pubkey \<Rightarrow> bool \<Rightarrow> account_meta" where
  "meta_new k signer = \<lparr> meta_pubkey = k, is_signer = signer, is_writable = True \<rparr>"

definition meta_readonly :: "pubkey \<Rightarrow> bool \<Rightarrow> account_meta" where
  "meta_readonly k signer = \<lparr> meta_pubkey = k, is_signer = signer, is_writable = False \<rparr>"

definition optional_meta :: "(pubkey \<Rightarrow> bool \<Rightarrow> account_meta) \<Rightarrow> pubkey option \<Rightarrow> account_meta list" where
  "optional_meta mk k = (case k of Some pk \<Rightarrow> [mk pk False] | None \<Rightarrow> [])"

record chain =
  find_program_address :: "bytes list \<Rightarrow> pubkey \<Rightarrow> pubkey \<times> u8"
  parse_pubkey :: "string \<Rightarrow> pubkey"
  rent_sysvar :: pubkey
  instructions_sysvar :: pubkey
  token_program :: pubkey
  system_program :: pubkey

text \<open>The authority of a lending market: the address derived from the market's key.\<close>

definition market_authority :: "chain \<Rightarrow> pubkey \<Rightarrow> pubkey \<Rightarrow> pubkey" where
  "market_authority ch market prog = fst (find_program_address ch [take 32 market] prog)"

section \<open>Builders\<close>

definition ix_init_lending_market ::
  "chain \<Rightarrow> pubkey \<Rightarrow> pubkey \<Rightarrow> bytes \<Rightarrow> pubkey \<Rightarrow> pubkey
     \<Rightarrow> pubkey \<Rightarrow> instruction" where
  "ix_init_lending_market ch prog own quote lending_market_pubkey oracle_program switchboard_program =
     \<lparr> ix_program_id = prog,
       ix_accounts = [meta_new lending_market_pubkey False,
       meta_readonly (rent_sysvar ch) False,
       meta_readonly (token_program ch) False,
       meta_readonly oracle_program False,
       meta_readonly switchboard_program False],
       ix_data = pack_instruction (InitLendingMarket own quote) \<rparr>"

definition ix_set_lending_market_owner_and_config ::
  "chain \<Rightarrow> pubkey \<Rightarrow> pubkey \<Rightarrow> pubkey \<Rightarrow> pubkey \<Rightarrow>
     rate_limiter_config \<Rightarrow> pubkey option \<Rightarrow> pubkey \<Rightarrow> instruction" where
  "ix_set_lending_market_owner_and_config ch prog lending_market_pubkey lending_market_owner new_owner
     rate_limiter_config liquidator authority =
     \<lparr> ix_program_id = prog,
       ix_accounts = [meta_new lending_market_pubkey False,
       meta_readonly lending_market_owner True],
       ix_data = pack_instruction (SetLendingMarketOwnerAndConfig new_owner rate_limiter_config liquidator
          authority) \<rparr>"

definition ix_init_reserve ::
  "chain \<Rightarrow> pubkey \<Rightarrow> u64 \<Rightarrow> reserve_config \<Rightarrow> pubkey \<Rightarrow>
     pubkey \<Rightarrow> pubkey \<Rightarrow> pubkey \<Rightarrow> pubkey \<Rightarrow> pubkey \<Rightarrow> pubkey
     \<Rightarrow> pubkey \<Rightarrow> pubkey \<Rightarrow> pubkey \<Rightarrow> pubkey \<Rightarrow> pubkey
     \<Rightarrow> pubkey \<Rightarrow> instruction" where
  "ix_init_reserve ch prog liquidity_amount cfg source_liquidity_pubkey destination_collateral_pubkey reserve_pubkey
     reserve_liquidity_mint_pubkey reserve_liquidity_supply_pubkey reserve_collateral_mint_pubkey
     reserve_collateral_supply_pubkey pyth_product_pubkey pyth_price_pubkey switchboard_feed_pubkey
     lending_market_pubkey lending_market_owner_pubkey user_transfer_authority_pubkey =
     (let lending_market_authority_pubkey = market_authority ch lending_market_pubkey prog
      in \<lparr> ix_program_id = prog,
       ix_accounts = [meta_new source_liquidity_pubkey False,
       meta_new destination_collateral_pubkey False,
       meta_new reserve_pubkey False,
       meta_readonly reserve_liquidity_mint_pubkey False,
       meta_new reserve_liquidity_supply_pubkey False,
       meta_new (fee_receiver cfg) False,
       meta_new reserve_collateral_mint_pubkey False,
       meta_new reserve_collateral_supply_pubkey False,
       meta_readonly pyth_product_pubkey False,
       meta_readonly pyth_price_pubkey False,
       meta_readonly switchboard_feed_pubkey False,
       meta_readonly lending_market_pubkey False,
       meta_readonly lending_market_authority_pubkey False,
       meta_readonly lending_market_owner_pubkey True,
       meta_readonly user_transfer_authority_pubkey True,
       meta_readonly (rent_sysvar ch) False,
       meta_readonly (token_program ch) False] @
       optional_meta meta_readonly (extra_oracle_pubkey cfg),
       ix_data = pack_instruction (InitReserve liquidity_amount cfg) \<rparr>)"

definition ix_refresh_reserve ::
  "chain \<Rightarrow> pubkey \<Rightarrow> pubkey \<Rightarrow> pubkey \<Rightarrow> pubkey \<Rightarrow> pubkey
     option \<Rightarrow> instruction" where
  "ix_refresh_reserve ch prog reserve_pubkey reserve_liquidity_pyth_oracle_pubkey
     reserve_liquidity_switchboard_oracle_pubkey extra_oracle =
     \<lparr> ix_program_id = prog,
       ix_accounts = [meta_new reserve_pubkey False,
       meta_readonly reserve_liquidity_pyth_oracle_pubkey False,
       meta_readonly reserve_liquidity_switchboard_oracle_pubkey False] @
       optional_meta meta_readonly extra_oracle,
       ix_data = pack_instruction RefreshReserve \<rparr>"

definition ix_deposit_reserve_liquidity ::
  "chain \<Rightarrow> pubkey \<Rightarrow> u64 \<Rightarrow> pubkey \<Rightarrow> pubkey \<Rightarrow> pubkey
     \<Rightarrow> pubkey \<Rightarrow> pubkey \<Rightarrow> pubkey \<Rightarrow> pubkey \<Rightarrow> instruction"
     where
  "ix_deposit_reserve_liquidity ch prog liquidity_amount source_liquidity_pubkey destination_collateral_pubkey
     reserve_pubkey reserve_liquidity_supply_pubkey reserve_collateral_mint_pubkey lending_market_pubkey
     user_transfer_authority_pubkey =
     (let lending_market_authority_pubkey = market_authority ch lending_market_pubkey prog
      in \<lparr> ix_program_id = prog,
       ix_accounts = [meta_new source_liquidity_pubkey False,
       meta_new destination_collateral_pubkey False,
       meta_new reserve_pubkey False,
       meta_new reserve_liquidity_supply_pubkey False,
       meta_new reserve_collateral_mint_pubkey False,
       meta_readonly lending_market_pubkey False,
       meta_readonly lending_market_authority_pubkey False,
       meta_readonly user_transfer_authority_pubkey True,
       meta_readonly (token_program ch) False],
       ix_data = pack_instruction (DepositReserveLiquidity liquidity_amount) \<rparr>)"

definition ix_redeem_reserve_collateral ::
  "chain \<Rightarrow> pubkey \<Rightarrow> u64 \<Rightarrow> pubkey \<Rightarrow> pubkey \<Rightarrow> pubkey
     \<Rightarrow> pubkey \<Rightarrow> pubkey \<Rightarrow> pubkey \<Rightarrow> pubkey \<Rightarrow> instruction"
     where
  "ix_redeem_reserve_collateral ch prog collateral_amount source_collateral_pubkey destination_liquidity_pubkey
     reserve_pubkey reserve_collateral_mint_pubkey reserve_liquidity_supply_pubkey lending_market_pubkey
     user_transfer_authority_pubkey =
     (let lending_market_authority_pubkey = market_authority ch lending_market_pubkey prog
      in \<lparr> ix_program_id = prog,
       ix_accounts = [meta_new source_collateral_pubkey False,
       meta_new destination_liquidity_pubkey False,
       meta_new reserve_pubkey False,
       meta_new reserve_collateral_mint_pubkey False,
       meta_new reserve_liquidity_supply_pubkey False,
       meta_new lending_market_pubkey False,
       meta_readonly lending_market_authority_pubkey False,
       meta_readonly user_transfer_authority_pubkey True,
       meta_readonly (token_program ch) False],
       ix_data = pack_instruction (RedeemReserveCollateral collateral_amount) \<rparr>)"

definition ix_init_obligation ::
  "chain \<Rightarrow> pubkey \<Rightarrow> pubkey \<Rightarrow> pubkey \<Rightarrow> pubkey \<Rightarrow>
     instruction" where
  "ix_init_obligation ch prog obligation_pubkey lending_market_pubkey obligation_owner_pubkey =
     \<lparr> ix_program_id = prog,
       ix_accounts = [meta_new obligation_pubkey False,
       meta_readonly lending_market_pubkey False,
       meta_readonly obligation_owner_pubkey True,
       meta_readonly (rent_sysvar ch) False,
       meta_readonly (token_program ch) False],
       ix_data = pack_instruction InitObligation \<rparr>"

definition ix_refresh_obligation ::
  "chain \<Rightarrow> pubkey \<Rightarrow> pubkey \<Rightarrow> pubkey list \<Rightarrow> instruction" where
  "ix_refresh_obligation ch prog obligation_pubkey reserve_pubkeys =
     \<lparr> ix_program_id = prog,
       ix_accounts = [meta_new obligation_pubkey False] @
       map (\<lambda>k. meta_new k False) reserve_pubkeys,
       ix_data = pack_instruction RefreshObligation \<rparr>"

definition ix_deposit_obligation_collateral ::
  "chain \<Rightarrow> pubkey \<Rightarrow> u64 \<Rightarrow> pubkey \<Rightarrow> pubkey \<Rightarrow> pubkey
     \<Rightarrow> pubkey \<Rightarrow> pubkey \<Rightarrow> pubkey \<Rightarrow> pubkey \<Rightarrow> instruction"
     where
  "ix_deposit_obligation_collateral ch prog collateral_amount source_collateral_pubkey destination_collateral_pubkey
     deposit_reserve_pubkey obligation_pubkey lending_market_pubkey obligation_owner_pubkey
     user_transfer_authority_pubkey =
     \<lparr> ix_program_id = prog,
       ix_accounts = [meta_new source_collateral_pubkey False,
       meta_new destination_collateral_pubkey False,
       meta_new deposit_reserve_pubkey False,
       meta_new obligation_pubkey False,
       meta_readonly lending_market_pubkey False,
       meta_readonly obligation_owner_pubkey True,
       meta_readonly user_transfer_authority_pubkey True,
       meta_readonly (token_program ch) False],
       ix_data = pack_instruction (DepositObligationCollateral collateral_amount) \<rparr>"

definition ix_deposit_reserve_liquidity_and_obligation_collateral ::
  "chain \<Rightarrow> pubkey \<Rightarrow> u64 \<Rightarrow> pubkey \<Rightarrow> pubkey \<Rightarrow> pubkey
     \<Rightarrow> pubkey \<Rightarrow> pubkey \<Rightarrow> pubkey \<Rightarrow> pubkey \<Rightarrow> pubkey
     \<Rightarrow> pubkey \<Rightarrow> pubkey \<Rightarrow> pubkey \<Rightarrow> pubkey \<Rightarrow> instruction"
     where
  "ix_deposit_reserve_liquidity_and_obligation_collateral ch prog liquidity_amount source_liquidity_pubkey
     user_collateral_pubkey reserve_pubkey reserve_liquidity_supply_pubkey reserve_collateral_mint_pubkey
     lending_market_pubkey destination_deposit_collateral_pubkey obligation_pubkey obligation_owner_pubkey
     reserve_liquidity_pyth_oracle_pubkey reserve_liquidity_switchboard_oracle_pubkey user_transfer_authority_pubkey
     =
     (let lending_market_authority_pubkey = market_authority ch lending_market_pubkey prog
      in \<lparr> ix_program_id = prog,
       ix_accounts = [meta_new source_liquidity_pubkey False,
       meta_new user_collateral_pubkey False,
       meta_new reserve_pubkey False,
       meta_new reserve_liquidity_supply_pubkey False,
       meta_new reserve_collateral_mint_pubkey False,
       meta_readonly lending_market_pubkey False,
       meta_readonly lending_market_authority_pubkey False,
       meta_new destination_deposit_collateral_pubkey False,
       meta_new obligation_pubkey False,
       meta_new obligation_owner_pubkey True,
       meta_readonly reserve_liquidity_pyth_oracle_pubkey False,
       meta_readonly reserve_liquidity_switchboard_oracle_pubkey False,
       meta_readonly user_transfer_authority_pubkey True,
       meta_readonly (token_program ch) False],
       ix_data = pack_instruction (DepositReserveLiquidityAndObligationCollateral liquidity_amount) \<rparr>)"

definition ix_withdraw_obligation_collateral_and_redeem_reserve_collateral ::
  "chain \<Rightarrow> pubkey \<Rightarrow> u64 \<Rightarrow> pubkey \<Rightarrow> pubkey \<Rightarrow> pubkey
     \<Rightarrow> pubkey \<Rightarrow> pubkey \<Rightarrow> pubkey \<Rightarrow> pubkey \<Rightarrow> pubkey
     \<Rightarrow> pubkey \<Rightarrow> pubkey \<Rightarrow> pubkey list \<Rightarrow> instruction" where
  "ix_withdraw_obligation_collateral_and_redeem_reserve_collateral ch prog collateral_amount
     source_collateral_pubkey destination_collateral_pubkey withdraw_reserve_pubkey obligation_pubkey
     lending_market_pubkey destination_liquidity_pubkey reserve_collateral_mint_pubkey
     reserve_liquidity_supply_pubkey obligation_owner_pubkey user_transfer_authority_pubkey collateral_keys =
     (let lending_market_authority_pubkey = market_authority ch lending_market_pubkey prog
      in \<lparr> ix_program_id = prog,
       ix_accounts = [meta_new source_collateral_pubkey False,
       meta_new destination_collateral_pubkey False,
       meta_new withdraw_reserve_pubkey False,
       meta_new obligation_pubkey False,
       meta_new lending_market_pubkey False,
       meta_readonly lending_market_authority_pubkey False,
       meta_new destination_liquidity_pubkey False,
       meta_new reserve_collateral_mint_pubkey False,
       meta_new reserve_liquidity_supply_pubkey False,
       meta_readonly obligation_owner_pubkey True,
       meta_readonly user_transfer_authority_pubkey True,
       meta_readonly (token_program ch) False] @
       map (\<lambda>k. meta_new k False) collateral_keys,
       ix_data = pack_instruction (WithdrawObligationCollateralAndRedeemReserveCollateral collateral_amount)
          \<rparr>)"

definition ix_withdraw_obligation_collateral ::
  "chain \<Rightarrow> pubkey \<Rightarrow> u64 \<Rightarrow> pubkey \<Rightarrow> pubkey \<Rightarrow> pubkey
     \<Rightarrow> pubkey \<Rightarrow> pubkey \<Rightarrow> pubkey \<Rightarrow> pubkey list \<Rightarrow>
     instruction" where
  "ix_withdraw_obligation_collateral ch prog collateral_amount source_collateral_pubkey
     destination_collateral_pubkey withdraw_reserve_pubkey obligation_pubkey lending_market_pubkey
     obligation_owner_pubkey collateral_keys =
     (let lending_market_authority_pubkey = market_authority ch lending_market_pubkey prog
      in \<lparr> ix_program_id = prog,
       ix_accounts = [meta_new source_collateral_pubkey False,
       meta_new destination_collateral_pubkey False,
       meta_readonly withdraw_reserve_pubkey False,
       meta_new obligation_pubkey False,
       meta_readonly lending_market_pubkey False,
       meta_readonly lending_market_authority_pubkey False,
       meta_readonly obligation_owner_pubkey True,
       meta_readonly (token_program ch) False] @
       map (\<lambda>k. meta_new k False) collateral_keys,
       ix_data = pack_instruction (WithdrawObligationCollateral collateral_amount) \<rparr>)"

definition ix_borrow_obligation_liquidity ::
  "chain \<Rightarrow> pubkey \<Rightarrow> u64 \<Rightarrow> pubkey \<Rightarrow> pubkey \<Rightarrow> pubkey
     \<Rightarrow> pubkey \<Rightarrow> pubkey \<Rightarrow> pubkey \<Rightarrow> pubkey \<Rightarrow> pubkey list
     \<Rightarrow> pubkey option \<Rightarrow> instruction" where
  "ix_borrow_obligation_liquidity ch prog liquidity_amount source_liquidity_pubkey destination_liquidity_pubkey
     borrow_reserve_pubkey borrow_reserve_liquidity_fee_receiver_pubkey obligation_pubkey lending_market_pubkey
     obligation_owner_pubkey collateral_keys host_fee_receiver_pubkey =
     (let lending_market_authority_pubkey = market_authority ch lending_market_pubkey prog
      in \<lparr> ix_program_id = prog,
       ix_accounts = [meta_new source_liquidity_pubkey False,
       meta_new destination_liquidity_pubkey False,
       meta_new borrow_reserve_pubkey False,
       meta_new borrow_reserve_liquidity_fee_receiver_pubkey False,
       meta_new obligation_pubkey False,
       meta_new lending_market_pubkey False,
       meta_readonly lending_market_authority_pubkey False,
       meta_readonly obligation_owner_pubkey True,
       meta_readonly (token_program ch) False] @
       map (\<lambda>k. meta_new k False) collateral_keys @
       optional_meta meta_new host_fee_receiver_pubkey,
       ix_data = pack_instruction (BorrowObligationLiquidity liquidity_amount) \<rparr>)"

definition ix_repay_obligation_liquidity ::
  "chain \<Rightarrow> pubkey \<Rightarrow> u64 \<Rightarrow> pubkey \<Rightarrow> pubkey \<Rightarrow> pubkey
     \<Rightarrow> pubkey \<Rightarrow> pubkey \<Rightarrow> pubkey \<Rightarrow> instruction" where
  "ix_repay_obligation_liquidity ch prog liquidity_amount source_liquidity_pubkey destination_liquidity_pubkey
     repay_reserve_pubkey obligation_pubkey lending_market_pubkey user_transfer_authority_pubkey =
     \<lparr> ix_program_id = prog,
       ix_accounts = [meta_new source_liquidity_pubkey False,
       meta_new destination_liquidity_pubkey False,
       meta_new repay_reserve_pubkey False,
       meta_new obligation_pubkey False,
       meta_readonly lending_market_pubkey False,
       meta_readonly user_transfer_authority_pubkey True,
       meta_readonly (token_program ch) False],
       ix_data = pack_instruction (RepayObligationLiquidity liquidity_amount) \<rparr>"

definition ix_liquidate_obligation ::
  "chain \<Rightarrow> pubkey \<Rightarrow> u64 \<Rightarrow> pubkey \<Rightarrow> pubkey \<Rightarrow> pubkey
     \<Rightarrow> pubkey \<Rightarrow> pubkey \<Rightarrow> pubkey \<Rightarrow> pubkey \<Rightarrow> pubkey
     \<Rightarrow> pubkey \<Rightarrow> instruction" where
  "ix_liquidate_obligation ch prog liquidity_amount source_liquidity_pubkey destination_collateral_pubkey
     repay_reserve_pubkey repay_reserve_liquidity_supply_pubkey withdraw_reserve_pubkey
     withdraw_reserve_collateral_supply_pubkey obligation_pubkey lending_market_pubkey
     user_transfer_authority_pubkey =
     (let lending_market_authority_pubkey = market_authority ch lending_market_pubkey prog
      in \<lparr> ix_program_id = prog,
       ix_accounts = [meta_new source_liquidity_pubkey False,
       meta_new destination_collateral_pubkey False,
       meta_new repay_reserve_pubkey False,
       meta_new repay_reserve_liquidity_supply_pubkey False,
       meta_readonly withdraw_reserve_pubkey False,
       meta_new withdraw_reserve_collateral_supply_pubkey False,
       meta_new obligation_pubkey False,
       meta_readonly lending_market_pubkey False,
       meta_readonly lending_market_authority_pubkey False,
       meta_readonly user_transfer_authority_pubkey True,
       meta_readonly (token_program ch) False],
       ix_data = pack_instruction (LiquidateObligation liquidity_amount) \<rparr>)"

definition ix_update_reserve_config ::
  "chain \<Rightarrow> pubkey \<Rightarrow> reserve_config \<Rightarrow> rate_limiter_config \<Rightarrow> pubkey
     \<Rightarrow> pubkey \<Rightarrow> pubkey \<Rightarrow> pubkey \<Rightarrow> pubkey \<Rightarrow> pubkey
     \<Rightarrow> instruction" where
  "ix_update_reserve_config ch prog cfg rate_limiter_config reserve_pubkey lending_market_pubkey
     lending_market_owner_pubkey pyth_product_pubkey pyth_price_pubkey switchboard_feed_pubkey =
     (let lending_market_authority_pubkey = market_authority ch lending_market_pubkey prog
      in \<lparr> ix_program_id = prog,
       ix_accounts = [meta_new reserve_pubkey False,
       meta_readonly lending_market_pubkey False,
       meta_readonly lending_market_authority_pubkey False,
       meta_readonly lending_market_owner_pubkey True,
       meta_readonly pyth_product_pubkey False,
       meta_readonly pyth_price_pubkey False,
       meta_readonly switchboard_feed_pubkey False] @
       optional_meta meta_readonly (extra_oracle_pubkey cfg),
       ix_data = pack_instruction (UpdateReserveConfig cfg rate_limiter_config) \<rparr>)"

definition ix_liquidate_obligation_and_redeem_reserve_collateral ::
  "chain \<Rightarrow> pubkey \<Rightarrow> u64 \<Rightarrow> pubkey \<Rightarrow> pubkey \<Rightarrow> pubkey
     \<Rightarrow> pubkey \<Rightarrow> pubkey \<Rightarrow> pubkey \<Rightarrow> pubkey \<Rightarrow> pubkey
     \<Rightarrow> pubkey \<Rightarrow> pubkey \<Rightarrow> pubkey \<Rightarrow> pubkey \<Rightarrow> pubkey
     \<Rightarrow> instruction" where
  "ix_liquidate_obligation_and_redeem_reserve_collateral ch prog liquidity_amount source_liquidity_pubkey
     destination_collateral_pubkey destination_liquidity_pubkey repay_reserve_pubkey
     repay_reserve_liquidity_supply_pubkey withdraw_reserve_pubkey withdraw_reserve_collateral_mint_pubkey
     withdraw_reserve_collateral_supply_pubkey withdraw_reserve_liquidity_supply_pubkey
     withdraw_reserve_liquidity_fee_receiver_pubkey obligation_pubkey lending_market_pubkey
     user_transfer_authority_pubkey =
     (let lending_market_authority_pubkey = market_authority ch lending_market_pubkey prog
      in \<lparr> ix_program_id = prog,
       ix_accounts = [meta_new source_liquidity_pubkey False,
       meta_new destination_collateral_pubkey False,
       meta_new destination_liquidity_pubkey False,
       meta_new repay_reserve_pubkey False,
       meta_new repay_reserve_liquidity_supply_pubkey False,
       meta_new withdraw_reserve_pubkey False,
       meta_new withdraw_reserve_collateral_mint_pubkey False,
       meta_new withdraw_reserve_collateral_supply_pubkey False,
       meta_new withdraw_reserve_liquidity_supply_pubkey False,
       meta_new withdraw_reserve_liquidity_fee_receiver_pubkey False,
       meta_new obligation_pubkey False,
       meta_new lending_market_pubkey False,
       meta_readonly lending_market_authority_pubkey False,
       meta_readonly user_transfer_authority_pubkey True,
       meta_readonly (token_program ch) False],
       ix_data = pack_instruction (LiquidateObligationAndRedeemReserveCollateral liquidity_amount) \<rparr>)"

definition ix_redeem_fees ::
  "chain \<Rightarrow> pubkey \<Rightarrow> pubkey \<Rightarrow> pubkey \<Rightarrow> pubkey \<Rightarrow> pubkey
     \<Rightarrow> instruction" where
  "ix_redeem_fees ch prog reserve_pubkey reserve_liquidity_fee_receiver_pubkey reserve_supply_liquidity_pubkey
     lending_market_pubkey =
     (let lending_market_authority_pubkey = market_authority ch lending_market_pubkey prog
      in \<lparr> ix_program_id = prog,
       ix_accounts = [meta_new reserve_pubkey False,
       meta_new reserve_liquidity_fee_receiver_pubkey False,
       meta_new reserve_supply_liquidity_pubkey False,
       meta_readonly lending_market_pubkey False,
       meta_readonly lending_market_authority_pubkey False,
       meta_readonly (token_program ch) False],
       ix_data = pack_instruction RedeemFees \<rparr>)"

definition ix_flash_borrow_reserve_liquidity ::
  "chain \<Rightarrow> pubkey \<Rightarrow> u64 \<Rightarrow> pubkey \<Rightarrow> pubkey \<Rightarrow> pubkey
     \<Rightarrow> pubkey \<Rightarrow> instruction" where
  "ix_flash_borrow_reserve_liquidity ch prog liquidity_amount source_liquidity_pubkey destination_liquidity_pubkey
     reserve_pubkey lending_market_pubkey =
     (let lending_market_authority_pubkey = market_authority ch lending_market_pubkey prog
      in \<lparr> ix_program_id = prog,
       ix_accounts = [meta_new source_liquidity_pubkey False,
       meta_new destination_liquidity_pubkey False,
       meta_new reserve_pubkey False,
       meta_readonly lending_market_pubkey False,
       meta_readonly lending_market_authority_pubkey False,
       meta_readonly (instructions_sysvar ch) False,
       meta_readonly (token_program ch) False],
       ix_data = pack_instruction (FlashBorrowReserveLiquidity liquidity_amount) \<rparr>)"

definition ix_flash_repay_reserve_liquidity ::
  "chain \<Rightarrow> pubkey \<Rightarrow> u64 \<Rightarrow> u8 \<Rightarrow> pubkey \<Rightarrow> pubkey
     \<Rightarrow> pubkey \<Rightarrow> pubkey \<Rightarrow> pubkey \<Rightarrow> pubkey \<Rightarrow> pubkey
     \<Rightarrow> instruction" where
  "ix_flash_repay_reserve_liquidity ch prog liquidity_amount borrow_instruction_index source_liquidity_pubkey
     destination_liquidity_pubkey reserve_liquidity_fee_receiver_pubkey host_fee_receiver_pubkey reserve_pubkey
     lending_market_pubkey user_transfer_authority_pubkey =
     \<lparr> ix_program_id = prog,
       ix_accounts = [meta_new source_liquidity_pubkey False,
       meta_new destination_liquidity_pubkey False,
       meta_new reserve_liquidity_fee_receiver_pubkey False,
       meta_new host_fee_receiver_pubkey False,
       meta_new reserve_pubkey False,
       meta_readonly lending_market_pubkey False,
       meta_readonly user_transfer_authority_pubkey True,
       meta_readonly (instructions_sysvar ch) False,
       meta_readonly (token_program ch) False],
       ix_data = pack_instruction (FlashRepayReserveLiquidity liquidity_amount borrow_instruction_index) \<rparr>"

definition ix_forgive_debt ::
  "chain \<Rightarrow> pubkey \<Rightarrow> u64 \<Rightarrow> pubkey \<Rightarrow> pubkey \<Rightarrow> pubkey
     \<Rightarrow> pubkey \<Rightarrow> instruction" where
  "ix_forgive_debt ch prog liquidity_amount reserve_pubkey obligation_pubkey lending_market_pubkey
     lending_market_owner =
     \<lparr> ix_program_id = prog,
       ix_accounts = [meta_new obligation_pubkey False,
       meta_new reserve_pubkey False,
       meta_readonly lending_market_pubkey False,
       meta_readonly lending_market_owner True],
       ix_data = pack_instruction (ForgiveDebt liquidity_amount) \<rparr>"

definition ix_set_obligation_closeability_status ::
  "chain \<Rightarrow> pubkey \<Rightarrow> pubkey \<Rightarrow> pubkey \<Rightarrow> pubkey \<Rightarrow> pubkey
     \<Rightarrow> bool \<Rightarrow> instruction" where
  "ix_set_obligation_closeability_status ch prog obligation_pubkey reserve_pubkey lending_market_pubkey authority
     status =
     \<lparr> ix_program_id = prog,
       ix_accounts = [meta_new obligation_pubkey False,
       meta_readonly lending_market_pubkey False,
       meta_readonly reserve_pubkey False,
       meta_readonly authority True],
       ix_data = pack_instruction (SetObligationCloseabilityStatus status) \<rparr>"

definition ix_donate_to_reserve ::
  "chain \<Rightarrow> pubkey \<Rightarrow> u64 \<Rightarrow> pubkey \<Rightarrow> pubkey \<Rightarrow> pubkey
     \<Rightarrow> pubkey \<Rightarrow> pubkey \<Rightarrow> instruction" where
  "ix_donate_to_reserve ch prog liquidity_amount source_liquidity_pubkey destination_liquidity_pubkey reserve_pubkey
     lending_market_pubkey user_transfer_authority_pubkey =
     \<lparr> ix_program_id = prog,
       ix_accounts = [meta_new source_liquidity_pubkey False,
       meta_new destination_liquidity_pubkey False,
       meta_new reserve_pubkey False,
       meta_readonly lending_market_pubkey False,
       meta_readonly user_transfer_authority_pubkey True,
       meta_readonly (token_program ch) False],
       ix_data = pack_instruction (DonateToReserve liquidity_amount) \<rparr>"

section \<open>Market metadata\<close>

record market_metadata =
  md_bump_seed :: u8
  market_name :: bytes
  market_description :: bytes
  market_image_url :: bytes
  lookup_tables :: "pubkey list"
  md_padding :: bytes

definition MARKET_NAME_SIZE :: nat where "MARKET_NAME_SIZE = 50"
definition MARKET_DESCRIPTION_SIZE :: nat where "MARKET_DESCRIPTION_SIZE = 300"
definition MARKET_IMAGE_URL_SIZE :: nat where "MARKET_IMAGE_URL_SIZE = 250"
definition PADDING_SIZE :: nat where "PADDING_SIZE = 100"

text \<open>\<open>bytes_of\<close>: all fields are byte arrays, so the layout has no padding of its own.\<close>

definition metadata_bytes :: "market_metadata \<Rightarrow> bytes" where
  "metadata_bytes m =
     md_bump_seed m # market_name m @ market_description m @ market_image_url m @ concat (lookup_tables m) @ md_padding m"

definition metadata_sizes :: "nat list" where
  "metadata_sizes = [1, MARKET_NAME_SIZE, MARKET_DESCRIPTION_SIZE, MARKET_IMAGE_URL_SIZE, 32, 32, 32, 32, PADDING_SIZE]"

text \<open>\<open>new_from_bytes\<close>: the slice after the tag must have exactly the size of the structure.\<close>

definition metadata_new_from_bytes :: "bytes \<Rightarrow> panic + (program_error + market_metadata)" where
  "metadata_new_from_bytes data =
     (case data of
        [] \<Rightarrow> Inl Panic
      | _ # body \<Rightarrow>
          if length body \<noteq> sum_list metadata_sizes then Inr (Inl unpack_error)
          else let f = array_refs metadata_sizes body
               in Inr (Inr \<lparr> md_bump_seed = hd (f ! 0), market_name = f ! 1, market_description = f ! 2,
                    market_image_url = f ! 3, lookup_tables = [f ! 4, f ! 5, f ! 6, f ! 7], md_padding = f ! 8 \<rparr>))"

text \<open>The seed \<open>b"MetaData"\<close>.\<close>

definition metadata_seed :: bytes where "metadata_seed = map (of_nat \<circ> of_char) ''MetaData''"

definition ix_update_market_metadata :: "chain \<Rightarrow> pubkey \<Rightarrow> market_metadata \<Rightarrow> pubkey \<Rightarrow> pubkey \<Rightarrow> instruction" where
  "ix_update_market_metadata ch prog metadata lending_market_pubkey lending_market_owner =
     (let (metadata_pubkey, bump) = find_program_address ch
        [take 32 lending_market_pubkey, metadata_seed] prog
      in \<lparr> ix_program_id = prog,
           ix_accounts = [meta_readonly lending_market_pubkey False, meta_new lending_market_owner True,
             meta_new metadata_pubkey False, meta_readonly (system_program ch) False],
           ix_data = 22 # metadata_bytes (metadata\<lparr>md_bump_seed := bump\<rparr>) \<rparr>)"

section \<open>What a builder writes is what the program reads\<close>

lemma unpack_packed: "packable i \<Longrightarrow> unpack_instruction (pack_instruction i) = Inr (Inr i)"
  using unpack_pack [of i "[]"] by simp

lemma flash_builders_decode:
  "unpack_instruction (ix_data (ix_flash_borrow_reserve_liquidity ch prog n a b c d)) =
     Inr (Inr (FlashBorrowReserveLiquidity n))"
  "unpack_instruction (ix_data (ix_flash_repay_reserve_liquidity ch prog n i a b c d e f g)) =
     Inr (Inr (FlashRepayReserveLiquidity n i))"
  unfolding ix_flash_borrow_reserve_liquidity_def ix_flash_repay_reserve_liquidity_def Let_def instruction.simps
  by (rule unpack_packed, simp)+

definition metadata_wf :: "market_metadata \<Rightarrow> bool" where
  "metadata_wf m \<longleftrightarrow> length (market_name m) = MARKET_NAME_SIZE \<and>
     length (market_description m) = MARKET_DESCRIPTION_SIZE \<and> length (market_image_url m) = MARKET_IMAGE_URL_SIZE \<and>
     (\<exists>a b c d. lookup_tables m = [a, b, c, d] \<and> length a = 32 \<and> length b = 32 \<and> length c = 32 \<and> length d = 32) \<and>
     length (md_padding m) = PADDING_SIZE"

text \<open>The metadata that the builder sends is read back with the bump seed of its address.\<close>

lemma metadata_roundtrip:
  assumes "metadata_wf m"
  shows "metadata_new_from_bytes (ix_data (ix_update_market_metadata ch prog m market own)) =
     Inr (Inr (m\<lparr>md_bump_seed := snd (find_program_address ch [take 32 market, metadata_seed] prog)\<rparr>))"
proof -
  obtain k bump where fpa: "find_program_address ch [take 32 market, metadata_seed] prog = (k, bump)"
    by (cases "find_program_address ch [take 32 market, metadata_seed] prog")
  obtain a b c d where lt: "lookup_tables m = [a, b, c, d]" "length a = 32" "length b = 32" "length c = 32" "length d = 32"
    using assms by (auto simp: metadata_wf_def)
  let ?fs = "[[bump], market_name m, market_description m, market_image_url m, a, b, c, d, md_padding m]"
  have len: "map length ?fs = metadata_sizes"
    using assms lt by (simp add: metadata_wf_def metadata_sizes_def)
  have "metadata_bytes (m\<lparr>md_bump_seed := bump\<rparr>) = concat ?fs" by (simp add: metadata_bytes_def lt)
  then have mb: "metadata_bytes (m\<lparr>md_bump_seed := bump\<rparr>) = concat ?fs" .
  have "length (concat ?fs) = sum_list metadata_sizes" using len by (rule length_concat_fields)
  then show ?thesis
    unfolding ix_update_market_metadata_def fpa Let_def prod.case instruction.simps mb metadata_new_from_bytes_def list.case
    using array_refs_concat' [OF len] lt(1) by simp
qed

end
