(* ===== verification/FlashRouter.thy ===== *)
theory FlashRouter
  imports SolendReserveCodec
begin

text \<open>
  \<open>crates/router/src/lib.rs\<close>: the flash-source router over Kamino and Save (Solend) reserves.
  The interface the strategy calls, \<open>FlashSourceRouter::route\<close>, is the locale
  \<open>flash_source_router\<close>, interpreted on the router of the source.  Save reserves are decoded
  by the codec of \<open>SolendReserveCodec\<close>; decoding a Kamino account, the discriminator and the
  scaled-fraction conversion belong to \<open>klend_interface\<close> and are parameters.
\<close>

section \<open>The interface\<close>

text \<open>
  What a client of \<open>FlashSourceRouter\<close> relies on: an answer is one of the sources that can
  serve the request, there is an answer whenever there is such a source, and a source that
  serves an amount serves a smaller one.
\<close>

locale flash_source_router =
  fixes route :: "'r \<Rightarrow> pubkey \<Rightarrow> u64 \<Rightarrow> flash_source option"
    and serves :: "'r \<Rightarrow> pubkey \<Rightarrow> u64 \<Rightarrow> flash_source \<Rightarrow> bool"
    and invar :: "'r \<Rightarrow> bool"
  assumes route_serves: "invar r \<Longrightarrow> route r mint amount = Some s \<Longrightarrow> serves r mint amount s"
    and route_complete: "invar r \<Longrightarrow> serves r mint amount s \<Longrightarrow> route r mint amount \<noteq> None"
    and serves_antimono: "serves r mint amount s \<Longrightarrow> amount' \<le> amount \<Longrightarrow> serves r mint amount' s"
begin

lemma route_None_iff: "invar r \<Longrightarrow> route r mint amount = None \<longleftrightarrow> (\<forall>s. \<not> serves r mint amount s)"
  by (metis not_None_eq route_complete route_serves)

lemma route_smaller:
  "invar r \<Longrightarrow> route r mint amount \<noteq> None \<Longrightarrow> amount' \<le> amount \<Longrightarrow> route r mint amount' \<noteq> None"
  by (metis not_None_eq route_complete route_serves serves_antimono)

end

section \<open>Fees\<close>

definition KAMINO_FLASH_LOAN_DISABLED :: u64 where
  "KAMINO_FLASH_LOAN_DISABLED = u64_MAX"

text \<open>\<open>sf_to_f64\<close> stands for \<open>Fraction::from_bits(..).to_num::<f64>()\<close>.\<close>

definition kamino_fee_bps_from_sf :: "(u128 \<Rightarrow> f64) \<Rightarrow> u64 \<Rightarrow> u32 option" where
  "kamino_fee_bps_from_sf sf_to_f64 flash_loan_fee_sf =
     (if flash_loan_fee_sf = KAMINO_FLASH_LOAN_DISABLED then None
      else Some (f64_to_word (f64_round_int (f64_mul (sf_to_f64 (ucast flash_loan_fee_sf)) (f64_lit 10000)))))"

definition save_fee_bps_from_wad :: "u64 \<Rightarrow> u32" where
  "save_fee_bps_from_wad fee_wad =
     f64_to_word (f64_round_int (f64_mul
       (f64_div (f64_of_word fee_wad) (f64_lit (10 ^ 18))) (f64_lit 10000)))"

section \<open>The router\<close>

datatype flash_provider = KaminoProvider | SolendProvider

record reserve_info =
  provider :: flash_provider
  ri_mint :: pubkey
  available_liquidity :: u64
  ri_fee_bps :: "u32 option"

record multi_source_router =
  reserves :: "(pubkey, reserve_info) hashmap"
  save_live_verified :: bool

definition router_new :: multi_source_router where
  "router_new = \<lparr> reserves = hm_new, save_live_verified = False \<rparr>"

definition add_reserve ::
  "multi_source_router \<Rightarrow> pubkey \<Rightarrow> flash_provider \<Rightarrow> pubkey \<Rightarrow> u64 \<Rightarrow> u32 option
     \<Rightarrow> multi_source_router" where
  "add_reserve r key prov mint liq fee =
     r\<lparr>reserves := hm_insert key
         \<lparr> provider = prov, ri_mint = mint, available_liquidity = liq, ri_fee_bps = fee \<rparr> (reserves r)\<rparr>"

definition set_save_live_verified :: "multi_source_router \<Rightarrow> bool \<Rightarrow> multi_source_router" where
  "set_save_live_verified r verified = r\<lparr>save_live_verified := verified\<rparr>"

definition is_save_live_verified :: "multi_source_router \<Rightarrow> bool" where
  "is_save_live_verified r = save_live_verified r"

definition tracked_reserve_count :: "multi_source_router \<Rightarrow> nat" where
  "tracked_reserve_count r = hm_len (reserves r)"

definition source_of :: "pubkey \<Rightarrow> u32 \<Rightarrow> flash_source" where
  "source_of key fee = \<lparr> fs_protocol = Kamino, reserve = key, fee_bps = fee \<rparr>"

text \<open>\<open>rank_all_sources\<close>: the comparison looks the depth up again, zero when the key is gone.\<close>

definition depth_of :: "multi_source_router \<Rightarrow> flash_source \<Rightarrow> u64" where
  "depth_of r s = (case hm_get (reserves r) (reserve s) of Some i \<Rightarrow> available_liquidity i | None \<Rightarrow> 0)"

definition rank_less :: "multi_source_router \<Rightarrow> flash_source \<Rightarrow> flash_source \<Rightarrow> bool" where
  "rank_less r a b \<longleftrightarrow>
     fee_bps a < fee_bps b \<or> fee_bps a = fee_bps b \<and> depth_of r b < depth_of r a"

definition rank_all_sources :: "multi_source_router \<Rightarrow> pubkey \<Rightarrow> u64 \<Rightarrow> flash_source list" where
  "rank_all_sources r mint amount =
     sort_by (rank_less r)
       (List.map_filter (\<lambda>(key, info). map_option (source_of key) (ri_fee_bps info))
         (filter (\<lambda>(_, info). ri_mint info = mint \<and> available_liquidity info \<ge> amount) (reserves r)))"

text \<open>
  A decoded Kamino reserve, as far as the router reads it; \<open>from_account_data\<close> is the decoder
  of \<open>klend_interface\<close> and \<open>discriminator\<close> its eight-byte tag.
\<close>

record kamino_reserve =
  kr_mint :: pubkey
  kr_available_liquidity :: u64
  kr_flash_loan_fee_sf :: u64

definition observe_kamino_account ::
  "bytes \<Rightarrow> (bytes \<Rightarrow> 'e + kamino_reserve) \<Rightarrow> (u128 \<Rightarrow> f64) \<Rightarrow> multi_source_router \<Rightarrow> pubkey \<Rightarrow> bytes
     \<Rightarrow> multi_source_router" where
  "observe_kamino_account discriminator from_account_data sf_to_f64 r key data =
     (if length data < 8 \<or> take 8 data \<noteq> discriminator then r
      else case from_account_data data of
        Inl _ \<Rightarrow> r
      | Inr kr \<Rightarrow> r\<lparr>reserves := hm_insert key
          \<lparr> provider = KaminoProvider, ri_mint = kr_mint kr,
            available_liquidity = kr_available_liquidity kr,
            ri_fee_bps = kamino_fee_bps_from_sf sf_to_f64 (kr_flash_loan_fee_sf kr) \<rparr> (reserves r)\<rparr>)"

definition observe_save_account ::
  "multi_source_router \<Rightarrow> pubkey \<Rightarrow> bytes \<Rightarrow> panic + multi_source_router" where
  "observe_save_account r key data =
     and_then (reserve_unpack data) (\<lambda>res.
       Inr (case res of
          Inl _ \<Rightarrow> r
        | Inr sr \<Rightarrow> r\<lparr>reserves := hm_insert key
            \<lparr> provider = SolendProvider, ri_mint = liq_mint_pubkey (liquidity sr),
              available_liquidity = available_amount (liquidity sr),
              ri_fee_bps = Some (save_fee_bps_from_wad (flash_loan_fee_wad (fees (res_config sr)))) \<rparr>
            (reserves r)\<rparr>))"

text \<open>
  \<open>route\<close>: the eligible reserves, and the least of them by fee, then Kamino before Solend, then
  the deeper liquidity.
\<close>

definition eligible :: "multi_source_router \<Rightarrow> pubkey \<Rightarrow> u64 \<Rightarrow> reserve_info \<Rightarrow> bool" where
  "eligible r mint amount info \<longleftrightarrow>
     ri_mint info = mint \<and> available_liquidity info \<ge> amount \<and>
     (provider info \<noteq> SolendProvider \<or> save_live_verified r)"

type_synonym flash_option = "pubkey \<times> reserve_info \<times> u32"

definition route_less :: "flash_option \<Rightarrow> flash_option \<Rightarrow> bool" where
  "route_less = (\<lambda>(_, a, a_fee) (_, b, b_fee).
     a_fee < b_fee \<or> a_fee = b_fee \<and>
       (provider a = KaminoProvider \<and> provider b = SolendProvider \<or>
        provider a = provider b \<and> available_liquidity b < available_liquidity a))"

definition flash_options :: "multi_source_router \<Rightarrow> pubkey \<Rightarrow> u64 \<Rightarrow> flash_option list" where
  "flash_options r mint amount =
     List.map_filter (\<lambda>(key, info). map_option (\<lambda>fee. (key, info, fee)) (ri_fee_bps info))
       (filter (\<lambda>(_, info). eligible r mint amount info) (reserves r))"

definition route :: "multi_source_router \<Rightarrow> pubkey \<Rightarrow> u64 \<Rightarrow> flash_source option" where
  "route r mint amount =
     map_option (\<lambda>(key, _, fee). source_of key fee) (min_by route_less (flash_options r mint amount))"

section \<open>The router implements the interface\<close>

definition router_wf :: "multi_source_router \<Rightarrow> bool" where
  "router_wf r = hm_wf (reserves r)"

definition serves :: "multi_source_router \<Rightarrow> pubkey \<Rightarrow> u64 \<Rightarrow> flash_source \<Rightarrow> bool" where
  "serves r mint amount s \<longleftrightarrow>
     fs_protocol s = Kamino \<and>
     (\<exists>info. hm_get (reserves r) (reserve s) = Some info \<and> eligible r mint amount info \<and>
             ri_fee_bps info = Some (fee_bps s))"

lemma router_wf_ops:
  "router_wf router_new"
  "router_wf r \<Longrightarrow> router_wf (add_reserve r key prov mint liq fee)"
  "router_wf r \<Longrightarrow> router_wf (set_save_live_verified r b)"
  "router_wf r \<Longrightarrow> router_wf (observe_kamino_account disc dec sf r key data)"
  by (auto simp: router_wf_def router_new_def add_reserve_def set_save_live_verified_def
      observe_kamino_account_def split: sum.splits)

lemma router_wf_observe_save:
  assumes "router_wf r" and "observe_save_account r key data = Inr r'"
  shows "router_wf r'"
proof -
  obtain res where "reserve_unpack data = Inr res"
    using assms(2) by (auto simp: observe_save_account_def and_then_Inr_iff)
  then show ?thesis
    using assms by (cases res) (auto simp: observe_save_account_def router_wf_def)
qed

lemma set_flash_options:
  "router_wf r \<Longrightarrow> (key, info, fee) \<in> set (flash_options r mint amount) \<longleftrightarrow>
     hm_get (reserves r) key = Some info \<and> eligible r mint amount info \<and> ri_fee_bps info = Some fee"
  by (force simp: flash_options_def List.map_filter_def router_wf_def hm_entries_iff)

lemma not_route_less:
  "\<not> route_less (k', i', f') (k, i, f) \<longleftrightarrow>
     f < f' \<or> f = f' \<and> (provider i = KaminoProvider \<and> provider i' = SolendProvider \<or>
       provider i = provider i' \<and> available_liquidity i' \<le> available_liquidity i)"
  by (cases "provider i"; cases "provider i'") (auto simp: route_less_def)

lemma route_less_weak_order: "weak_order_on route_less A"
proof -
  have asym: "route_less x y \<Longrightarrow> \<not> route_less y x" for x y
    by (cases x; cases y) (auto simp: route_less_def)
  moreover have "\<not> route_less y x \<Longrightarrow> \<not> route_less z y \<Longrightarrow> \<not> route_less z x" for x y z
    by (cases x; cases y; cases z) (auto simp: not_route_less)
  ultimately show ?thesis unfolding weak_order_on_def by blast
qed

lemma source_of_serves:
  "serves r mint amount s \<longleftrightarrow>
     (\<exists>key info fee. s = source_of key fee \<and> hm_get (reserves r) key = Some info \<and>
        eligible r mint amount info \<and> ri_fee_bps info = Some fee)"
  by (cases s) (auto simp: serves_def source_of_def intro: protocol.exhaust)

interpretation msr: flash_source_router route serves router_wf
proof unfold_locales
  fix r mint amount s
  assume wf: "router_wf r" and "route r mint amount = Some s"
  then obtain key info fee where "min_by route_less (flash_options r mint amount) = Some (key, info, fee)"
    and s: "s = source_of key fee"
    by (auto simp: route_def)
  from min_by_in_set [OF this(1)] show "serves r mint amount s"
    unfolding source_of_serves set_flash_options [OF wf] using s by blast
next
  fix r mint amount s
  assume wf: "router_wf r" and "serves r mint amount s"
  then obtain key info fee where "(key, info, fee) \<in> set (flash_options r mint amount)"
    unfolding source_of_serves set_flash_options [OF wf] by blast
  then have "flash_options r mint amount \<noteq> []" by auto
  then show "route r mint amount \<noteq> None" by (simp add: route_def)
next
  fix r mint amount s amount'
  assume "serves r mint amount s" and "amount' \<le> amount"
  then show "serves r mint amount' s" by (auto simp: serves_def eligible_def)
qed

section \<open>The choice is optimal\<close>

lemma route_SomeE:
  assumes "router_wf r" and "route r mint amount = Some s"
  obtains info where "hm_get (reserves r) (reserve s) = Some info" and "eligible r mint amount info"
    and "ri_fee_bps info = Some (fee_bps s)"
    and "\<And>key' info' fee'. hm_get (reserves r) key' = Some info' \<Longrightarrow> eligible r mint amount info' \<Longrightarrow>
       ri_fee_bps info' = Some fee' \<Longrightarrow> \<not> route_less (key', info', fee') (reserve s, info, fee_bps s)"
proof -
  obtain key info fee where m: "min_by route_less (flash_options r mint amount) = Some (key, info, fee)"
    and s: "s = source_of key fee"
    using assms(2) by (auto simp: route_def)
  show thesis
  proof (rule that)
    have "(key, info, fee) \<in> set (flash_options r mint amount)" using m by (rule min_by_in_set)
    then show "hm_get (reserves r) (reserve s) = Some info" "eligible r mint amount info"
      "ri_fee_bps info = Some (fee_bps s)"
      using set_flash_options [OF assms(1)] by (auto simp: s source_of_def)
  next
    fix key' info' fee'
    assume "hm_get (reserves r) key' = Some info'" "eligible r mint amount info'" "ri_fee_bps info' = Some fee'"
    then have "(key', info', fee') \<in> set (flash_options r mint amount)"
      using set_flash_options [OF assms(1)] by blast
    with min_by_least [OF route_less_weak_order m]
    show "\<not> route_less (key', info', fee') (reserve s, info, fee_bps s)" by (simp add: s source_of_def)
  qed
qed

text \<open>
  C10: The router answers exactly when some tracked reserve can serve the request, and its
  answer is the best of them: no eligible reserve has a lower fee, a Solend reserve is chosen
  over no Kamino reserve of the same fee, and among equals none is deeper.  A Solend reserve is
  eligible only once it is verified, and a reserve with flash loans disabled never is.
\<close>

theorem route_picks_cheapest_source:
  assumes "router_wf r"
  shows "case route r mint amount of
      None \<Rightarrow> \<forall>key info. hm_get (reserves r) key = Some info \<and> eligible r mint amount info
                 \<longrightarrow> ri_fee_bps info = None
    | Some s \<Rightarrow> \<exists>info. hm_get (reserves r) (reserve s) = Some info \<and>
        ri_mint info = mint \<and> amount \<le> available_liquidity info \<and>
        (provider info = SolendProvider \<longrightarrow> save_live_verified r) \<and> ri_fee_bps info = Some (fee_bps s) \<and>
        (\<forall>key' info' fee'. hm_get (reserves r) key' = Some info' \<and> eligible r mint amount info' \<and>
             ri_fee_bps info' = Some fee' \<longrightarrow>
           fee_bps s < fee' \<or> fee_bps s = fee' \<and>
             (provider info = KaminoProvider \<and> provider info' = SolendProvider \<or>
              provider info = provider info' \<and> available_liquidity info' \<le> available_liquidity info))"
proof (cases "route r mint amount")
  case None
  then have "\<not> serves r mint amount (source_of key fee)" for key fee
    using msr.route_None_iff [OF assms] by blast
  then have "ri_fee_bps info \<noteq> Some fee"
    if "hm_get (reserves r) key = Some info" "eligible r mint amount info" for key info fee
    using that by (auto simp: serves_def source_of_def)
  then show ?thesis unfolding None option.case by (metis not_None_eq)
next
  case (Some s)
  from route_SomeE [OF assms Some] obtain info where
    i: "hm_get (reserves r) (reserve s) = Some info" "eligible r mint amount info"
       "ri_fee_bps info = Some (fee_bps s)"
    and best: "\<And>key' info' fee'. hm_get (reserves r) key' = Some info' \<Longrightarrow> eligible r mint amount info' \<Longrightarrow>
       ri_fee_bps info' = Some fee' \<Longrightarrow> \<not> route_less (key', info', fee') (reserve s, info, fee_bps s)" by blast
  show ?thesis
    unfolding Some option.case
    by (rule exI [of _ info]) (use i best in \<open>auto simp: eligible_def not_route_less\<close>)
qed

definition demo_router :: multi_source_router where
  "demo_router = add_reserve (add_reserve router_new (replicate 32 1) KaminoProvider (replicate 32 9) 500 (Some 5))
     (replicate 32 2) KaminoProvider (replicate 32 9) 900 (Some 5)"

lemma demo_router_wf: "router_wf demo_router"
  by (simp add: demo_router_def router_wf_ops)

theorem route_picks_cheapest_source_witness:
  "route demo_router (replicate 32 9) 100 = Some (source_of (replicate 32 2) 5) \<and>
   (\<exists>info. hm_get (reserves demo_router) (replicate 32 2) = Some info \<and> 100 \<le> available_liquidity info)"
proof -
  have r: "route demo_router (replicate 32 9) 100 = Some (source_of (replicate 32 2) 5)"
    by (simp add: demo_router_def add_reserve_def router_new_def route_def flash_options_def
        hm_insert_def hm_new_def eligible_def route_less_def map_filter_simps source_of_def)
  with route_picks_cheapest_source [OF demo_router_wf, of "replicate 32 9" 100] show ?thesis
    by (auto simp: source_of_def)
qed

section \<open>From account bytes to a route\<close>

lemma observe_save_packed:
  assumes "reserve_valid sr" and "RESERVE_LEN \<le> length dst"
  shows "\<exists>data. reserve_pack sr dst = Inr data \<and>
     observe_save_account r key data = Inr (add_reserve r key SolendProvider (liq_mint_pubkey (liquidity sr))
       (available_amount (liquidity sr)) (Some (save_fee_bps_from_wad (flash_loan_fee_wad (fees (res_config sr))))))"
  using reserve_codec.store_load [OF assms] by (auto simp: observe_save_account_def add_reserve_def)

text \<open>What the sources of a router are after a reserve is entered under a key.\<close>

lemma serves_add_reserve:
  "serves (add_reserve r key prov mint depth (Some fee)) m amount s \<longleftrightarrow>
     (if reserve s = key
      then s = source_of key fee \<and> m = mint \<and> amount \<le> depth \<and> (prov \<noteq> SolendProvider \<or> save_live_verified r)
      else serves r m amount s)"
  by (cases s) (auto simp: serves_def add_reserve_def eligible_def source_of_def)

lemma route_after_add_reserve:
  assumes "router_wf r" and r'_def: "r' = add_reserve r key prov mint depth (Some fee)"
  shows "if (prov \<noteq> SolendProvider \<or> save_live_verified r) \<and> amount \<le> depth \<and> m = mint
     then \<exists>s. route r' m amount = Some s \<and>
        (s = source_of key fee \<or> reserve s \<noteq> key \<and> serves r m amount s \<and> fee_bps s \<le> fee)
     else \<forall>s. route r' m amount = Some s \<longrightarrow> reserve s \<noteq> key \<and> serves r m amount s"
proof (cases "(prov \<noteq> SolendProvider \<or> save_live_verified r) \<and> amount \<le> depth \<and> m = mint")
  case True
  have wf: "router_wf r'" using assms(1) unfolding r'_def by (rule router_wf_ops)
  have "serves r' m amount (source_of key fee)"
    using True unfolding r'_def serves_add_reserve by (simp add: source_of_def)
  then obtain s where s: "route r' m amount = Some s" using msr.route_complete [OF wf] by blast
  let ?info = "\<lparr> provider = prov, ri_mint = mint, available_liquidity = depth, ri_fee_bps = Some fee \<rparr>"
  have "hm_get (reserves r') key = Some ?info" "eligible r' m amount ?info"
    using True by (auto simp: r'_def add_reserve_def eligible_def)
  with route_SomeE [OF wf s] obtain si where "\<not> route_less (key, ?info, fee) (reserve s, si, fee_bps s)"
    by (metis reserve_info.select_convs(4))
  then have "fee_bps s \<le> fee" unfolding not_route_less by auto
  with True s msr.route_serves [OF wf s] show ?thesis
    unfolding r'_def serves_add_reserve by (auto split: if_splits)
next
  case False
  have wf: "router_wf r'" using assms(1) unfolding r'_def by (rule router_wf_ops)
  have "reserve s \<noteq> key \<and> serves r m amount s" if "route r' m amount = Some s" for s
    using msr.route_serves [OF wf that] False unfolding r'_def serves_add_reserve by (auto split: if_splits)
  with False show ?thesis by auto
qed

text \<open>
  C22: A Save reserve account reaches the router through its byte layout.  When a representable
  reserve is written to an account and the account is observed, the router tracks it under the key
  of the account, with its mint, available liquidity and fee, and keeps every other reserve.  With
  Save verified, every request for its mint up to its available liquidity is then routed: to this
  account at its own fee, or to another tracked reserve that serves the request at no higher fee.
  Without the verification, for more than its liquidity or for another mint, this account is never
  the answer.  Account data shorter than a reserve makes the observation panic, whatever the router
  holds.
\<close>

theorem observed_save_reserve_is_routable:
  assumes "router_wf r" and "reserve_valid sr" and "619 \<le> length dst" and "length short < 619"
  shows "let mint = liq_mint_pubkey (liquidity sr); depth = available_amount (liquidity sr);
        fee = save_fee_bps_from_wad (flash_loan_fee_wad (fees (res_config sr)))
     in (\<exists>data r'. reserve_pack sr dst = Inr data \<and> observe_save_account r key data = Inr r' \<and>
          (\<forall>k. hm_get (reserves r') k =
             (if k = key
              then Some \<lparr> provider = SolendProvider, ri_mint = mint, available_liquidity = depth, ri_fee_bps = Some fee \<rparr>
              else hm_get (reserves r) k)) \<and>
          (if save_live_verified r \<and> amount \<le> depth \<and> m = mint
           then \<exists>s. route r' m amount = Some s \<and>
              (s = source_of key fee \<or> reserve s \<noteq> key \<and> serves r m amount s \<and> fee_bps s \<le> fee)
           else \<forall>s. route r' m amount = Some s \<longrightarrow> reserve s \<noteq> key \<and> serves r m amount s)) \<and>
        observe_save_account r key short = Inl Panic"
proof -
  let ?mint = "liq_mint_pubkey (liquidity sr)" and ?depth = "available_amount (liquidity sr)"
  let ?fee = "save_fee_bps_from_wad (flash_loan_fee_wad (fees (res_config sr)))"
  let ?r = "add_reserve r key SolendProvider ?mint ?depth (Some ?fee)"
  have len: "RESERVE_LEN \<le> length dst" using assms(3) by (simp add: RESERVE_LEN_def)
  have "hm_get (reserves ?r) k = (if k = key then Some \<lparr> provider = SolendProvider, ri_mint = ?mint,
      available_liquidity = ?depth, ri_fee_bps = Some ?fee \<rparr> else hm_get (reserves r) k)" for k
    by (simp add: add_reserve_def)
  then have get: "\<forall>k. hm_get (reserves ?r) k = (if k = key then Some \<lparr> provider = SolendProvider, ri_mint = ?mint,
      available_liquidity = ?depth, ri_fee_bps = Some ?fee \<rparr> else hm_get (reserves r) k)" ..
  have short: "observe_save_account r key short = Inl Panic"
    using assms(4) by (simp add: observe_save_account_def reserve_unpack_def array_ref_def RESERVE_LEN_def)
  note rt = route_after_add_reserve [OF assms(1) refl, of SolendProvider amount ?depth m ?mint key ?fee, unfolded simp_thms]
  obtain data where "reserve_pack sr dst = Inr data" "observe_save_account r key data = Inr ?r"
    using observe_save_packed [OF assms(2) len, of r key] by blast
  then show ?thesis
    unfolding Let_def by (intro conjI exI [of _ data] exI [of _ ?r]) (rule get rt short | assumption)+
qed

text \<open>
  With no other reserve tracked, a request for 700 of the 1000 available is answered with the
  observed account; without the verification the router has no answer.
\<close>

theorem observed_save_reserve_is_routable_witness:
  "(\<exists>data r'. reserve_pack demo_reserve (replicate 619 0) = Inr data \<and>
      observe_save_account (set_save_live_verified router_new True) (replicate 32 3) data = Inr r' \<and>
      route r' (replicate 32 1) 700 =
        Some (source_of (replicate 32 3) (save_fee_bps_from_wad (flash_loan_fee_wad (fees (res_config demo_reserve)))))) \<and>
   (\<exists>data r'. reserve_pack demo_reserve (replicate 619 0) = Inr data \<and>
      observe_save_account router_new (replicate 32 3) data = Inr r' \<and> route r' (replicate 32 1) 700 = None) \<and>
   observe_save_account router_new (replicate 32 3) [] = Inl Panic"
proof -
  let ?v = "set_save_live_verified router_new True"
  have wf: "router_wf ?v" "router_wf router_new" by (simp_all add: router_wf_ops)
  have none: "\<not> serves ?v m amount s" "\<not> serves router_new m amount s" for m amount s
    by (simp_all add: serves_def set_save_live_verified_def router_new_def)
  have vs: "save_live_verified ?v" "\<not> save_live_verified router_new"
    by (simp_all add: set_save_live_verified_def router_new_def)
  have d: "available_amount (liquidity demo_reserve) = 1000" "liq_mint_pubkey (liquidity demo_reserve) = replicate 32 1"
    by (simp_all add: demo_reserve_def demo_liquidity_def reserve_liquidity_new_def)
  have len: "619 \<le> length (replicate 619 (0 :: u8))" "length ([] :: bytes) < 619" by simp_all
  from observed_save_reserve_is_routable [OF wf(1) demo_reserve_valid len, of "replicate 32 3" 700 "replicate 32 1"]
    observed_save_reserve_is_routable [OF wf(2) demo_reserve_valid len, of "replicate 32 3" 700 "replicate 32 1"]
  show ?thesis unfolding Let_def d by (auto simp: none vs)
qed

end
