(* ===== verification/Tips.thy ===== *)
theory Tips
  imports Core
begin

text \<open>
  \<open>crates/strategy/src/tip.rs\<close> and \<open>dynamic_tip.rs\<close>: the static tip bid, the per-reserve
  contention model, the calibration of the tip curve and its bid.  All quantities are doubles
  with their rounding; the lemmas bound the bids by the configured ceilings, show that the
  static bid never panics, that contention is a rounded fraction in the unit interval, and
  that calibration picks an upper median.
\<close>

section \<open>Static tip bid\<close>

definition STATIC_TIP_FLOOR_USD :: f64 where
  "STATIC_TIP_FLOOR_USD = Fin 0"

definition static_tip_bid :: "f64 \<Rightarrow> risk_config \<Rightarrow> panic + f64" where
  "static_tip_bid bonus risk =
     (let ceiling = f64_min (f64_mul (max_tip_pct_of_bonus risk) bonus) (max_tip_per_tx_usd risk);
          floor = f64_max (min_tip_usd risk) STATIC_TIP_FLOOR_USD;
          competitive = f64_mul (max_tip_pct_of_bonus risk) bonus
      in f64_clamp (f64_max competitive floor) (Fin 0) (f64_max ceiling (Fin 0)))"

lemma static_tip_bid_total: "\<exists>tip. static_tip_bid bonus risk = Inr tip"
  unfolding static_tip_bid_def Let_def
  by (rule f64_clamp_total) (rule f64_max_ge2, simp)

lemma static_tip_bid_bounds:
  assumes "static_tip_bid bonus risk = Inr tip"
  shows "f64_le (Fin 0) tip"
    and "f64_le tip (f64_max (f64_min (f64_mul (max_tip_pct_of_bonus risk) bonus)
                                       (max_tip_per_tx_usd risk)) (Fin 0))"
proof -
  have "f64_max (f64_mul (max_tip_pct_of_bonus risk) bonus)
      (f64_max (min_tip_usd risk) STATIC_TIP_FLOOR_USD) \<noteq> NaN"
    by (intro f64_max_not_NaN) (simp add: STATIC_TIP_FLOOR_USD_def)
  then show "f64_le (Fin 0) tip"
    and "f64_le tip (f64_max (f64_min (f64_mul (max_tip_pct_of_bonus risk) bonus)
                                       (max_tip_per_tx_usd risk)) (Fin 0))"
    using assms unfolding static_tip_bid_def Let_def
    by (auto dest: f64_clamp_Inr)
qed

lemma static_tip_bid_le_cap:
  assumes "static_tip_bid bonus risk = Inr tip" and "f64_le (Fin 0) (max_tip_per_tx_usd risk)"
  shows "f64_le tip (max_tip_per_tx_usd risk)"
proof -
  have "f64_le (f64_max (f64_min (f64_mul (max_tip_pct_of_bonus risk) bonus)
      (max_tip_per_tx_usd risk)) (Fin 0)) (max_tip_per_tx_usd risk)"
    using assms(2) by (intro f64_max_le f64_min_le2) auto
  then show ?thesis using static_tip_bid_bounds(2) [OF assms(1)] f64_le_trans by blast
qed

lemma static_tip_bid_le_share:
  assumes "static_tip_bid bonus risk = Inr tip"
    and "f64_le (Fin 0) (f64_mul (max_tip_pct_of_bonus risk) bonus)"
  shows "f64_le tip (f64_mul (max_tip_pct_of_bonus risk) bonus)"
proof -
  have "f64_le (f64_max (f64_min (f64_mul (max_tip_pct_of_bonus risk) bonus)
      (max_tip_per_tx_usd risk)) (Fin 0)) (f64_mul (max_tip_pct_of_bonus risk) bonus)"
    using assms(2) by (intro f64_max_le f64_min_le1) auto
  then show ?thesis using static_tip_bid_bounds(2) [OF assms(1)] f64_le_trans by blast
qed

section \<open>Contention\<close>

record observe_record =
  or_reserve :: pubkey
  lock_contested :: bool
  would_have_bid_usd :: f64
  or_bonus_usd :: f64

record contention_model =
  contested :: "(pubkey, u32) hashmap"
  total :: "(pubkey, u32) hashmap"

definition contention_new :: contention_model where
  "contention_new = \<lparr> contested = hm_new, total = hm_new \<rparr>"

definition count_of :: "('k, u32) hashmap \<Rightarrow> 'k \<Rightarrow> u32" where
  "count_of m k = (case hm_get m k of None \<Rightarrow> 0 | Some c \<Rightarrow> c)"

definition observe :: "contention_model \<Rightarrow> pubkey \<Rightarrow> bool \<Rightarrow> contention_model" where
  "observe m r c =
     (let m1 = m\<lparr>total := hm_insert r (count_of (total m) r + 1) (total m)\<rparr>
      in if c then m1\<lparr>contested := hm_insert r (count_of (contested m1) r + 1) (contested m1)\<rparr>
         else m1)"

definition contention :: "contention_model \<Rightarrow> pubkey \<Rightarrow> f64" where
  "contention m r =
     (let t = count_of (total m) r
      in if t = 0 then Fin 0
         else f64_div (f64_of_word (count_of (contested m) r)) (f64_of_word t))"

definition observe_all :: "(pubkey \<times> bool) list \<Rightarrow> contention_model" where
  "observe_all obs = foldl (\<lambda>m (r, c). observe m r c) contention_new obs"

lemma count_of_simps [simp]:
  "count_of hm_new k = 0"
  "count_of (hm_insert k v m) k' = (if k' = k then v else count_of m k')"
  by (simp_all add: count_of_def)

lemma observe_all_snoc: "observe_all (obs @ [(r, c)]) = observe (observe_all obs) r c"
  by (simp add: observe_all_def)

lemma observe_all_counts:
  assumes "length obs < 2 ^ 32"
  shows "unat (count_of (total (observe_all obs)) r) = length (filter (\<lambda>ob. fst ob = r) obs)"
    and "unat (count_of (contested (observe_all obs)) r) =
           length (filter (\<lambda>ob. fst ob = r \<and> snd ob) obs)"
  using assms
proof (induction obs rule: rev_induct)
  case Nil
  {
    case 1
    then show ?case by (simp add: observe_all_def contention_new_def)
  next
    case 2
    then show ?case by (simp add: observe_all_def contention_new_def)
  }
next
  case (snoc x obs)
  obtain r' c where x: "x = (r', c)" by (cases x)
  have len: "length (filter P obs) < 2 ^ 32 - 1" if "length (obs @ [x]) < 2 ^ 32" for P
    using that by (auto intro: le_less_trans [OF length_filter_le])
  {
    case 1
    then show ?case
      using snoc len [of "\<lambda>ob. fst ob = r"]
      by (auto simp: x observe_all_snoc observe_def Let_def unat_word_ariths)
  next
    case 2
    then show ?case
      using snoc len [of "\<lambda>ob. fst ob = r \<and> snd ob"]
      by (auto simp: x observe_all_snoc observe_def Let_def unat_word_ariths)
  }
qed

lemma contention_fraction:
  fixes r :: pubkey
  assumes "length obs < 2 ^ 32"
  defines "n \<equiv> length (filter (\<lambda>ob. fst ob = r) obs)"
    and "c \<equiv> length (filter (\<lambda>ob. fst ob = r \<and> snd ob) obs)"
  shows "c \<le> n" and "contention (observe_all obs) r =
           (if n = 0 then Fin 0 else f64_div (Fin (of_nat c)) (Fin (of_nat n)))"
proof -
  have t: "unat (count_of (total (observe_all obs)) r) = n"
    and k: "unat (count_of (contested (observe_all obs)) r) = c"
    using observe_all_counts [OF assms(1)] by (simp_all add: n_def c_def)
  have cn: "c \<le> n"
    unfolding c_def n_def by (induction obs) auto
  have nb: "n < 2 ^ 53"
    unfolding n_def
    by (rule order.strict_trans [OF le_less_trans [OF length_filter_le assms(1)]]) simp
  have "count_of (total (observe_all obs)) r = 0 \<longleftrightarrow> n = 0"
    using t by (metis unat_eq_zero)
  moreover have "f64_of_word (count_of (total (observe_all obs)) r) = Fin (of_nat n)"
    using f64_of_word_exact t nb by metis
  moreover have "f64_of_word (count_of (contested (observe_all obs)) r) = Fin (of_nat c)"
    using f64_of_word_exact k cn nb by (metis le_less_trans)
  ultimately show "contention (observe_all obs) r =
      (if n = 0 then Fin 0 else f64_div (Fin (of_nat c)) (Fin (of_nat n)))"
    by (simp add: contention_def Let_def)
  show "c \<le> n" by (rule cn)
qed

section \<open>Calibrating and using the tip curve\<close>

record tip_curve =
  floor_tip_usd :: f64
  curve_k :: f64

datatype calibration_error = InsufficientData nat

definition MIN_OBSERVATIONS :: nat where
  "MIN_OBSERVATIONS = 30"

definition implied_k :: "contention_model \<Rightarrow> f64 \<Rightarrow> observe_record \<Rightarrow> f64 option" where
  "implied_k model floor_tip r =
     (let c = contention model (or_reserve r);
          denom = f64_mul c (or_bonus_usd r)
      in if f64_le denom (Fin 0) then None
         else Some (f64_max (f64_div (f64_sub (would_have_bid_usd r) floor_tip) denom) (Fin 0)))"

definition calibrate :: "observe_record list \<Rightarrow> f64 \<Rightarrow> calibration_error + tip_curve" where
  "calibrate records floor_tip =
     (if length records < MIN_OBSERVATIONS then Inl (InsufficientData (length records))
      else
        let model = observe_all (map (\<lambda>r. (or_reserve r, lock_contested r)) records);
            implied_ks = List.map_filter (implied_k model floor_tip) records
        in if implied_ks = [] then Inl (InsufficientData 0)
           else let ks = sort_by f64_lt implied_ks
                in Inr \<lparr> floor_tip_usd = floor_tip, curve_k = ks ! (length ks div 2) \<rparr>)"

definition bid :: "tip_curve \<Rightarrow> f64 \<Rightarrow> f64 \<Rightarrow> risk_config \<Rightarrow> f64 \<Rightarrow> panic + f64" where
  "bid curve cont bonus risk min_tip =
     (let raw = f64_add (floor_tip_usd curve) (f64_mul (f64_mul (curve_k curve) cont) bonus);
          ceiling = f64_min (f64_mul (max_tip_pct_of_bonus risk) bonus) (max_tip_per_tx_usd risk)
      in if f64_le ceiling (Fin 0) then Inr (Fin 0)
         else f64_clamp raw (f64_min min_tip ceiling) ceiling)"

lemma implied_k_nonneg: "implied_k model fl r = Some k \<Longrightarrow> f64_le (Fin 0) k"
  by (auto simp: implied_k_def Let_def f64_max_ge2 split: if_splits)

lemma map_filter_set: "set (List.map_filter f xs) = {y. \<exists>x\<in>set xs. f x = Some y}"
  by (induction xs) (auto simp: List.map_filter_simps split: option.splits)

text \<open>The middle element of a sorted list bounds half of it from each side.\<close>

lemma sorted_nth_splits:
  assumes "sorted_wrt (\<lambda>a b. \<not> f64_lt b a) xs" and "i < length xs"
    and "\<And>x. x \<in> set xs \<Longrightarrow> x \<noteq> NaN"
  shows "Suc i \<le> length (filter (\<lambda>x. f64_le x (xs ! i)) xs)"
    and "length xs - i \<le> length (filter (\<lambda>x. f64_le (xs ! i) x) xs)"
proof -
  have split: "xs = take i xs @ xs ! i # drop (Suc i) xs"
    using assms(2) by (rule id_take_nth_drop)
  have sw: "sorted_wrt (\<lambda>a b. \<not> f64_lt b a) (take i xs @ xs ! i # drop (Suc i) xs)"
    using assms(1) split by simp
  have nn: "x \<noteq> NaN" if "x \<in> set (take i xs) \<union> {xs ! i} \<union> set (drop (Suc i) xs)" for x
    using that assms(3) nth_mem [OF assms(2)] by (metis Un_iff in_set_dropD in_set_takeD singletonD)
  have lo: "\<forall>x\<in>set (take i xs). f64_le x (xs ! i)"
    using sw nn by (auto simp: sorted_wrt_append not_f64_lt)
  have hi: "\<forall>x\<in>set (drop (Suc i) xs). f64_le (xs ! i) x"
    using sw nn by (auto simp: sorted_wrt_append not_f64_lt)
  have self: "f64_le (xs ! i) (xs ! i)" using nn by simp
  have "length (filter (\<lambda>x. f64_le x (xs ! i)) xs) =
      length (filter (\<lambda>x. f64_le x (xs ! i)) (take i xs @ xs ! i # drop (Suc i) xs))"
    using split by simp
  also have "\<dots> \<ge> Suc i" using lo self assms(2) by (simp add: filter_True)
  finally show "Suc i \<le> length (filter (\<lambda>x. f64_le x (xs ! i)) xs)" .
  have "length (filter (\<lambda>x. f64_le (xs ! i) x) xs) =
      length (filter (\<lambda>x. f64_le (xs ! i) x) (take i xs @ xs ! i # drop (Suc i) xs))"
    using split by simp
  also have "\<dots> \<ge> length xs - i" using hi self assms(2) by (simp add: filter_True)
  finally show "length xs - i \<le> length (filter (\<lambda>x. f64_le (xs ! i) x) xs)" .
qed

section \<open>Properties\<close>

definition demo_risk :: risk_config where
  "demo_risk =
     \<lparr> min_profit_usd = Fin 5, min_tip_usd = Fin 0, sync_lag_halt_slots = 3,
       contention_ceiling = f64_lit (4 / 5), max_tip_per_tx_usd = Fin 150,
       max_tip_per_slot_usd = Fin 600, max_tip_pct_of_bonus = f64_lit (2 / 5),
       max_drawdown_usd = Fin 1000, consecutive_revert_limit = 3 \<rparr>"

text \<open>
  with a non-negative per-transaction cap the static bid always returns, is never
  negative and never above the cap, whatever the bonus is (NaN and infinities included); and
  it is at most the configured share of the bonus whenever that share is not negative.
\<close>
lemma static_tip_bid_within_caps:
  assumes "f64_le (Fin 0) (max_tip_per_tx_usd risk)"
  shows "\<exists>tip. static_tip_bid bonus risk = Inr tip \<and> f64_le (Fin 0) tip \<and>
           f64_le tip (max_tip_per_tx_usd risk) \<and>
           (f64_le (Fin 0) (f64_mul (max_tip_pct_of_bonus risk) bonus) \<longrightarrow>
              f64_le tip (f64_mul (max_tip_pct_of_bonus risk) bonus))"
proof -
  obtain tip where tip: "static_tip_bid bonus risk = Inr tip"
    using static_tip_bid_total by blast
  show ?thesis
    using tip static_tip_bid_bounds(1) [OF tip] static_tip_bid_le_cap [OF tip assms]
      static_tip_bid_le_share [OF tip] by blast
qed

lemma static_tip_bid_within_caps_witness:
  "\<exists>tip. static_tip_bid (Fin 10000) demo_risk = Inr tip \<and> f64_le tip (Fin 150)"
proof -
  have "f64_le (Fin 0) (max_tip_per_tx_usd demo_risk)" by (simp add: demo_risk_def)
  from static_tip_bid_within_caps [OF this, of "Fin 10000"] show ?thesis
    by (auto simp: demo_risk_def)
qed

text \<open>
  After fewer than \<open>2^32\<close> observations the contention of a reserve is zero if the reserve
  was never observed, and otherwise the correctly rounded quotient of its contested and its
  total observations, which lies between zero and one.
\<close>
lemma contention_is_rounded_fraction:
  assumes "length obs < 2 ^ 32"
  shows "contention (observe_all obs) r =
           (if r \<notin> fst ` set obs then Fin 0
            else f64_round (of_nat (length (filter (\<lambda>ob. fst ob = r \<and> snd ob) obs)) /
                            of_nat (length (filter (\<lambda>ob. fst ob = r) obs)))) \<and>
         f64_le (Fin 0) (contention (observe_all obs) r) \<and>
         f64_le (contention (observe_all obs) r) (Fin 1)"
proof -
  let ?n = "length (filter (\<lambda>ob. fst ob = r) obs)"
  let ?c = "length (filter (\<lambda>ob. fst ob = r \<and> snd ob) obs)"
  have "r \<notin> fst ` set obs \<longleftrightarrow> ?n = 0" by (auto simp: filter_empty_conv)
  then show ?thesis
    using contention_fraction [OF assms, of r]
      f64_div_le_1 [of "of_nat ?n" "of_nat ?c"] f64_div_nonneg [of "of_nat ?n" "of_nat ?c"]
    by auto
qed

lemma contention_is_rounded_fraction_witness:
  "contention (observe_all [([1], True), ([1], True), ([2], True), ([1], False), ([1], False)]) [1] =
     f64_round (1 / 2)"
proof -
  have "length [([1 :: u8], True), ([1], True), ([2], True), ([1], False), ([1], False)] < 2 ^ 32"
    by simp
  from contention_is_rounded_fraction [OF this, of "[1]"] show ?thesis by simp
qed

text \<open>
  calibration refuses fewer than thirty records; a curve it does return keeps the given
  floor, has a non-negative \<open>k\<close>, and \<open>k\<close> is an upper median of the values implied by the
  records on contended reserves: more than half of them are at most \<open>k\<close> and at least half of
  them are at least \<open>k\<close>.
\<close>
lemma calibrate_takes_upper_median:
  assumes "calibrate records fl = Inr curve"
  defines "ks \<equiv> List.map_filter
      (implied_k (observe_all (map (\<lambda>r. (or_reserve r, lock_contested r)) records)) fl) records"
  shows "30 \<le> length records \<and> floor_tip_usd curve = fl \<and> f64_le (Fin 0) (curve_k curve) \<and>
         curve_k curve \<in> set ks \<and>
         length ks < 2 * length (filter (\<lambda>k. f64_le k (curve_k curve)) ks) \<and>
         length ks \<le> 2 * length (filter (\<lambda>k. f64_le (curve_k curve) k) ks)"
proof -
  let ?s = "sort_by f64_lt ks"
  let ?i = "length ?s div 2"
  have ne: "ks \<noteq> []" and len: "30 \<le> length records"
    and curve: "curve = \<lparr> floor_tip_usd = fl, curve_k = ?s ! ?i \<rparr>"
    using assms(1) unfolding calibrate_def Let_def MIN_OBSERVATIONS_def ks_def [symmetric]
    by (auto split: if_splits)
  have nonneg: "f64_le (Fin 0) k" if "k \<in> set ks" for k
    using that implied_k_nonneg unfolding ks_def by (auto simp: map_filter_set)
  then have nn: "k \<noteq> NaN" if "k \<in> set ks" for k using that by fastforce
  have i: "?i < length ?s" using ne by simp
  then have mem: "?s ! ?i \<in> set ks" by (metis nth_mem set_sort_by)
  have wo: "weak_order_on f64_lt (set ks)"
    unfolding weak_order_on_def
    using nn by (metis f64_lt_irrefl f64_lt_trans f64_le_lt_trans not_f64_lt)
  have flt: "length (filter P ?s) = length (filter P ks)" for P
    by (metis mset_filter mset_sort_by size_mset)
  have "Suc ?i \<le> length (filter (\<lambda>k. f64_le k (?s ! ?i)) ks)"
    and "length ?s - ?i \<le> length (filter (\<lambda>k. f64_le (?s ! ?i) k) ks)"
    using sorted_nth_splits [OF sorted_sort_by [OF wo] i] nn by (auto simp: flt)
  then show ?thesis using len curve mem nonneg by auto
qed

definition demo_record :: observe_record where
  "demo_record = \<lparr> or_reserve = [1], lock_contested = True, would_have_bid_usd = Fin 21, or_bonus_usd = Fin 40 \<rparr>"

lemma calibrate_takes_upper_median_witness:
  "\<exists>curve. calibrate (replicate 30 demo_record) (Fin 1) = Inr curve \<and> f64_le (Fin 0) (curve_k curve)"
proof -
  let ?rs = "replicate 30 demo_record"
  let ?m = "observe_all (map (\<lambda>r. (or_reserve r, lock_contested r)) ?rs)"
  have "contention ?m [1] = Fin 1"
    using contention_fraction(2) [of "map (\<lambda>r. (or_reserve r, lock_contested r)) ?rs" "[1]"]
    by (simp add: demo_record_def filter_replicate)
  then obtain k where "implied_k ?m (Fin 1) demo_record = Some k"
    by (auto simp: implied_k_def demo_record_def f64_round_numeral)
  then have "List.map_filter (implied_k ?m (Fin 1)) ?rs \<noteq> []"
    by (simp add: List.map_filter_simps numeral_eq_Suc)
  then obtain curve where c: "calibrate ?rs (Fin 1) = Inr curve"
    by (simp add: calibrate_def MIN_OBSERVATIONS_def Let_def)
  with calibrate_takes_upper_median [OF c] show ?thesis by blast
qed

text \<open>
  C30: with a cap that is not negative the dynamic bid never panics; unless the
  raw curve value is NaN the bid is at most the cap, and when the ceiling is positive it is at
  least the smaller of the minimum tip and that ceiling.
\<close>
theorem dynamic_bid_within_ceiling:
  assumes "f64_le (Fin 0) (max_tip_per_tx_usd risk)"
    and "f64_add (floor_tip_usd curve) (f64_mul (f64_mul (curve_k curve) cont) bonus) \<noteq> NaN"
  shows "\<exists>t. bid curve cont bonus risk min_tip = Inr t \<and> f64_le t (max_tip_per_tx_usd risk) \<and>
           (let ceiling = f64_min (f64_mul (max_tip_pct_of_bonus risk) bonus) (max_tip_per_tx_usd risk)
            in f64_lt (Fin 0) ceiling \<longrightarrow> f64_le (f64_min min_tip ceiling) t \<and> f64_le t ceiling)"
proof -
  let ?ceil = "f64_min (f64_mul (max_tip_pct_of_bonus risk) bonus) (max_tip_per_tx_usd risk)"
  have cap: "max_tip_per_tx_usd risk \<noteq> NaN" using assms(1) by auto
  then have ceil: "?ceil \<noteq> NaN" by (simp add: f64_min_NaN_iff)
  have le_cap: "f64_le ?ceil (max_tip_per_tx_usd risk)" using cap by (rule f64_min_le2)
  show ?thesis
  proof (cases "f64_le ?ceil (Fin 0)")
    case True
    then have "\<not> f64_lt (Fin 0) ?ceil" by (metis f64_le_lt_trans f64_lt_irrefl)
    with True show ?thesis using assms(1) by (simp add: bid_def Let_def)
  next
    case False
    have "f64_le (f64_min min_tip ?ceil) ?ceil" using ceil by (rule f64_min_le2)
    then obtain t where t: "f64_clamp
        (f64_add (floor_tip_usd curve) (f64_mul (f64_mul (curve_k curve) cont) bonus))
        (f64_min min_tip ?ceil) ?ceil = Inr t"
      using f64_clamp_total by blast
    with False have "bid curve cont bonus risk min_tip = Inr t" by (simp add: bid_def Let_def)
    moreover note f64_clamp_Inr [OF t assms(2)]
    moreover from this have "f64_le t (max_tip_per_tx_usd risk)" using le_cap f64_le_trans by blast
    ultimately show ?thesis by (simp add: Let_def)
  qed
qed

theorem dynamic_bid_within_ceiling_witness:
  "\<exists>t. bid \<lparr> floor_tip_usd = Fin 1, curve_k = Fin 10 \<rparr> (Fin 1) (Fin 1000) demo_risk (Fin 0) = Inr t \<and>
        f64_le t (Fin 150)"
proof -
  let ?curve = "\<lparr> floor_tip_usd = Fin 1, curve_k = Fin 10 \<rparr>"
  have a: "f64_le (Fin 0) (max_tip_per_tx_usd demo_risk)" by (simp add: demo_risk_def)
  have cap: "max_tip_per_tx_usd demo_risk = Fin 150" by (simp add: demo_risk_def)
  have b: "f64_add (floor_tip_usd ?curve) (f64_mul (f64_mul (curve_k ?curve) (Fin 1)) (Fin 1000)) \<noteq> NaN"
    by (simp add: f64_round_numeral)
  from dynamic_bid_within_ceiling [OF a b, of "Fin 0"] show ?thesis
    unfolding cap by blast
qed

end
