(* ===== verification/Alt.thy ===== *)
theory Alt
  imports Core
begin

text \<open>
  \<open>crates/bundler/src/alt.rs\<close> and \<open>alt_manager.rs\<close>: planning the instructions that create and
  fill an address lookup table, and the cache of populated tables.  The constructors of the
  two instructions belong to \<open>solana_sdk\<close> and are parameters.  The cache sits behind an
  \<open>RwLock\<close>; a lock is poisoned only by a panic, which aborts the process, so the lock
  operations always succeed.  The lemmas show that the planned batches cover the address
  list exactly and that the cache answers as a map.
\<close>

section \<open>Planning\<close>

definition ADDRESSES_PER_EXTEND_INSTRUCTION :: nat where
  "ADDRESSES_PER_EXTEND_INSTRUCTION = 20"

text \<open>\<open>LOOKUP_TABLE_MAX_ADDRESSES\<close> of \<open>solana_sdk\<close>, 256 as the comment of the source says.\<close>

definition LOOKUP_TABLE_MAX_ADDRESSES :: nat where
  "LOOKUP_TABLE_MAX_ADDRESSES = 256"

datatype alt_error = ExceedsTableCapacity nat

text \<open>\<open>slice::chunks\<close>: consecutive pieces of the given size, the last one possibly shorter.\<close>

function chunks :: "nat \<Rightarrow> 'a list \<Rightarrow> 'a list list" where
  "chunks n xs = (if n = 0 \<or> xs = [] then [] else take n xs # chunks n (drop n xs))"
  by auto
termination by (relation "measure (\<lambda>(_, xs). length xs)") auto

declare chunks.simps [simp del]

definition build_create_instruction ::
  "(pubkey \<Rightarrow> pubkey \<Rightarrow> u64 \<Rightarrow> 'ix \<times> pubkey) \<Rightarrow> pubkey \<Rightarrow> pubkey \<Rightarrow> u64 \<Rightarrow> pubkey \<times> 'ix" where
  "build_create_instruction create_lookup_table authority payer recent_slot =
     (let (ix, pk) = create_lookup_table authority payer recent_slot in (pk, ix))"

definition build_extend_instructions ::
  "(pubkey \<Rightarrow> pubkey \<Rightarrow> pubkey option \<Rightarrow> pubkey list \<Rightarrow> 'ix)
     \<Rightarrow> pubkey \<Rightarrow> pubkey \<Rightarrow> pubkey \<Rightarrow> pubkey list \<Rightarrow> alt_error + 'ix list" where
  "build_extend_instructions extend_lookup_table alt_address authority payer addresses =
     (if length addresses > LOOKUP_TABLE_MAX_ADDRESSES
      then Inl (ExceedsTableCapacity (length addresses))
      else Inr (map (\<lambda>chunk. extend_lookup_table alt_address authority (Some payer) chunk)
                 (chunks ADDRESSES_PER_EXTEND_INSTRUCTION addresses)))"

section \<open>The table cache\<close>

record lookup_table =
  table_key :: pubkey
  table_addresses :: "pubkey list"

record alt_manager =
  tables :: "(pubkey, lookup_table) hashmap"

definition alt_manager_new :: alt_manager where
  "alt_manager_new = \<lparr> tables = hm_new \<rparr>"

definition register_table :: "lookup_table \<Rightarrow> alt_manager \<Rightarrow> alt_manager" where
  "register_table t m = m\<lparr>tables := hm_insert (table_key t) t (tables m)\<rparr>"

definition get_table :: "alt_manager \<Rightarrow> pubkey \<Rightarrow> lookup_table option" where
  "get_table m k = hm_get (tables m) k"

definition plan_create_and_populate ::
  "(pubkey \<Rightarrow> pubkey \<Rightarrow> u64 \<Rightarrow> 'ix \<times> pubkey) \<Rightarrow> (pubkey \<Rightarrow> pubkey \<Rightarrow> pubkey option \<Rightarrow> pubkey list \<Rightarrow> 'ix)
     \<Rightarrow> pubkey \<Rightarrow> pubkey \<Rightarrow> u64 \<Rightarrow> pubkey list \<Rightarrow> alt_error + (pubkey \<times> 'ix \<times> 'ix list)" where
  "plan_create_and_populate create_lookup_table extend_lookup_table payer authority recent_slot addresses =
     (let (alt_pubkey, create_ix) = build_create_instruction create_lookup_table authority payer recent_slot
      in and_then (build_extend_instructions extend_lookup_table alt_pubkey authority payer addresses)
           (\<lambda>extend_ixs. Inr (alt_pubkey, create_ix, extend_ixs)))"

definition get_lookup_tables :: "alt_manager \<Rightarrow> pubkey list \<Rightarrow> lookup_table list" where
  "get_lookup_tables m ks = List.map_filter (\<lambda>k. hm_get (tables m) k) ks"

definition get_all_tables :: "alt_manager \<Rightarrow> lookup_table list" where
  "get_all_tables m = map snd (tables m)"

section \<open>Invariant and lemmas\<close>

text \<open>Every table is cached under its own key.\<close>

definition alt_wf :: "alt_manager \<Rightarrow> bool" where
  "alt_wf m \<longleftrightarrow> hm_wf (tables m) \<and> (\<forall>k t. hm_get (tables m) k = Some t \<longrightarrow> table_key t = k)"

lemma alt_wf_new: "alt_wf alt_manager_new"
  by (simp add: alt_wf_def alt_manager_new_def)

lemma alt_wf_register: "alt_wf m \<Longrightarrow> alt_wf (register_table t m)"
  by (simp add: alt_wf_def register_table_def)

lemma get_table_register:
  "get_table (register_table t m) k = (if k = table_key t then Some t else get_table m k)"
  by (simp add: get_table_def register_table_def)

lemma get_all_tables_iff: "alt_wf m \<Longrightarrow> t \<in> set (get_all_tables m) \<longleftrightarrow> get_table m (table_key t) = Some t"
proof -
  assume wf: "alt_wf m"
  have "t \<in> set (get_all_tables m) \<longleftrightarrow> (\<exists>k. (k, t) \<in> set (tables m))"
    by (force simp: get_all_tables_def)
  also have "\<dots> \<longleftrightarrow> (\<exists>k. hm_get (tables m) k = Some t)"
    using wf by (simp add: alt_wf_def hm_entries_iff)
  also have "\<dots> \<longleftrightarrow> get_table m (table_key t) = Some t"
    using wf by (auto simp: alt_wf_def get_table_def)
  finally show ?thesis .
qed

lemma chunks_Nil [simp]: "chunks n [] = []"
  by (simp add: chunks.simps)

lemma concat_chunks: "0 < n \<Longrightarrow> concat (chunks n xs) = xs"
proof (induction n xs rule: chunks.induct)
  case (1 n xs)
  then show ?case by (cases "xs = []") (simp_all add: chunks.simps [of n xs])
qed

lemma chunk_lengths: "0 < n \<Longrightarrow> c \<in> set (chunks n xs) \<Longrightarrow> 0 < length c \<and> length c \<le> n"
proof (induction n xs rule: chunks.induct)
  case (1 n xs)
  then show ?case by (cases "xs = []") (auto simp: chunks.simps [of n xs])
qed

lemma length_chunks: "0 < n \<Longrightarrow> length (chunks n xs) = (length xs + n - 1) div n"
proof (induction n xs rule: chunks.induct)
  case (1 n xs)
  show ?case
  proof (cases "xs = []")
    case True
    then show ?thesis using 1 by simp
  next
    case False
    have "length xs + n - 1 = (length xs - 1) + n" using False by (cases xs) auto
    then have "(length xs + n - 1) div n = Suc ((length xs - 1) div n)"
      using 1(2) by (simp only: div_add_self2 Suc_eq_plus1)
    moreover have "(length xs - n + n - 1) div n = (length xs - 1) div n"
    proof (cases "n \<le> length xs")
      case True
      then show ?thesis by simp
    next
      case False
      then show ?thesis using 1(2) by simp
    qed
    moreover have "length (chunks n xs) = Suc ((length xs - n + n - 1) div n)"
      using 1 False by (subst chunks.simps) simp
    ultimately show ?thesis by simp
  qed
qed

section \<open>Properties\<close>

text \<open>
  planning the extension of a lookup table fails exactly above 256 addresses, with
  that number in the error; otherwise the batches are of one to twenty addresses, there are
  as few of them as possible, and in order they list exactly the requested addresses.
\<close>
lemma extend_plan_covers_addresses:
  "(length addrs > 256 \<longleftrightarrow>
      build_extend_instructions ext alt auth payer addrs = Inl (ExceedsTableCapacity (length addrs))) \<and>
   (length addrs \<le> 256 \<longleftrightarrow>
     (\<exists>batches. build_extend_instructions ext alt auth payer addrs =
                  Inr (map (ext alt auth (Some payer)) batches) \<and>
        concat batches = addrs \<and> length batches = (length addrs + 19) div 20 \<and>
        list_all (\<lambda>c. 0 < length c \<and> length c \<le> 20) batches))"
proof -
  let ?b = "chunks 20 addrs"
  have "concat ?b = addrs \<and> length ?b = (length addrs + 19) div 20 \<and>
      list_all (\<lambda>c. 0 < length c \<and> length c \<le> 20) ?b"
    using concat_chunks [of 20 addrs] length_chunks [of 20 addrs] chunk_lengths [of 20 _ addrs]
    by (auto simp: list_all_iff)
  then show ?thesis
    by (auto simp: build_extend_instructions_def LOOKUP_TABLE_MAX_ADDRESSES_def
        ADDRESSES_PER_EXTEND_INSTRUCTION_def)
qed

end
