(* ===== verification/Sizing.thy ===== *)
theory Sizing
  imports FlashRouter Tips Alt
begin

text \<open>
  \<open>crates/strategy/src/sizing.rs\<close>: how much to repay.  \<open>size_and_route\<close> sizes by close factor
  and flash depth, asks the router for a source and estimates the profit;
  \<open>size_position_with_feasibility\<close> steps the size down until the transaction fits the byte and
  compute limits.  Compiling and serialising a transaction belong to \<open>solana_sdk\<close>: they are the
  fields of the record \<open>sdk\<close>.  The stepping loop is compared with the plain specification
  ``the first feasible size on the ten-percent grid''.
\<close>

section \<open>Constraints and gas regimes\<close>

definition MAX_TX_CU :: u32 where "MAX_TX_CU = 1400000"

definition MAX_TX_BYTES :: nat where "MAX_TX_BYTES = 1232"

datatype binding_constraint = CloseFactor | FlashDepth | ByteLimit | ComputeBudget

datatype gas_regime = NormalGas | HighGas | SpikeGas

definition tx_cost_usd :: "gas_regime \<Rightarrow> f64" where
  "tx_cost_usd g = (case g of NormalGas \<Rightarrow> f64_lit (15 / 10000) | HighGas \<Rightarrow> f64_lit (31 / 1000)
     | SpikeGas \<Rightarrow> f64_lit (14 / 100))"

definition break_even_debt_usd :: "gas_regime \<Rightarrow> f64 option" where
  "break_even_debt_usd g = (case g of NormalGas \<Rightarrow> Some (f64_lit (2 / 100)) | HighGas \<Rightarrow> None
     | SpikeGas \<Rightarrow> Some (f64_lit (430 / 100)))"

definition min_clip_usd :: "gas_regime \<Rightarrow> f64" where
  "min_clip_usd g = (case g of NormalGas \<Rightarrow> f64_lit 100 | HighGas \<Rightarrow> f64_lit 250 | SpikeGas \<Rightarrow> f64_lit 250)"

definition net_profit_at_min_clip_usd :: "gas_regime \<Rightarrow> f64 option" where
  "net_profit_at_min_clip_usd g = (case g of NormalGas \<Rightarrow> Some (f64_lit 5) | HighGas \<Rightarrow> None
     | SpikeGas \<Rightarrow> Some (f64_lit (1228 / 100)))"

section \<open>Sizing and routing\<close>

definition size_position :: "breach_candidate \<Rightarrow> u64 \<Rightarrow> u64" where
  "size_position c flash_source_available = min (close_factor_max_repay c) flash_source_available"

definition estimate_profit :: "u64 \<Rightarrow> flash_source \<Rightarrow> risk_config \<Rightarrow> panic + profit_estimate" where
  "estimate_profit amount source risk =
     (let bonus_rate = f64_lit (5 / 100);
          repay_scale = f64_div (f64_of_word amount) (f64_lit 1000000);
          bonus = f64_max (f64_mul (f64_mul repay_scale bonus_rate) (f64_lit 20)) (f64_lit 12);
          slippage = f64_max (f64_mul (f64_mul repay_scale (f64_lit (3 / 1000))) (f64_lit 20)) (f64_lit (1 / 10));
          flash_fee = f64_max (f64_mul (f64_mul repay_scale (f64_lit 20))
                        (f64_div (f64_of_word (fee_bps source)) (f64_lit 10000))) (f64_lit (1 / 100));
          cu_cost = f64_lit (1 / 2)
      in and_then (static_tip_bid bonus risk) (\<lambda>tip.
           Inr \<lparr> bonus_usd = bonus, est_slippage_usd = slippage, flash_fee_usd = flash_fee,
                 est_cu_cost_usd = cu_cost, bid_tip_usd = tip,
                 net_usd = f64_sub (f64_sub (f64_sub (f64_sub bonus slippage) flash_fee) cu_cost) tip \<rparr>))"

definition size_and_route ::
  "(pubkey \<Rightarrow> u64 \<Rightarrow> flash_source option) \<Rightarrow> breach_candidate \<Rightarrow> risk_config \<Rightarrow> u64
     \<Rightarrow> panic + routed_candidate option" where
  "size_and_route rt c risk flash_depth =
     (let amount = size_position c flash_depth
      in if amount = 0 then Inr None
         else case rt (debt_mint c) amount of
           None \<Rightarrow> Inr None
         | Some source \<Rightarrow>
             and_then (estimate_profit amount source risk) (\<lambda>est.
               if f64_lt (net_usd est) (min_profit_usd risk) then Inr None
               else Inr (Some \<lparr> candidate = c, repay_amount = amount, flash_source = source, expected = est \<rparr>)))"

section \<open>Feasibility\<close>

text \<open>
  What the feasibility check uses of \<open>solana_sdk\<close> and \<open>bincode\<close>; \<open>serialized_len n msg\<close> is the
  length of the transaction with \<open>n\<close> placeholder signatures.
\<close>

record ('ix, 'msg, 'hash) sdk =
  set_compute_unit_limit :: "u32 \<Rightarrow> 'ix"
  try_compile :: "pubkey \<Rightarrow> 'ix list \<Rightarrow> lookup_table list \<Rightarrow> 'hash \<Rightarrow> 'msg option"
  num_required_signatures :: "'msg \<Rightarrow> u8"
  serialized_len :: "nat \<Rightarrow> 'msg \<Rightarrow> nat option"

record 'ix route_provider =
  build_instructions :: "u64 \<Rightarrow> 'ix list"
  estimate_cu :: "u64 \<Rightarrow> u32"

definition closure_route :: "(u64 \<Rightarrow> 'ix list) \<Rightarrow> 'ix route_provider" where
  "closure_route f = \<lparr> build_instructions = f, estimate_cu = (\<lambda>_. 250000) \<rparr>"

definition static_route :: "'ix list \<Rightarrow> u32 \<Rightarrow> 'ix route_provider" where
  "static_route ixs cu = \<lparr> build_instructions = (\<lambda>_. ixs), estimate_cu = (\<lambda>_. cu) \<rparr>"

definition dynamic_route :: "(u64 \<Rightarrow> 'ix list) \<Rightarrow> (u64 \<Rightarrow> u32) \<Rightarrow> 'ix route_provider" where
  "dynamic_route builder cu_estimator = \<lparr> build_instructions = builder, estimate_cu = cu_estimator \<rparr>"

record feasibility_fit =
  used_alt :: bool
  fit_tx_bytes :: nat
  fit_cu :: u32

abbreviation usize_MAX :: nat where "usize_MAX \<equiv> 2 ^ 64 - 1"

definition tx_len ::
  "('ix, 'msg, 'hash) sdk \<Rightarrow> pubkey \<Rightarrow> 'ix list \<Rightarrow> lookup_table list \<Rightarrow> 'hash \<Rightarrow> nat" where
  "tx_len sdk payer ixs tabs blockhash =
     (case try_compile sdk payer ixs tabs blockhash of
        Some msg \<Rightarrow> (case serialized_len sdk (unat (num_required_signatures sdk msg)) msg of
                      Some n \<Rightarrow> n | None \<Rightarrow> usize_MAX)
      | None \<Rightarrow> usize_MAX)"

definition check_feasibility ::
  "('ix, 'msg, 'hash) sdk \<Rightarrow> 'ix route_provider \<Rightarrow> alt_manager option \<Rightarrow> pubkey \<Rightarrow> 'hash \<Rightarrow> u64
     \<Rightarrow> binding_constraint + feasibility_fit" where
  "check_feasibility sdk rp mgr payer blockhash amount =
     (let cu = estimate_cu rp amount
      in if cu > MAX_TX_CU then Inl ComputeBudget
         else
           let ixs = set_compute_unit_limit sdk (min cu MAX_TX_CU) # build_instructions rp amount;
               plain = tx_len sdk payer ixs [] blockhash
           in if plain \<le> MAX_TX_BYTES
              then Inr \<lparr> used_alt = False, fit_tx_bytes = plain, fit_cu = cu \<rparr>
              else case mgr of
                None \<Rightarrow> Inl ByteLimit
              | Some m \<Rightarrow>
                  if get_all_tables m = [] then Inl ByteLimit
                  else let compressed = tx_len sdk payer ixs (get_all_tables m) blockhash
                       in if compressed \<le> MAX_TX_BYTES
                          then Inr \<lparr> used_alt = True, fit_tx_bytes = compressed, fit_cu = cu \<rparr>
                          else Inl ByteLimit)"

section \<open>Stepping down\<close>

record sizing_decision =
  initial_size :: u64
  final_size :: u64
  sd_used_alt :: bool
  step_downs :: u32
  sd_binding_constraint :: "binding_constraint option"

text \<open>
  The loop, for a feasibility check \<open>chk\<close>.  The decrement is at least one, so the size falls
  with every turn.
\<close>

function step_loop ::
  "(u64 \<Rightarrow> binding_constraint + feasibility_fit) \<Rightarrow> u64 \<Rightarrow> u64 \<Rightarrow> u64 \<Rightarrow> u32 \<Rightarrow> binding_constraint option
     \<Rightarrow> sizing_decision" where
  "step_loop chk max_repay initial current downs last_overflow =
     (let step_decrement = max (initial div 10) 1
      in case chk current of
        Inr fit \<Rightarrow>
          \<lparr> initial_size = initial, final_size = current, sd_used_alt = used_alt fit, step_downs = downs,
            sd_binding_constraint =
              (if current < initial then last_overflow
               else if initial = max_repay then Some CloseFactor else Some FlashDepth) \<rparr>
      | Inl ovf \<Rightarrow>
          if current \<le> step_decrement
          then \<lparr> initial_size = initial, final_size = 0, sd_used_alt = False, step_downs = downs + 1,
                 sd_binding_constraint = Some ovf \<rparr>
          else step_loop chk max_repay initial (current - step_decrement) (downs + 1) (Some ovf))"
  by pat_completeness auto
termination
proof (relation "measure (\<lambda>(_, _, _, current, _, _). unat current)")
  fix initial current step :: u64
  assume "step = max (initial div 10) 1" and "\<not> current \<le> step"
  then have "1 \<le> unat step" "unat step < unat current"
    by (simp_all add: word_le_nat_alt unat_max not_le)
  then show "((chk, mr, initial, current - step, d', l'), chk, mr, initial, current, d, l)
      \<in> measure (\<lambda>(_, _, _, current, _, _). unat current)" for chk mr d d' l l'
    by (simp add: unat_sub word_le_nat_alt)
qed simp

declare step_loop.simps [simp del]

definition size_position_with_feasibility ::
  "('ix, 'msg, 'hash) sdk \<Rightarrow> breach_candidate \<Rightarrow> u64 \<Rightarrow> 'ix route_provider \<Rightarrow> alt_manager option \<Rightarrow> pubkey \<Rightarrow> 'hash
     \<Rightarrow> sizing_decision" where
  "size_position_with_feasibility sdk c flash_source_available rp mgr payer blockhash =
     (let initial = min (close_factor_max_repay c) flash_source_available
      in if initial = 0
         then \<lparr> initial_size = 0, final_size = 0, sd_used_alt = False, step_downs = 0,
                sd_binding_constraint =
                  (if close_factor_max_repay c = 0 then Some CloseFactor else Some FlashDepth) \<rparr>
         else step_loop (check_feasibility sdk rp mgr payer blockhash) (close_factor_max_repay c)
                initial initial 0 None)"

definition size_position_stepped ::
  "('ix, 'msg, 'hash) sdk \<Rightarrow> breach_candidate \<Rightarrow> u64 \<Rightarrow> 'ix route_provider \<Rightarrow> alt_manager option \<Rightarrow> pubkey \<Rightarrow> 'hash
     \<Rightarrow> u64" where
  "size_position_stepped sdk c flash_source_available rp mgr payer blockhash =
     final_size (size_position_with_feasibility sdk c flash_source_available rp mgr payer blockhash)"

section \<open>The specification of stepping\<close>

text \<open>The sizes the loop may try: down from \<open>s\<close> by \<open>step\<close> as long as something is left.\<close>

function size_grid :: "nat \<Rightarrow> nat \<Rightarrow> nat list" where
  "size_grid step s = s # (if step = 0 \<or> s \<le> step then [] else size_grid step (s - step))"
  by pat_completeness auto
termination by (relation "measure snd") auto

declare size_grid.simps [simp del]

lemma length_size_grid: "s \<le> n * step \<Longrightarrow> 0 < s \<Longrightarrow> length (size_grid step s) \<le> n"
proof (induction step s arbitrary: n rule: size_grid.induct)
  case (1 step s)
  obtain m where n: "n = Suc m" using 1(2,3) by (cases n) auto
  show ?case
  proof (cases "step = 0 \<or> s \<le> step")
    case True
    then show ?thesis by (auto simp: n size_grid.simps [of step s])
  next
    case False
    have "length (size_grid step (s - step)) \<le> m" by (rule 1(1) [OF False]) (use 1(2) False n in auto)
    then show ?thesis using False by (simp add: n size_grid.simps [of step s])
  qed
qed

lemma grid_at_most_19: "0 < s \<Longrightarrow> length (size_grid (max (s div 10) 1) s) \<le> 19"
proof -
  have "s \<le> 10 * (s div 10) + 9" by presburger
  then have "s \<le> 19 * max (s div 10) 1" by (cases "s div 10 = 0") auto
  then show "0 < s \<Longrightarrow> length (size_grid (max (s div 10) 1) s) \<le> 19" by (rule length_size_grid)
qed

lemma unat_step: "unat (max (initial div 10) 1 :: u64) = max (unat initial div 10) 1"
  by (simp add: unat_max unat_div)

text \<open>\<open>fits_at chk s\<close>: the transaction for size \<open>s\<close> is feasible.\<close>

definition fits_at :: "(u64 \<Rightarrow> 'c + 'f) \<Rightarrow> nat \<Rightarrow> bool" where
  "fits_at chk s = is_ok (chk (of_nat s))"

lemma step_loop_spec:
  fixes chk mr initial current downs l
  defines "d \<equiv> step_loop chk mr initial current downs l"
    and "grid \<equiv> size_grid (max (unat initial div 10) 1) (unat current)"
  shows "unat (final_size d) = (case find (fits_at chk) grid of Some s \<Rightarrow> s | None \<Rightarrow> 0) \<and>
     step_downs d = downs + of_nat (length (takeWhile (\<lambda>s. \<not> fits_at chk s) grid)) \<and>
     initial_size d = initial"
  unfolding d_def grid_def
proof (induction chk mr initial current downs l rule: step_loop.induct)
  case (1 chk mr initial current downs l)
  let ?step = "max (initial div 10) 1 :: u64"
  note g = size_grid.simps [of "max (unat initial div 10) 1" "unat current"]
  have le: "current \<le> ?step \<longleftrightarrow> unat current \<le> max (unat initial div 10) 1"
    by (simp add: word_le_nat_alt unat_step)
  show ?case
  proof (cases "chk current")
    case (Inr fit)
    then show ?thesis unfolding g by (simp add: step_loop.simps [of chk] fits_at_def)
  next
    case (Inl k)
    show ?thesis
    proof (cases "current \<le> ?step")
      case True
      then show ?thesis
        using Inl unfolding g le by (simp add: step_loop.simps [of chk] fits_at_def Let_def le)
    next
      case False
      have "unat (current - ?step) = unat current - max (unat initial div 10) 1"
        using False by (simp add: unat_sub unat_step word_le_nat_alt)
      with 1 [OF refl Inl False] Inl False show ?thesis
        unfolding g le by (simp add: step_loop.simps [of chk mr initial current] fits_at_def Let_def le)
    qed
  qed
qed

text \<open>Why it stopped: at the cap, by close factor or depth; below it, by the last failed check.\<close>

lemma step_loop_constraint:
  fixes chk mr initial current downs l
  defines "d \<equiv> step_loop chk mr initial current downs l"
  assumes "current \<le> initial" and "current < initial \<Longrightarrow> \<exists>k. l = Some k \<and> chk (current + max (initial div 10) 1) = Inl k"
  shows "(if final_size d = 0 then True
     else if final_size d = initial then sd_binding_constraint d = Some (if initial = mr then CloseFactor else FlashDepth)
     else \<exists>k. sd_binding_constraint d = Some k \<and> chk (final_size d + max (initial div 10) 1) = Inl k)"
  using assms(2,3) unfolding d_def
proof (induction chk mr initial current downs l rule: step_loop.induct)
  case (1 chk mr initial current downs l)
  let ?step = "max (initial div 10) 1 :: u64"
  show ?case
  proof (cases "chk current")
    case (Inr fit)
    then show ?thesis using 1(2,3) by (auto simp: step_loop.simps [of chk])
  next
    case (Inl k)
    show ?thesis
    proof (cases "current \<le> ?step")
      case True
      then show ?thesis using Inl by (simp add: step_loop.simps [of chk] Let_def)
    next
      case False
      have "\<exists>k'. Some k = Some k' \<and> chk (current - ?step + ?step) = Inl k'" using Inl by simp
      moreover have "current - ?step \<le> initial"
        using False 1(2) by (simp add: word_le_nat_alt unat_sub not_le)
      ultimately show ?thesis
        using 1(1) [OF refl Inl False] Inl False
        by (simp add: step_loop.simps [of chk mr initial current] Let_def)
    qed
  qed
qed

text \<open>
  C9: Stepping the repay size down ends, and finds the largest feasible size on the ten-percent
  grid below the cap (the smaller of close factor and flash depth), or zero when no size on the
  grid fits.  It tries at most nineteen sizes and counts every size it rejects.  The reported
  constraint is the close factor or the flash depth when the cap itself fits, and otherwise the
  limit that the next larger size broke.
\<close>

theorem sizing_takes_first_feasible:
  fixes c avail sdk rp mgr payer blockhash
  defines "cap \<equiv> min (close_factor_max_repay c) avail"
    and "d \<equiv> size_position_with_feasibility sdk c avail rp mgr payer blockhash"
    and "feasible_at \<equiv> fits_at (check_feasibility sdk rp mgr payer blockhash)"
  assumes "0 < cap"
  shows "initial_size d = cap \<and>
     unat (final_size d) = (case find feasible_at (size_grid (max (unat cap div 10) 1) (unat cap)) of
        Some s \<Rightarrow> s | None \<Rightarrow> 0) \<and>
     unat (step_downs d) = length (takeWhile (\<lambda>s. \<not> feasible_at s) (size_grid (max (unat cap div 10) 1) (unat cap))) \<and>
     step_downs d \<le> 19 \<and>
     (final_size d = cap \<longrightarrow>
        sd_binding_constraint d = Some (if cap = close_factor_max_repay c then CloseFactor else FlashDepth)) \<and>
     (0 < final_size d \<and> final_size d < cap \<longrightarrow>
        (\<exists>k. sd_binding_constraint d = Some k \<and>
             check_feasibility sdk rp mgr payer blockhash (final_size d + max (cap div 10) 1) = Inl k))"
proof -
  let ?grid = "size_grid (max (unat cap div 10) 1) (unat cap)"
  let ?tw = "takeWhile (\<lambda>s. \<not> feasible_at s) ?grid"
  have "0 < unat cap" using assms(4) by (simp add: word_less_nat_alt)
  from grid_at_most_19 [OF this] have tw: "length ?tw \<le> 19"
    using length_takeWhile_le order.trans by blast
  have d: "d = step_loop (check_feasibility sdk rp mgr payer blockhash) (close_factor_max_repay c) cap cap 0 None"
    using assms(4) unfolding d_def size_position_with_feasibility_def Let_def cap_def [symmetric] by simp
  have n: "step_downs d = of_nat (length ?tw)"
    using step_loop_spec [of "check_feasibility sdk rp mgr payer blockhash" "close_factor_max_repay c" cap cap 0 None]
    unfolding d feasible_at_def by simp
  then have "unat (step_downs d) = length ?tw"
    using tw by (simp add: unat_of_nat take_bit_nat_eq_self)
  moreover from this tw have "step_downs d \<le> 19" by (simp add: word_le_nat_alt)
  ultimately show ?thesis
    using assms(4) step_loop_constraint [of cap cap None "check_feasibility sdk rp mgr payer blockhash" "close_factor_max_repay c" 0]
      step_loop_spec [of "check_feasibility sdk rp mgr payer blockhash" "close_factor_max_repay c" cap cap 0 None]
    unfolding d feasible_at_def by (auto split: if_splits)
qed

definition demo_sdk :: "(u64, u64 list, unit) sdk" where
  "demo_sdk = \<lparr> set_compute_unit_limit = (\<lambda>cu. ucast cu), try_compile = (\<lambda>_ ixs _ _. Some ixs),
     num_required_signatures = (\<lambda>_. 1),
     serialized_len = (\<lambda>_ ixs. Some (if 50 < ixs ! 1 then 1300 else 1000)) \<rparr>"

definition demo_breach :: breach_candidate where
  "demo_breach = \<lparr> bc_protocol = Kamino, position_id = replicate 32 4, collateral_mint = replicate 32 8,
     debt_mint = replicate 32 9, health_factor = Fin (9 / 10), close_factor_max_repay = 100, bc_slot = 7 \<rparr>"

theorem sizing_takes_first_feasible_witness:
  "unat (final_size (size_position_with_feasibility demo_sdk demo_breach 500
       (closure_route (\<lambda>n. [n])) None (replicate 32 0) ())) = 50 \<and>
   step_downs (size_position_with_feasibility demo_sdk demo_breach 500
       (closure_route (\<lambda>n. [n])) None (replicate 32 0) ()) \<le> 19"
proof -
  have grid: "size_grid (max (100 div 10) 1) 100 = [100, 90, 80, 70, 60, 50, 40, 30, 20, 10]"
    by (simp add: size_grid.simps)
  have chk: "fits_at (check_feasibility demo_sdk (closure_route (\<lambda>n. [n])) None (replicate 32 0) ()) s
      \<longleftrightarrow> \<not> 50 < (of_nat s :: u64)" for s
    by (simp add: fits_at_def check_feasibility_def demo_sdk_def closure_route_def MAX_TX_CU_def
        MAX_TX_BYTES_def tx_len_def Let_def)
  show ?thesis
    using sizing_takes_first_feasible [of demo_breach 500 demo_sdk "closure_route (\<lambda>n. [n])" None "replicate 32 0" "()"]
    unfolding chk by (simp add: demo_breach_def grid [simplified])
qed

section \<open>Profit estimates\<close>

lemma f64_lit_within: "\<bar>q\<bar> \<le> 2 ^ k \<Longrightarrow> k \<le> 1023 \<Longrightarrow> f64_within k (f64_lit q)"
  unfolding f64_lit_def by (rule f64_round_within)

lemma f64_lit_numeral: "numeral n < (2 :: int) ^ 53 \<Longrightarrow> f64_lit (numeral n) = Fin (numeral n)"
  by (simp add: f64_lit_def f64_round_numeral)

text \<open>No amount of a \<open>u64\<close> makes an estimate overflow: every part stays below \<open>2 ^ 102\<close>.\<close>

lemma estimate_parts_within:
  defines "scale (amount :: u64) \<equiv> f64_div (f64_of_word amount) (f64_lit 1000000)"
  shows "f64_within 102 (f64_max (f64_mul (f64_mul (scale amount) (f64_lit (5 / 100))) (f64_lit 20)) (f64_lit 12))"
    and "f64_within 102 (f64_max (f64_mul (f64_mul (scale amount) (f64_lit (3 / 1000))) (f64_lit 20)) (f64_lit (1 / 10)))"
    and "f64_within 102 (f64_max (f64_mul (f64_mul (scale amount) (f64_lit 20))
           (f64_div (f64_of_word (fee :: u32)) (f64_lit 10000))) (f64_lit (1 / 100)))"
proof -
  have s: "f64_within 64 (scale amount)"
    unfolding scale_def using f64_within_div [OF f64_within_of_word [of amount], of 1000000]
    by (simp add: f64_lit_numeral)
  have f: "f64_within 32 (f64_div (f64_of_word fee) (f64_lit 10000))"
    using f64_within_div [OF f64_within_of_word [of fee], of 10000] by (simp add: f64_lit_numeral)
  have lits: "f64_within 0 (f64_lit (5 / 100))" "f64_within 0 (f64_lit (3 / 1000))" "f64_within 5 (f64_lit 20)"
    "f64_within 102 (f64_lit 12)" "f64_within 102 (f64_lit (1 / 10))" "f64_within 102 (f64_lit (1 / 100))"
    by (simp_all add: f64_lit_within)
  show "f64_within 102 (f64_max (f64_mul (f64_mul (scale amount) (f64_lit (5 / 100))) (f64_lit 20)) (f64_lit 12))"
    using f64_within_mul [OF f64_within_mul [OF s lits(1)] lits(3)]
    by (intro f64_within_max lits) (auto elim: f64_within_mono)
  show "f64_within 102 (f64_max (f64_mul (f64_mul (scale amount) (f64_lit (3 / 1000))) (f64_lit 20)) (f64_lit (1 / 10)))"
    using f64_within_mul [OF f64_within_mul [OF s lits(2)] lits(3)]
    by (intro f64_within_max lits) (auto elim: f64_within_mono)
  show "f64_within 102 (f64_max (f64_mul (f64_mul (scale amount) (f64_lit 20))
           (f64_div (f64_of_word fee) (f64_lit 10000))) (f64_lit (1 / 100)))"
    using f64_within_mul [OF f64_within_mul [OF s lits(3)] f]
    by (intro f64_within_max lits) (auto elim: f64_within_mono)
qed

lemma estimate_profit_total: "\<exists>est. estimate_profit amount source risk = Inr est"
  unfolding estimate_profit_def Let_def by (rule and_then_total [OF static_tip_bid_total]) blast

lemma size_and_route_total: "\<exists>res. size_and_route rt c risk depth = Inr res"
proof (cases "size_position c depth = 0 \<or> rt (debt_mint c) (size_position c depth) = None")
  case True
  then show ?thesis by (auto simp: size_and_route_def Let_def)
next
  case False
  then obtain source where "rt (debt_mint c) (size_position c depth) = Some source" by auto
  with False show ?thesis
    using estimate_profit_total [of "size_position c depth" source risk]
    by (auto simp: size_and_route_def Let_def)
qed

lemma estimate_profit_sound:
  assumes e: "estimate_profit amount source risk = Inr est"
    and cap: "is_finite (max_tip_per_tx_usd risk)" "f64_le (Fin 0) (max_tip_per_tx_usd risk)"
  shows "f64_le (Fin 0) (bid_tip_usd est)" and "f64_le (bid_tip_usd est) (max_tip_per_tx_usd risk)"
    and "net_usd est \<noteq> NaN"
proof -
  let ?b = "bonus_usd est" and ?s = "est_slippage_usd est" and ?f = "flash_fee_usd est"
  have tip: "static_tip_bid ?b risk = Inr (bid_tip_usd est)"
    using e by (auto simp: estimate_profit_def Let_def and_then_Inr_iff)
  then show lo: "f64_le (Fin 0) (bid_tip_usd est)" and hi: "f64_le (bid_tip_usd est) (max_tip_per_tx_usd risk)"
    using static_tip_bid_bounds(1) static_tip_bid_le_cap [OF _ cap(2)] by blast+
  then have fin: "is_finite (bid_tip_usd est)"
    using cap(1) by (cases "bid_tip_usd est"; cases "max_tip_per_tx_usd risk") auto
  have p: "f64_within 102 ?b" "f64_within 103 ?f" "f64_within 102 ?s"
    using e estimate_parts_within f64_within_mono [of 102 _ 103]
    by (auto simp: estimate_profit_def Let_def and_then_Inr_iff)
  have "f64_within 105 (f64_sub (f64_sub (f64_sub ?b ?s) ?f) (f64_lit (1 / 2)))"
    using f64_within_sub [OF f64_within_sub [OF f64_within_sub [OF p(1,3)], of ?f], of "f64_lit (1 / 2)"] p(2)
      f64_lit_within [of "1 / 2" 104] by simp
  then have "is_finite (f64_sub (f64_sub (f64_sub ?b ?s) ?f) (f64_lit (1 / 2)))" by (rule f64_within_finite)
  moreover have "net_usd est = f64_sub (f64_sub (f64_sub (f64_sub ?b ?s) ?f) (f64_lit (1 / 2))) (bid_tip_usd est)"
    using e by (auto simp: estimate_profit_def Let_def and_then_Inr_iff)
  ultimately show "net_usd est \<noteq> NaN" using fin by (simp add: f64_sub_finite_not_NaN)
qed

lemma size_and_route_SomeE:
  assumes "size_and_route rt c risk depth = Inr (Some rc)"
  obtains "repay_amount rc = min (close_factor_max_repay c) depth" and "repay_amount rc \<noteq> 0"
    and "rt (debt_mint c) (repay_amount rc) = Some (flash_source rc)" and "candidate rc = c"
    and "estimate_profit (repay_amount rc) (flash_source rc) risk = Inr (expected rc)"
    and "\<not> f64_lt (net_usd (expected rc)) (min_profit_usd risk)"
  using assms that
  by (auto simp: size_and_route_def size_position_def Let_def and_then_Inr_iff split: if_splits option.splits)

text \<open>
  C8: Sizing and routing on the flash-source router never panics, and a candidate it returns
  repays a positive amount within close factor and flash depth, borrows it from a source that
  can serve that amount of the debt mint, bids a tip between zero and the per-transaction cap,
  and is expected to earn at least the configured minimum: with a finite cap the estimate can
  neither overflow nor become NaN, so the profit check is a real comparison.
\<close>

theorem size_and_route_sound:
  assumes "router_wf r" and "is_finite (max_tip_per_tx_usd risk)" and "f64_le (Fin 0) (max_tip_per_tx_usd risk)"
    and "min_profit_usd risk \<noteq> NaN"
  shows "\<exists>res. size_and_route (route r) c risk depth = Inr res \<and>
     (\<forall>rc. res = Some rc \<longrightarrow>
        candidate rc = c \<and> 0 < repay_amount rc \<and> repay_amount rc \<le> close_factor_max_repay c \<and>
        repay_amount rc \<le> depth \<and> serves r (debt_mint c) (repay_amount rc) (flash_source rc) \<and>
        f64_le (min_profit_usd risk) (net_usd (expected rc)) \<and>
        f64_le (Fin 0) (bid_tip_usd (expected rc)) \<and>
        f64_le (bid_tip_usd (expected rc)) (max_tip_per_tx_usd risk))"
proof -
  obtain res where res: "size_and_route (route r) c risk depth = Inr res"
    using size_and_route_total by blast
  moreover have "candidate rc = c \<and> 0 < repay_amount rc \<and> repay_amount rc \<le> close_factor_max_repay c \<and>
        repay_amount rc \<le> depth \<and> serves r (debt_mint c) (repay_amount rc) (flash_source rc) \<and>
        f64_le (min_profit_usd risk) (net_usd (expected rc)) \<and>
        f64_le (Fin 0) (bid_tip_usd (expected rc)) \<and>
        f64_le (bid_tip_usd (expected rc)) (max_tip_per_tx_usd risk)" if "res = Some rc" for rc
    using res unfolding that
  proof (rule size_and_route_SomeE)
    assume a: "repay_amount rc = min (close_factor_max_repay c) depth" "repay_amount rc \<noteq> 0"
      and rt: "route r (debt_mint c) (repay_amount rc) = Some (flash_source rc)" and "candidate rc = c"
      and e: "estimate_profit (repay_amount rc) (flash_source rc) risk = Inr (expected rc)"
      and n: "\<not> f64_lt (net_usd (expected rc)) (min_profit_usd risk)"
    note est = estimate_profit_sound [OF e assms(2,3)]
    have "f64_le (min_profit_usd risk) (net_usd (expected rc))"
      using n est(3) assms(4) by (auto simp: not_f64_lt)
    then show ?thesis
      using a est msr.route_serves [OF assms(1) rt] \<open>candidate rc = c\<close> by (simp add: word_neq_0_conv)
  qed
  ultimately show ?thesis by blast
qed

theorem size_and_route_sound_witness:
  "\<exists>res. size_and_route (route demo_router) demo_breach demo_risk 500 = Inr res \<and>
     (\<forall>rc. res = Some rc \<longrightarrow> candidate rc = demo_breach \<and> 0 < repay_amount rc \<and> repay_amount rc \<le> 100 \<and>
        serves demo_router (replicate 32 9) (repay_amount rc) (flash_source rc) \<and>
        f64_le (Fin 5) (net_usd (expected rc)) \<and> f64_le (bid_tip_usd (expected rc)) (Fin 150))"
proof -
  have "is_finite (max_tip_per_tx_usd demo_risk)" "f64_le (Fin 0) (max_tip_per_tx_usd demo_risk)"
    "min_profit_usd demo_risk \<noteq> NaN"
    by (simp_all add: demo_risk_def)
  note sound = size_and_route_sound [OF demo_router_wf this, of demo_breach 500]
  have "close_factor_max_repay demo_breach = 100" "debt_mint demo_breach = replicate 32 9"
    "min_profit_usd demo_risk = Fin 5" "max_tip_per_tx_usd demo_risk = Fin 150"
    by (simp_all add: demo_breach_def demo_risk_def)
  with sound show ?thesis by metis
qed

end
