(* ===== verification/Bundler.thy ===== *)
theory Bundler
  imports SolendBuilders Sizing
begin

text \<open>
  \<open>crates/bundler\<close>: the instruction builders of \<open>liquidations.rs\<close> and \<open>swaps.rs\<close>, the token-account
  planning of \<open>ata.rs\<close> and the transaction assembly of \<open>lib.rs\<close>.  Addresses written in base 58 are
  decoded by the field \<open>parse_pubkey\<close> of \<open>chain\<close>; deriving and creating associated token accounts
  belongs to \<open>spl_associated_token_account\<close>, and compiling, signing and serialising a transaction
  to \<open>solana_sdk\<close> and \<open>bincode\<close>: all are parameters.  The lemmas show what the Save program reads
  in the flash-loan instructions built here, that deduplication keeps the first occurrences and
  loses no account, and that an assembled transaction fits the size limit.
\<close>

section \<open>Liquidation and flash loans (\<open>liquidations.rs\<close>)\<close>

definition kamino_program_id :: "chain \<Rightarrow> pubkey" where
  "kamino_program_id ch = parse_pubkey ch ''KLend2g3cP87fffoy8q1mQqGKjrxjC8boSyAYavgmjD''"

definition save_program_id :: "chain \<Rightarrow> pubkey" where
  "save_program_id ch = parse_pubkey ch ''So1endDq2YkqhipRh3WViPa8hdiSpxWy6z3Z6tMCpAo''"

definition spl_token_program_id :: "chain \<Rightarrow> pubkey" where
  "spl_token_program_id ch = parse_pubkey ch ''TokenkegQfeZyiNwAJbNbGKPFXCWuBvf9Ss623VQ5DA''"

record kamino_liquidate_params =
  kl_lending_market :: pubkey
  kl_obligation :: pubkey
  repay_reserve :: pubkey
  repay_reserve_liquidity_supply :: pubkey
  withdraw_reserve :: pubkey
  withdraw_reserve_collateral_supply :: pubkey
  user_source_liquidity :: pubkey
  user_destination_collateral :: pubkey
  user_destination_liquidity :: pubkey
  kl_obligation_owner :: pubkey
  kl_liquidator :: pubkey
  kl_token_program :: pubkey
  kl_liquidity_amount :: u64
  min_acceptable_received_collateral :: u64
  remaining_accounts :: "account_meta list"

definition build_kamino_liquidate_instruction :: "chain \<Rightarrow> kamino_liquidate_params \<Rightarrow> instruction" where
  "build_kamino_liquidate_instruction ch p =
     (let market_auth = market_authority ch (kl_lending_market p) (kamino_program_id ch)
      in \<lparr> ix_program_id = kamino_program_id ch,
           ix_accounts =
             [meta_new (kl_liquidator p) True,
              meta_new (kl_obligation p) False,
              meta_readonly (kl_lending_market p) False,
              meta_readonly market_auth False,
              meta_new (repay_reserve p) False,
              meta_new (repay_reserve_liquidity_supply p) False,
              meta_new (withdraw_reserve p) False,
              meta_new (withdraw_reserve_collateral_supply p) False,
              meta_new (user_source_liquidity p) False,
              meta_new (user_destination_collateral p) False,
              meta_new (user_destination_liquidity p) False,
              meta_readonly (kl_token_program p) False] @ remaining_accounts p,
           ix_data = [0xb1, 0x47, 0x9a, 0xbc, 0xe2, 0x85, 0x4a, 0x37] @
             to_le_bytes (kl_liquidity_amount p) @ to_le_bytes (min_acceptable_received_collateral p) \<rparr>)"

definition build_flash_borrow_instruction ::
  "pubkey \<Rightarrow> pubkey \<Rightarrow> pubkey \<Rightarrow> pubkey \<Rightarrow> pubkey \<Rightarrow> u64 \<Rightarrow> instruction" where
  "build_flash_borrow_instruction prog borrow_res liquidity_supply destination_liquidity tok amount =
     \<lparr> ix_program_id = prog,
       ix_accounts =
         [meta_new borrow_res False,
          meta_new liquidity_supply False,
          meta_new destination_liquidity False,
          meta_readonly tok False],
       ix_data = 14 # to_le_bytes amount \<rparr>"

definition build_flash_repay_instruction ::
  "pubkey \<Rightarrow> pubkey \<Rightarrow> pubkey \<Rightarrow> pubkey \<Rightarrow> pubkey \<Rightarrow> pubkey \<Rightarrow> u64 \<Rightarrow> u8 \<Rightarrow> instruction" where
  "build_flash_repay_instruction prog repay_res source_liquidity liquidity_supply user_authority tok amount
     borrow_instruction_index =
     \<lparr> ix_program_id = prog,
       ix_accounts =
         [meta_new repay_res False,
          meta_new source_liquidity False,
          meta_new liquidity_supply False,
          meta_readonly user_authority True,
          meta_readonly tok False],
       ix_data = 15 # to_le_bytes amount @ [borrow_instruction_index] \<rparr>"

definition build_save_flash_borrow_instruction ::
  "chain \<Rightarrow> pubkey \<Rightarrow> u64 \<Rightarrow> pubkey \<Rightarrow> pubkey \<Rightarrow> pubkey \<Rightarrow> pubkey \<Rightarrow> instruction" where
  "build_save_flash_borrow_instruction ch prog liquidity_amount source_liquidity destination_liquidity res market =
     (let market_auth = market_authority ch market prog
      in \<lparr> ix_program_id = prog,
           ix_accounts =
             [meta_new source_liquidity False,
              meta_new destination_liquidity False,
              meta_new res False,
              meta_readonly market False,
              meta_readonly market_auth False,
              meta_readonly (instructions_sysvar ch) False,
              meta_readonly (spl_token_program_id ch) False],
           ix_data = 14 # to_le_bytes liquidity_amount \<rparr>)"

definition build_save_flash_repay_instruction ::
  "chain \<Rightarrow> pubkey \<Rightarrow> u64 \<Rightarrow> u8 \<Rightarrow> pubkey \<Rightarrow> pubkey \<Rightarrow> pubkey \<Rightarrow> pubkey \<Rightarrow> pubkey \<Rightarrow> pubkey \<Rightarrow> pubkey \<Rightarrow> instruction" where
  "build_save_flash_repay_instruction ch prog liquidity_amount borrow_instruction_index source_liquidity
     destination_liquidity receiver host_fee_receiver res market user_transfer_authority =
     \<lparr> ix_program_id = prog,
       ix_accounts =
         [meta_new source_liquidity False,
          meta_new destination_liquidity False,
          meta_new receiver False,
          meta_new host_fee_receiver False,
          meta_new res False,
          meta_readonly market False,
          meta_readonly user_transfer_authority True,
          meta_readonly (instructions_sysvar ch) False,
          meta_readonly (spl_token_program_id ch) False],
       ix_data = 15 # to_le_bytes liquidity_amount @ [borrow_instruction_index] \<rparr>"

definition build_kamino_flash_borrow_instruction ::
  "chain \<Rightarrow> pubkey \<Rightarrow> u64 \<Rightarrow> pubkey \<Rightarrow> pubkey \<Rightarrow> pubkey \<Rightarrow> pubkey \<Rightarrow> pubkey \<Rightarrow> instruction" where
  "build_kamino_flash_borrow_instruction ch prog liquidity_amount res market reserve_source_liquidity
     user_dest_liquidity tok =
     (let market_auth = market_authority ch market prog
      in \<lparr> ix_program_id = prog,
           ix_accounts =
             [meta_new user_dest_liquidity False,
              meta_new reserve_source_liquidity False,
              meta_new res False,
              meta_readonly market False,
              meta_readonly market_auth False,
              meta_readonly (instructions_sysvar ch) False,
              meta_readonly tok False],
           ix_data = [0x87, 0xe7, 0x34, 0xa7, 0x07, 0x34, 0xd4, 0xc1] @ to_le_bytes liquidity_amount \<rparr>)"

definition build_kamino_flash_repay_instruction ::
  "chain \<Rightarrow> pubkey \<Rightarrow> u64 \<Rightarrow> u8 \<Rightarrow> pubkey \<Rightarrow> pubkey \<Rightarrow> pubkey \<Rightarrow> pubkey \<Rightarrow> pubkey \<Rightarrow> pubkey \<Rightarrow> instruction" where
  "build_kamino_flash_repay_instruction ch prog liquidity_amount borrow_instruction_index res market
     user_src_liquidity reserve_destination_liquidity user_transfer_authority tok =
     \<lparr> ix_program_id = prog,
       ix_accounts =
         [meta_new user_src_liquidity False,
          meta_new reserve_destination_liquidity False,
          meta_new res False,
          meta_readonly market False,
          meta_readonly user_transfer_authority True,
          meta_readonly (instructions_sysvar ch) False,
          meta_readonly tok False],
       ix_data = [0xb9, 0x75, 0x00, 0xcb, 0x60, 0xf5, 0xb4, 0xba] @ to_le_bytes liquidity_amount @
         [borrow_instruction_index] \<rparr>"

section \<open>Swaps (\<open>swaps.rs\<close>)\<close>

definition raydium_clmm_program_id :: "chain \<Rightarrow> pubkey" where
  "raydium_clmm_program_id ch = parse_pubkey ch ''CAMMCzo5YL8w4VFF8KVHrK22GGUsp5VTaW7grrKgrWqK''"

definition orca_whirlpool_program_id :: "chain \<Rightarrow> pubkey" where
  "orca_whirlpool_program_id ch = parse_pubkey ch ''whirLbMiicVdio4qvUfM5KAg6Ct8VwpYzGff3uctyCc''"

definition sanctum_program_id :: "chain \<Rightarrow> pubkey" where
  "sanctum_program_id ch = parse_pubkey ch ''5ocnV1qiCgaQR8Jb8xWnVbApNzpWCDveWUig21uT3J9z''"

definition marinade_program_id :: "chain \<Rightarrow> pubkey" where
  "marinade_program_id ch = parse_pubkey ch ''MarBmsSgKXdrN1egZf5sqe1TMai9K1rChYNDJgjq7aD''"

text \<open>The discriminator that the Raydium, Orca and Sanctum builders write.\<close>

definition swap_discriminator :: bytes where
  "swap_discriminator = [0xf8, 0xc6, 0x9e, 0x91, 0xe1, 0x75, 0x87, 0xc8]"

record raydium_clmm_swap_params =
  clmm_program :: pubkey
  ray_payer :: pubkey
  pool_state :: pubkey
  input_token_account :: pubkey
  output_token_account :: pubkey
  input_vault :: pubkey
  output_vault :: pubkey
  observation_state :: pubkey
  ray_token_program :: pubkey
  ray_amount_in :: u64
  ray_min_amount_out :: u64
  amm_config :: "pubkey option"
  tick_arrays :: "pubkey list"

definition build_raydium_clmm_swap_instruction :: "chain \<Rightarrow> raydium_clmm_swap_params \<Rightarrow> instruction" where
  "build_raydium_clmm_swap_instruction ch p =
     \<lparr> ix_program_id = raydium_clmm_program_id ch,
       ix_accounts =
         [meta_readonly (ray_payer p) True,
          meta_readonly (clmm_program p) False,
          meta_new (pool_state p) False,
          meta_new (input_token_account p) False,
          meta_new (output_token_account p) False,
          meta_new (input_vault p) False,
          meta_new (output_vault p) False,
          meta_new (observation_state p) False,
          meta_readonly (ray_token_program p) False] @
         optional_meta meta_readonly (amm_config p) @
         map (\<lambda>t. meta_new t False) (tick_arrays p),
       ix_data = swap_discriminator @ to_le_bytes (ray_amount_in p) @ to_le_bytes (ray_min_amount_out p) \<rparr>"

record orca_whirlpool_swap_params =
  whirlpool_program :: pubkey
  token_authority :: pubkey
  whirlpool :: pubkey
  token_owner_account_a :: pubkey
  token_vault_a :: pubkey
  token_owner_account_b :: pubkey
  token_vault_b :: pubkey
  tick_array_0 :: pubkey
  tick_array_1 :: pubkey
  tick_array_2 :: pubkey
  orca_oracle :: pubkey
  orca_token_program :: pubkey
  orca_amount :: u64
  other_amount_threshold :: u64
  sqrt_price_limit :: u128
  amount_specified_is_input :: bool
  a_to_b :: bool

definition build_orca_whirlpool_swap_instruction :: "chain \<Rightarrow> orca_whirlpool_swap_params \<Rightarrow> instruction" where
  "build_orca_whirlpool_swap_instruction ch p =
     \<lparr> ix_program_id = orca_whirlpool_program_id ch,
       ix_accounts =
         [meta_readonly (orca_token_program p) False,
          meta_readonly (token_authority p) True,
          meta_new (whirlpool p) False,
          meta_new (token_owner_account_a p) False,
          meta_new (token_vault_a p) False,
          meta_new (token_owner_account_b p) False,
          meta_new (token_vault_b p) False,
          meta_new (tick_array_0 p) False,
          meta_new (tick_array_1 p) False,
          meta_new (tick_array_2 p) False,
          meta_readonly (orca_oracle p) False],
       ix_data = swap_discriminator @ to_le_bytes (orca_amount p) @ to_le_bytes (other_amount_threshold p) @
         to_le_bytes (sqrt_price_limit p) @
         [of_bool (amount_specified_is_input p), of_bool (a_to_b p)] \<rparr>"

record sanctum_swap_params =
  sanctum_program :: pubkey
  sanctum_user :: pubkey
  src_token_account :: pubkey
  dst_token_account :: pubkey
  sanctum_pool :: pubkey
  sanctum_token_program :: pubkey
  sanctum_amount_in :: u64
  sanctum_min_amount_out :: u64

definition build_sanctum_swap_instruction :: "chain \<Rightarrow> sanctum_swap_params \<Rightarrow> instruction" where
  "build_sanctum_swap_instruction ch p =
     \<lparr> ix_program_id = sanctum_program_id ch,
       ix_accounts =
         [meta_readonly (sanctum_user p) True,
          meta_new (sanctum_pool p) False,
          meta_new (src_token_account p) False,
          meta_new (dst_token_account p) False,
          meta_readonly (sanctum_token_program p) False],
       ix_data = swap_discriminator @ to_le_bytes (sanctum_amount_in p) @ to_le_bytes (sanctum_min_amount_out p) \<rparr>"

record marinade_swap_params =
  marinade_program :: pubkey
  marinade_state :: pubkey
  msol_mint :: pubkey
  liq_pool_sol_leg_pda :: pubkey
  liq_pool_msol_leg :: pubkey
  liq_pool_msol_leg_authority :: pubkey
  transfer_from :: pubkey
  transfer_to :: pubkey
  transfer_from_authority :: pubkey
  marinade_token_program :: pubkey
  msol_amount :: u64
  min_sol_receive :: u64

definition build_marinade_swap_instruction :: "chain \<Rightarrow> marinade_swap_params \<Rightarrow> instruction" where
  "build_marinade_swap_instruction ch p =
     \<lparr> ix_program_id = marinade_program_id ch,
       ix_accounts =
         [meta_new (marinade_state p) False,
          meta_new (msol_mint p) False,
          meta_new (liq_pool_sol_leg_pda p) False,
          meta_new (liq_pool_msol_leg p) False,
          meta_readonly (liq_pool_msol_leg_authority p) False,
          meta_new (transfer_from p) False,
          meta_new (transfer_to p) False,
          meta_readonly (transfer_from_authority p) True,
          meta_readonly (system_program ch) False,
          meta_readonly (marinade_token_program p) False],
       ix_data = 14 # to_le_bytes (msol_amount p) @ to_le_bytes (min_sol_receive p) \<rparr>"

section \<open>Token accounts (\<open>ata.rs\<close>)\<close>

definition spl_token_2022_program_id :: "chain \<Rightarrow> pubkey" where
  "spl_token_2022_program_id ch = parse_pubkey ch ''TokenzQdBNbLqP5VEhdkAS6EPFLC1PHnBqCXEpPxuEb''"

definition calculate_token_2022_transfer_fee :: "u64 \<Rightarrow> u16 \<Rightarrow> u64 \<Rightarrow> u64" where
  "calculate_token_2022_transfer_fee pre_fee_amount fee_basis_points max_fee =
     (let numerator = (ucast pre_fee_amount :: u128) * ucast fee_basis_points;
          fee = ucast (numerator div 10000) :: u64
      in min fee max_fee)"

text \<open>
  A hash set \<open>seen\<close> that is filled while the list is filtered: \<open>seen.insert(k)\<close> is true the first
  time \<open>k\<close> is met.
\<close>

fun first_seen :: "('a \<Rightarrow> 'k) \<Rightarrow> 'k set \<Rightarrow> 'a list \<Rightarrow> 'a list" where
  "first_seen key seen [] = []"
| "first_seen key seen (x # xs) =
     (if key x \<in> seen then first_seen key seen xs else x # first_seen key (insert (key x) seen) xs)"

record 'ix spl_ata =
  get_ata :: "pubkey \<Rightarrow> pubkey \<Rightarrow> pubkey \<Rightarrow> pubkey"
  create_ata_idempotent :: "pubkey \<Rightarrow> pubkey \<Rightarrow> pubkey \<Rightarrow> pubkey \<Rightarrow> 'ix"

definition required_atas :: "'ix spl_ata \<Rightarrow> pubkey \<Rightarrow> pubkey list \<Rightarrow> pubkey \<Rightarrow> pubkey list" where
  "required_atas spl own mints tok =
     first_seen (\<lambda>ata. ata) {} (map (\<lambda>mint. get_ata spl own mint tok) mints)"

definition create_ata_idempotent_instruction :: "'ix spl_ata \<Rightarrow> pubkey \<Rightarrow> pubkey \<Rightarrow> pubkey \<Rightarrow> pubkey \<Rightarrow> 'ix" where
  "create_ata_idempotent_instruction spl payer own mint tok = create_ata_idempotent spl payer own mint tok"

definition create_all_atas_idempotent :: "'ix spl_ata \<Rightarrow> pubkey \<Rightarrow> pubkey \<Rightarrow> pubkey list \<Rightarrow> pubkey \<Rightarrow> 'ix list" where
  "create_all_atas_idempotent spl payer own mints tok =
     map (\<lambda>mint. create_ata_idempotent_instruction spl payer own mint tok) (first_seen (\<lambda>mint. mint) {} mints)"

definition required_atas_with_programs :: "'ix spl_ata \<Rightarrow> pubkey \<Rightarrow> (pubkey \<times> pubkey) list \<Rightarrow> pubkey list" where
  "required_atas_with_programs spl own mps =
     first_seen (\<lambda>ata. ata) {} (map (\<lambda>(mint, tok). get_ata spl own mint tok) mps)"

definition create_all_atas_with_programs_idempotent ::
  "'ix spl_ata \<Rightarrow> pubkey \<Rightarrow> pubkey \<Rightarrow> (pubkey \<times> pubkey) list \<Rightarrow> 'ix list" where
  "create_all_atas_with_programs_idempotent spl payer own mps =
     map (\<lambda>(mint, tok). create_ata_idempotent_instruction spl payer own mint tok) (first_seen fst {} mps)"

section \<open>Assembly (\<open>lib.rs\<close>)\<close>

datatype ('ce, 'se, 'be) bundle_error = CompileMessage 'ce | Sign 'se | Serialize 'be | ExceedsMaxSize nat

record ('ix, 'hash) bundle_params =
  bp_instructions :: "'ix list"
  cu_limit :: u32
  cu_price_micro_lamports :: "u64 option"
  bp_payer :: pubkey
  recent_blockhash :: 'hash
  address_lookup_tables :: "lookup_table list"

text \<open>
  What \<open>assemble\<close> calls: the two compute-budget instructions, the message compiler, the signer
  (\<open>VersionedTransaction::try_new\<close> with one signer) and \<open>bincode::serialize\<close>.
\<close>

record ('ix, 'msg, 'hash, 'signer, 'tx, 'ce, 'se, 'be) tx_sdk =
  compute_unit_limit_ix :: "u32 \<Rightarrow> 'ix"
  compute_unit_price_ix :: "u64 \<Rightarrow> 'ix"
  compile_v0 :: "pubkey \<Rightarrow> 'ix list \<Rightarrow> lookup_table list \<Rightarrow> 'hash \<Rightarrow> 'ce + 'msg"
  sign_tx :: "'msg \<Rightarrow> 'signer list \<Rightarrow> 'se + 'tx"
  serialize_tx :: "'tx \<Rightarrow> 'be + bytes"

definition map_error :: "('e \<Rightarrow> 'f) \<Rightarrow> 'e + 'a \<Rightarrow> 'f + 'a" where
  "map_error f r = (case r of Inl e \<Rightarrow> Inl (f e) | Inr a \<Rightarrow> Inr a)"

definition with_compute_budget ::
  "('ix, 'msg, 'hash, 'signer, 'tx, 'ce, 'se, 'be) tx_sdk \<Rightarrow> ('ix, 'hash) bundle_params \<Rightarrow> 'ix list" where
  "with_compute_budget s p =
     [compute_unit_limit_ix s (cu_limit p)] @
     (case cu_price_micro_lamports p of Some price \<Rightarrow> [compute_unit_price_ix s price] | None \<Rightarrow> []) @
     bp_instructions p"

definition assemble ::
  "('ix, 'msg, 'hash, 'signer, 'tx, 'ce, 'se, 'be) tx_sdk \<Rightarrow> ('ix, 'hash) bundle_params \<Rightarrow> 'signer
     \<Rightarrow> ('ce, 'se, 'be) bundle_error + 'tx" where
  "assemble s p signer =
     and_then (map_error CompileMessage
       (compile_v0 s (bp_payer p) (with_compute_budget s p) (address_lookup_tables p) (recent_blockhash p)))
       (\<lambda>msg. and_then (map_error Sign (sign_tx s msg [signer]))
       (\<lambda>tx. and_then (map_error Serialize (serialize_tx s tx))
       (\<lambda>bytes. if length bytes > MAX_TX_BYTES then Inl (ExceedsMaxSize (length bytes)) else Inr tx)))"

definition to_core_bundle_bytes ::
  "('ix, 'msg, 'hash, 'signer, 'tx, 'ce, 'se, 'be) tx_sdk \<Rightarrow> 'tx \<Rightarrow> ('ce, 'se, 'be) bundle_error + bytes" where
  "to_core_bundle_bytes s tx = map_error Serialize (serialize_tx s tx)"

section \<open>Lemmas\<close>

lemma map_error_iff [rust_simps]:
  "map_error f r = Inr a \<longleftrightarrow> r = Inr a"
  "map_error f r = Inl e \<longleftrightarrow> (\<exists>e'. r = Inl e' \<and> e = f e')"
  by (cases r; auto simp: map_error_def)+

text \<open>An assembled transaction serialises to at most 1232 bytes, and those are the bytes handed on.\<close>

lemma assembled_fits:
  assumes "assemble s p signer = Inr tx"
  shows "\<exists>bs. to_core_bundle_bytes s tx = Inr bs \<and> length bs \<le> MAX_TX_BYTES"
  using assms by (auto simp: assemble_def to_core_bundle_bytes_def rust_simps split: if_splits)

text \<open>Filtering by a growing hash set: distinct keys, the first entry of every key, no entry lost.\<close>

lemma first_seen_keys: "distinct (map key (first_seen key seen xs)) \<and> key ` set (first_seen key seen xs) = key ` set xs - seen"
  by (induction key seen xs rule: first_seen.induct) auto

lemma first_seen_subset: "set (first_seen key seen xs) \<subseteq> set xs"
  by (induction key seen xs rule: first_seen.induct) auto

lemma required_atas_exact:
  "distinct (required_atas spl own mints tok)"
  "set (required_atas spl own mints tok) = (\<lambda>mint. get_ata spl own mint tok) ` set mints"
  using first_seen_keys [of "\<lambda>ata. ata" "{}" "map (\<lambda>mint. get_ata spl own mint tok) mints"]
  by (simp_all add: required_atas_def)

text \<open>
  The creating pass drops a second entry of a mint even under another token program; when every
  mint has one program, the pairs it visits are all pairs, so every required account is created.
\<close>

lemma first_seen_functional:
  assumes "\<And>a b. a \<in> set xs \<Longrightarrow> b \<in> set xs \<Longrightarrow> key a = key b \<Longrightarrow> a = b"
  shows "set (first_seen key {} xs) = set xs"
proof -
  have "x \<in> set (first_seen key {} xs)" if "x \<in> set xs" for x
  proof -
    have "key x \<in> key ` set (first_seen key {} xs)" using that first_seen_keys [of key "{}" xs] by simp
    then obtain y where "y \<in> set (first_seen key {} xs)" "key y = key x" by auto
    then show ?thesis using assms that first_seen_subset [of key "{}" xs] by (metis subsetD)
  qed
  then show ?thesis using first_seen_subset [of key "{}" xs] by blast
qed

lemma created_cover_required:
  assumes "\<And>m t u. (m, t) \<in> set mps \<Longrightarrow> (m, u) \<in> set mps \<Longrightarrow> t = u"
  shows "\<forall>ata\<in>set (required_atas_with_programs spl own mps). \<exists>mint tok. get_ata spl own mint tok = ata \<and>
     create_ata_idempotent spl payer own mint tok \<in> set (create_all_atas_with_programs_idempotent spl payer own mps)"
proof -
  have "set (first_seen fst {} mps) = set mps" by (rule first_seen_functional) (use assms in auto)
  moreover have "set (required_atas_with_programs spl own mps) = (\<lambda>(mint, tok). get_ata spl own mint tok) ` set mps"
    using first_seen_keys [of "\<lambda>ata. ata" "{}" "map (\<lambda>(mint, tok). get_ata spl own mint tok) mps"]
    by (simp add: required_atas_with_programs_def)
  ultimately show ?thesis
    by (force simp: create_all_atas_with_programs_idempotent_def create_ata_idempotent_instruction_def)
qed

text \<open>
  At most 100 percent in basis points: the 128-bit product and the conversion back to 64 bits lose
  nothing, and the fee is at most the amount and at most the cap.
\<close>

lemma transfer_fee_exact:
  assumes "fee_basis_points \<le> 10000"
  shows "unat (calculate_token_2022_transfer_fee a fee_basis_points max_fee) =
     min (unat a * unat fee_basis_points div 10000) (unat max_fee)"
proof -
  have b: "unat fee_basis_points \<le> 10000" using assms by (simp add: word_le_nat_alt)
  have le: "unat a * unat fee_basis_points \<le> unat a * 10000" using b by simp
  have "unat a * 10000 < 2 ^ 128" using unat_less_pow [of a] by simp
  with le have lim: "unat a * unat fee_basis_points < 2 ^ 128" by (rule le_less_trans)
  have q: "unat a * unat fee_basis_points div 10000 \<le> unat a" using div_le_mono [OF le, of 10000] by simp
  have n: "unat ((ucast a :: u128) * ucast fee_basis_points) = unat a * unat fee_basis_points"
    using lim by (simp add: unat_word_ariths unat_ucast_up)
  have f: "unat (ucast (((ucast a :: u128) * ucast fee_basis_points) div 10000) :: u64) =
      unat a * unat fee_basis_points div 10000"
    using q unat_less_pow [of a] by (simp add: unsigned_ucast_eq take_bit_nat_eq_self unat_div n)
  show ?thesis
    by (simp add: calculate_token_2022_transfer_fee_def Let_def min_def word_le_nat_alt f)
qed

text \<open>
  The Save builders list the accounts of the SDK's own builders; only the first data byte differs.
\<close>

lemma save_flash_accounts:
  assumes "token_program ch = spl_token_program_id ch"
  shows "ix_accounts (build_save_flash_borrow_instruction ch prog n a b c d) =
     ix_accounts (ix_flash_borrow_reserve_liquidity ch prog n a b c d)"
    and "ix_accounts (build_save_flash_repay_instruction ch prog n i a b c d e f g) =
     ix_accounts (ix_flash_repay_reserve_liquidity ch prog n i a b c d e f g)"
  using assms
  by (simp_all add: build_save_flash_borrow_instruction_def ix_flash_borrow_reserve_liquidity_def
      build_save_flash_repay_instruction_def ix_flash_repay_reserve_liquidity_def Let_def)

text \<open>C23: the Save program reads the flash-borrow instruction that the engine's bundler builds as
  \<open>DepositReserveLiquidityAndObligationCollateral\<close> and the flash-repay instruction as
  \<open>WithdrawObligationCollateralAndRedeemReserveCollateral\<close> (tags 14 and 15), whatever the amount and
  the accounts, while the SDK's own builders are read as a flash borrow and a flash repay.\<close>

theorem save_flash_loan_misread:
  "unpack_instruction (ix_data (build_save_flash_borrow_instruction ch prog n a b c d)) =
     Inr (Inr (DepositReserveLiquidityAndObligationCollateral n)) \<and>
   unpack_instruction (ix_data (build_save_flash_repay_instruction ch prog n i a b c d e f g)) =
     Inr (Inr (WithdrawObligationCollateralAndRedeemReserveCollateral n)) \<and>
   unpack_instruction (ix_data (ix_flash_borrow_reserve_liquidity ch prog n a b c d)) =
     Inr (Inr (FlashBorrowReserveLiquidity n)) \<and>
   unpack_instruction (ix_data (ix_flash_repay_reserve_liquidity ch prog n i a b c d e f g)) =
     Inr (Inr (FlashRepayReserveLiquidity n i))"
  using unpack_pack [of "DepositReserveLiquidityAndObligationCollateral n" "[]"]
    unpack_pack [of "WithdrawObligationCollateralAndRedeemReserveCollateral n" "[i]"]
  by (simp add: build_save_flash_borrow_instruction_def build_save_flash_repay_instruction_def Let_def
      flash_builders_decode)

end
