(* ===== verification/Submit.thy ===== *)
theory Submit
  imports Core
begin

text \<open>
  \<open>crates/submit/src/dual_path.rs\<close>: the two send paths, the tip-account manager, the static leader
  schedule and the race of \<open>DualPathSubmitter::submit\<close>.  A JSON value is a small tree; the base-64
  encoder and the HTTP exchange are parameters.  Time is counted in milliseconds: what a send
  future does is \<open>Some (d, x)\<close> when it finishes after \<open>d\<close> with \<open>x\<close> and \<open>None\<close> when it never does.
  When both branches of \<open>tokio::select!\<close> are ready it takes either, which is the parameter
  \<open>staked_first\<close>.  The lemmas say whose outcome is reported.
\<close>

section \<open>Requests and responses\<close>

datatype json = JNull | JBool bool | JNum nat | JStr string | JArr "json list" | JObj "(string \<times> json) list"

datatype http_result = Response bool string "json option" | TransportError string

definition json_get :: "json \<Rightarrow> string \<Rightarrow> json option" where
  "json_get v k = (case v of JObj kvs \<Rightarrow> map_of kvs k | _ \<Rightarrow> None)"

definition as_array :: "json \<Rightarrow> json list option" where
  "as_array v = (case v of JArr xs \<Rightarrow> Some xs | _ \<Rightarrow> None)"

definition as_str :: "json \<Rightarrow> string option" where
  "as_str v = (case v of JStr s \<Rightarrow> Some s | _ \<Rightarrow> None)"

definition trim_end_slashes :: "string \<Rightarrow> string" where
  "trim_end_slashes s = rev (dropWhile (\<lambda>c. c = CHR ''/'') (rev s))"

definition json_rpc :: "string \<Rightarrow> json list \<Rightarrow> json" where
  "json_rpc meth params =
     JObj [(''jsonrpc'', JStr ''2.0''), (''id'', JNum 1), (''method'', JStr meth), (''params'', JArr params)]"

text \<open>
  A \<open>reqwest\<close> client with a timeout turns a late answer into an error at the timeout; when the
  builder fails, the default client has none.
\<close>

definition client_timeout :: "bool \<Rightarrow> nat \<Rightarrow> nat option" where
  "client_timeout built ms = (if built then Some ms else None)"

definition exchange :: "nat option \<Rightarrow> (nat \<times> http_result) option \<Rightarrow> (nat \<times> http_result) option" where
  "exchange limit answer =
     (case limit of
        None \<Rightarrow> answer
      | Some t \<Rightarrow> (case answer of
          Some (d, r) \<Rightarrow> if d \<le> t then Some (d, r) else Some (t, TransportError ''operation timed out'')
        | None \<Rightarrow> Some (t, TransportError ''operation timed out'')))"

section \<open>Send paths\<close>

datatype path_outcome = PathLanded u64 f64 | PathReverted revert_reason | PathTimedOut

type_synonym wire = "string \<Rightarrow> json \<Rightarrow> (nat \<times> http_result) option"

record send_path =
  path_send :: "tx_bundle \<Rightarrow> (nat \<times> path_outcome) option"
  path_name :: string

definition http_outcome :: "tx_bundle \<Rightarrow> http_result \<Rightarrow> path_outcome" where
  "http_outcome b r =
     (case r of
        Response ok _ _ \<Rightarrow>
          if ok then PathLanded (bc_slot (candidate (routed (bundle_sim b))) + 1) (net_usd (expected (routed (bundle_sim b))))
          else PathReverted (ProgramError ''transaction failed on-chain'')
      | TransportError _ \<Rightarrow> PathTimedOut)"

definition staked_request :: "(bytes \<Rightarrow> string) \<Rightarrow> tx_bundle \<Rightarrow> json" where
  "staked_request enc b =
     json_rpc ''sendTransaction''
       [JStr (enc (versioned_tx b)),
        JObj [(''skipPreflight'', JBool True), (''preflightCommitment'', JStr ''processed''),
              (''encoding'', JStr ''base64''), (''maxRetries'', JNum 0)]]"

definition staked_quic_path :: "(bytes \<Rightarrow> string) \<Rightarrow> bool \<Rightarrow> wire \<Rightarrow> string \<Rightarrow> send_path" where
  "staked_quic_path enc built net tpu_endpoint =
     \<lparr> path_send = (\<lambda>b. map_option (map_prod id (http_outcome b))
         (exchange (client_timeout built 800) (net tpu_endpoint (staked_request enc b)))),
       path_name = ''staked_quic'' \<rparr>"

definition bundles_endpoint :: "string \<Rightarrow> string" where
  "bundles_endpoint url = trim_end_slashes url @ ''/api/v1/bundles''"

definition jito_request :: "(bytes \<Rightarrow> string) \<Rightarrow> tx_bundle \<Rightarrow> json" where
  "jito_request enc b = json_rpc ''sendBundle'' [JArr [JStr (enc (versioned_tx b))]]"

definition jito_path :: "(bytes \<Rightarrow> string) \<Rightarrow> bool \<Rightarrow> wire \<Rightarrow> string \<Rightarrow> send_path" where
  "jito_path enc built net url =
     \<lparr> path_send = (\<lambda>b. map_option (map_prod id (http_outcome b))
         (exchange (client_timeout built 1500) (net (bundles_endpoint url) (jito_request enc b)))),
       path_name = ''jito_block_engine'' \<rparr>"

section \<open>Tip accounts\<close>

definition DEFAULT_JITO_TIP_ACCOUNTS :: "string list" where
  "DEFAULT_JITO_TIP_ACCOUNTS =
     [''96gYZGLnJYVFmbjzopPSU6QiEV5fGqZNyN9nmNhvrZU5'',
      ''HFqU5x63VTqvQss8hp11i4wVV8bD44PvwucfZ2bU7gRe'',
      ''Cw8CFyM9FkoMi7K7Crf6HNQqf4uEMzpKw6QNghXLvLkY'',
      ''ADaUMid9yfUytqMBgopwjb2DTLSokTSzL1zt6iGPaS49'',
      ''DfXygSm4jCyNCybVYYK6DwvWqjKee8pbDmJGcLWNDXjh'',
      ''ADuUkR4vqLUMWXxW9gh6D6L8pMSawimctcNZ5pGwDcEt'',
      ''DttWaMuVvTiduZRnguLF7jNxTgiMBZ1hyAumKUiL2KRL'',
      ''3AVi9Tg9Uo68tJfuvoKvqKNWKkC5wPdSSdeBnizKZ6jT'']"

record jito_tip_manager =
  tm_block_engine_url :: string
  active_tip_accounts :: "string list"

definition tip_manager_new :: "string \<Rightarrow> jito_tip_manager" where
  "tip_manager_new url = \<lparr> tm_block_engine_url = url, active_tip_accounts = DEFAULT_JITO_TIP_ACCOUNTS \<rparr>"

definition get_active_tip_accounts :: "jito_tip_manager \<Rightarrow> string list" where
  "get_active_tip_accounts m = active_tip_accounts m"

text \<open>\<open>nanos\<close> is the system clock's reading, cut to 64 bits; before the epoch it counts as zero.\<close>

definition random_tip_account :: "jito_tip_manager \<Rightarrow> u64 \<Rightarrow> string" where
  "random_tip_account m nanos =
     (let accounts = get_active_tip_accounts m
      in if accounts = [] then DEFAULT_JITO_TIP_ACCOUNTS ! 0 else accounts ! (unat nanos mod length accounts))"

definition update_accounts :: "jito_tip_manager \<Rightarrow> string list \<Rightarrow> jito_tip_manager" where
  "update_accounts m accounts = m\<lparr>active_tip_accounts := accounts\<rparr>"

definition fallback_to_defaults :: "jito_tip_manager \<Rightarrow> string \<Rightarrow> (string + string list) \<times> jito_tip_manager" where
  "fallback_to_defaults m reason =
     (Inl (''Fallback to defaults: '' @ reason), update_accounts m DEFAULT_JITO_TIP_ACCOUNTS)"

definition parsed_tip_accounts :: "json option \<Rightarrow> string list" where
  "parsed_tip_accounts body =
     (case Option.bind body (\<lambda>v. Option.bind (json_get v ''result'') as_array) of
        Some arr \<Rightarrow> List.map_filter as_str arr
      | None \<Rightarrow> [])"

text \<open>\<open>post\<close> gives the result of the exchange under the client's timeout of 1500 ms.\<close>

definition refresh_tip_accounts ::
  "(string \<Rightarrow> json \<Rightarrow> http_result) \<Rightarrow> jito_tip_manager \<Rightarrow> (string + string list) \<times> jito_tip_manager" where
  "refresh_tip_accounts post m =
     (case post (bundles_endpoint (tm_block_engine_url m)) (json_rpc ''getTipAccounts'' []) of
        Response ok status body \<Rightarrow>
          if ok then
            (let parsed = parsed_tip_accounts body
             in if parsed \<noteq> [] then (Inr parsed, update_accounts m parsed)
                else fallback_to_defaults m ''invalid or empty JSON-RPC response from getTipAccounts'')
          else fallback_to_defaults m (''HTTP error '' @ status)
      | TransportError e \<Rightarrow> fallback_to_defaults m (''network error: '' @ e))"

section \<open>Leader schedule\<close>

text \<open>
  The loop over \<open>current_slot..=current_slot + leaders_ahead\<close>: the upper end wraps at 64 bits, and
  a range whose end lies before its start is empty.
\<close>

definition has_jito_leader_in_window :: "u64 list \<Rightarrow> u64 \<Rightarrow> u32 \<Rightarrow> bool" where
  "has_jito_leader_in_window jito_slots current_slot ahead =
     (current_slot \<le> current_slot + ucast ahead \<and>
      list_ex (\<lambda>k. current_slot + of_nat k \<in> set jito_slots) [0..<Suc (unat ahead)])"

section \<open>The race\<close>

record dual_path_submitter =
  staked_quic :: send_path
  jito :: send_path
  race_timeout :: nat
  leaders_ahead :: u32
  leader_schedule :: "(u64 \<Rightarrow> u32 \<Rightarrow> bool) option"

definition submitter_new :: "send_path \<Rightarrow> send_path \<Rightarrow> nat \<Rightarrow> dual_path_submitter" where
  "submitter_new sq ji t =
     \<lparr> staked_quic = sq, jito = ji, race_timeout = t, leaders_ahead = 2, leader_schedule = None \<rparr>"

definition with_leader_schedule :: "dual_path_submitter \<Rightarrow> u32 \<Rightarrow> (u64 \<Rightarrow> u32 \<Rightarrow> bool) \<Rightarrow> dual_path_submitter" where
  "with_leader_schedule s ahead schedule = s\<lparr>leaders_ahead := ahead, leader_schedule := Some schedule\<rparr>"

definition should_send_jito :: "dual_path_submitter \<Rightarrow> u64 \<Rightarrow> bool" where
  "should_send_jito s slot = (case leader_schedule s of Some sched \<Rightarrow> sched slot (leaders_ahead s) | None \<Rightarrow> True)"

text \<open>\<open>tokio::time::timeout\<close> polls the future before the clock, so finishing at the limit counts.\<close>

definition timeout_of :: "nat \<Rightarrow> (nat \<times> 'a) option \<Rightarrow> 'a option" where
  "timeout_of t fut = (case fut of Some (d, x) \<Rightarrow> if d \<le> t then Some x else None | None \<Rightarrow> None)"

definition select_of :: "bool \<Rightarrow> (nat \<times> 'a) option \<Rightarrow> (nat \<times> 'a) option \<Rightarrow> (nat \<times> 'a) option" where
  "select_of staked_first f g =
     (case f of
        None \<Rightarrow> g
      | Some (d, x) \<Rightarrow> (case g of
          None \<Rightarrow> Some (d, x)
        | Some (e, y) \<Rightarrow> if d < e \<or> d = e \<and> staked_first then Some (d, x) else Some (e, y)))"

definition to_submit_outcome :: "path_outcome option \<Rightarrow> submit_outcome" where
  "to_submit_outcome r =
     (case r of
        Some (PathLanded slot usd) \<Rightarrow> Landed slot usd
      | Some (PathReverted reason) \<Rightarrow> Reverted reason
      | Some PathTimedOut \<Rightarrow> NotIncluded
      | None \<Rightarrow> NotIncluded)"

definition submit :: "bool \<Rightarrow> dual_path_submitter \<Rightarrow> tx_bundle \<Rightarrow> submit_outcome" where
  "submit staked_first s b =
     (if \<not> should_send_jito s (bc_slot (candidate (routed (bundle_sim b))))
      then to_submit_outcome (timeout_of (race_timeout s) (path_send (staked_quic s) b))
      else to_submit_outcome (timeout_of (race_timeout s)
             (select_of staked_first (path_send (staked_quic s) b) (path_send (jito s) b))))"

section \<open>Tip accounts are always available\<close>

definition tip_manager_inv :: "jito_tip_manager \<Rightarrow> bool" where
  "tip_manager_inv m \<longleftrightarrow> active_tip_accounts m \<noteq> []"

lemma tip_manager_inv_ops:
  "tip_manager_inv (tip_manager_new url)"
  "tip_manager_inv (snd (refresh_tip_accounts post m))"
  by (auto simp: tip_manager_inv_def tip_manager_new_def DEFAULT_JITO_TIP_ACCOUNTS_def refresh_tip_accounts_def
      fallback_to_defaults_def update_accounts_def Let_def split: http_result.splits)

lemma random_tip_account_active: "tip_manager_inv m \<Longrightarrow> random_tip_account m nanos \<in> set (active_tip_accounts m)"
  by (simp add: tip_manager_inv_def random_tip_account_def get_active_tip_accounts_def Let_def)

lemma random_tip_account_total: "random_tip_account m nanos \<in> set (active_tip_accounts m) \<union> set DEFAULT_JITO_TIP_ACCOUNTS"
  by (auto simp: random_tip_account_def get_active_tip_accounts_def Let_def DEFAULT_JITO_TIP_ACCOUNTS_def)

text \<open>A failed refresh reports an error and leaves the verified defaults active.\<close>

lemma refresh_error_means_defaults:
  "fst (refresh_tip_accounts post m) = Inl e \<Longrightarrow>
     active_tip_accounts (snd (refresh_tip_accounts post m)) = DEFAULT_JITO_TIP_ACCOUNTS"
  by (auto simp: refresh_tip_accounts_def fallback_to_defaults_def update_accounts_def Let_def
      split: http_result.splits if_splits)

section \<open>The leader window\<close>

text \<open>Away from the end of the slot range the loop visits exactly the slots of the window.\<close>

lemma leader_window:
  assumes "unat cur + unat ahead < 2 ^ 64"
  shows "has_jito_leader_in_window jito_slots cur ahead \<longleftrightarrow>
     (\<exists>slot \<in> set jito_slots. unat cur \<le> unat slot \<and> unat slot \<le> unat cur + unat ahead)"
proof -
  have up: "unat (cur + of_nat k) = unat cur + k" if "k \<le> unat ahead" for k
    using assms that by (simp add: unat_word_ariths unat_of_nat)
  have "ucast ahead = (of_nat (unat ahead) :: u64)" by (simp add: of_nat_unat)
  then have le: "cur \<le> cur + ucast ahead" using up [of "unat ahead"] by (simp add: word_le_nat_alt del: of_nat_unat)
  have "(\<exists>k \<le> unat ahead. cur + of_nat k = slot) \<longleftrightarrow> unat cur \<le> unat slot \<and> unat slot \<le> unat cur + unat ahead" for slot
  proof
    assume "unat cur \<le> unat slot \<and> unat slot \<le> unat cur + unat ahead"
    then have "unat slot - unat cur \<le> unat ahead" "unat (cur + of_nat (unat slot - unat cur)) = unat slot"
      using up [of "unat slot - unat cur"] by auto
    then show "\<exists>k \<le> unat ahead. cur + of_nat k = slot" by (metis word_unat_eq_iff)
  qed (use up in auto)
  moreover have "has_jito_leader_in_window jito_slots cur ahead \<longleftrightarrow> (\<exists>slot \<in> set jito_slots. \<exists>k \<le> unat ahead. cur + of_nat k = slot)"
    unfolding has_jito_leader_in_window_def list_ex_iff set_upt using le
    by (metis atLeastLessThan_iff le_imp_less_Suc less_Suc_eq_le zero_le)
  ultimately show ?thesis by simp
qed

section \<open>Whose outcome is reported\<close>

definition sent_paths :: "dual_path_submitter \<Rightarrow> tx_bundle \<Rightarrow> send_path list" where
  "sent_paths s b =
     staked_quic s # (if should_send_jito s (bc_slot (candidate (routed (bundle_sim b)))) then [jito s] else [])"

text \<open>The path \<open>p\<close> finishes in time with \<open>x\<close>, and no path that was sent finishes before it.\<close>

definition finishes_first :: "dual_path_submitter \<Rightarrow> tx_bundle \<Rightarrow> path_outcome \<Rightarrow> bool" where
  "finishes_first s b x \<longleftrightarrow> (\<exists>p \<in> set (sent_paths s b). \<exists>d \<le> race_timeout s.
     path_send p b = Some (d, x) \<and> (\<forall>q \<in> set (sent_paths s b). \<forall>e y. path_send q b = Some (e, y) \<longrightarrow> d \<le> e))"

definition none_finishes :: "dual_path_submitter \<Rightarrow> tx_bundle \<Rightarrow> bool" where
  "none_finishes s b \<longleftrightarrow> (\<forall>p \<in> set (sent_paths s b). \<forall>d x. path_send p b = Some (d, x) \<longrightarrow> race_timeout s < d)"

lemma submit_cases:
  obtains x where "submit sf s b = to_submit_outcome (Some x)" and "finishes_first s b x"
  | "submit sf s b = to_submit_outcome None" and "none_finishes s b"
proof (cases "should_send_jito s (bc_slot (candidate (routed (bundle_sim b))))")
  case False
  then have sub: "submit sf s b = to_submit_outcome (timeout_of (race_timeout s) (path_send (staked_quic s) b))"
    by (simp add: submit_def)
  show thesis
  proof (cases "timeout_of (race_timeout s) (path_send (staked_quic s) b)")
    case None
    then have "none_finishes s b"
      using False by (auto simp: none_finishes_def sent_paths_def timeout_of_def split: if_splits)
    then show thesis using sub None that(2) by simp
  next
    case (Some x)
    then have "finishes_first s b x"
      using False by (auto simp: finishes_first_def sent_paths_def timeout_of_def split: option.splits if_splits)
    then show thesis using sub Some that(1) by simp
  qed
next
  case True
  let ?f = "path_send (staked_quic s) b" and ?g = "path_send (jito s) b"
  have sub: "submit sf s b = to_submit_outcome (timeout_of (race_timeout s) (select_of sf ?f ?g))"
    using True by (simp add: submit_def)
  show thesis
  proof (cases "timeout_of (race_timeout s) (select_of sf ?f ?g)")
    case None
    then have "none_finishes s b"
      using True by (auto simp: none_finishes_def sent_paths_def timeout_of_def select_of_def split: option.splits if_splits)
    then show thesis using sub None that(2) by simp
  next
    case (Some x)
    then have "finishes_first s b x"
      using True
      by (fastforce simp: finishes_first_def sent_paths_def timeout_of_def select_of_def split: option.splits if_splits)
    then show thesis using sub Some that(1) by simp
  qed
qed

text \<open>
  C11: The submitter reports the outcome of the path that finishes first within the timeout among
  the paths it sends on (the Jito path only when a Jito leader is scheduled in the window): it
  says landed or reverted only when that path said so, with its slot, profit and reason, and it
  says not included only when no path finished in time or the first to finish gave up.
\<close>

theorem submit_reports_first_finisher:
  "case submit sf s b of
     Landed slot usd \<Rightarrow> finishes_first s b (PathLanded slot usd)
   | Reverted reason \<Rightarrow> finishes_first s b (PathReverted reason)
   | NotIncluded \<Rightarrow> none_finishes s b \<or> finishes_first s b PathTimedOut"
proof (rule submit_cases [of sf s b])
  fix x
  assume "submit sf s b = to_submit_outcome (Some x)" and "finishes_first s b x"
  then show ?thesis by (cases x) (simp_all add: to_submit_outcome_def)
qed (simp add: to_submit_outcome_def)

text \<open>
  C12: The race keeps only its first finisher, so an error of the staked endpoint hides a landed
  bundle: when that endpoint has not answered within its client timeout of 800 ms, the submitter
  reports not included even though the block engine accepts the bundle before the timeout of the
  race; alone on the wire the same Jito path would have been reported as landed.
\<close>

theorem staked_timeout_hides_jito_landing:
  fixes enc :: "bytes \<Rightarrow> string" and net net' :: wire and url tpu :: string and b :: tx_bundle
  defines "sq \<equiv> staked_quic_path enc True net tpu" and "ji \<equiv> jito_path enc True net' url"
  assumes "\<And>d r. net tpu (staked_request enc b) = Some (d, r) \<Longrightarrow> 800 < d"
    and "net' (bundles_endpoint url) (jito_request enc b) = Some (d, Response True st body)"
    and "800 < d" and "d \<le> 1500"
  shows "submit sf (submitter_new sq ji 1500) b = NotIncluded \<and>
     (\<exists>slot usd. path_send ji b = Some (d, PathLanded slot usd) \<and>
        submit sf (submitter_new \<lparr> path_send = (\<lambda>_. None), path_name = ''staked_quic'' \<rparr> ji 1500) b = Landed slot usd)"
proof -
  have "path_send sq b = Some (800, PathTimedOut)"
    using assms(3)
    by (cases "net tpu (staked_request enc b)")
       (auto simp: sq_def staked_quic_path_def exchange_def client_timeout_def http_outcome_def not_le)
  moreover have "\<exists>slot usd. path_send ji b = Some (d, PathLanded slot usd)"
    using assms(4,6) by (simp add: ji_def jito_path_def exchange_def client_timeout_def http_outcome_def)
  ultimately show ?thesis
    using assms(5,6)
    by (auto simp: submit_def submitter_new_def should_send_jito_def select_of_def timeout_of_def to_submit_outcome_def)
qed

definition demo_bundle :: tx_bundle where
  "demo_bundle =
     \<lparr> bundle_sim = \<lparr> routed = \<lparr> candidate = \<lparr> bc_protocol = Kamino, position_id = [1], collateral_mint = [2],
           debt_mint = [3], health_factor = Fin 0, close_factor_max_repay = 1000, bc_slot = 100 \<rparr>,
         repay_amount = 500, flash_source = \<lparr> fs_protocol = Kamino, reserve = [4], fee_bps = 5 \<rparr>,
         expected = \<lparr> bonus_usd = Fin 40, est_slippage_usd = Fin 2, flash_fee_usd = Fin 1, est_cu_cost_usd = Fin 0,
           bid_tip_usd = Fin 10, net_usd = Fin 27 \<rparr> \<rparr>,
         feasible = True, cu_measured = 150000, tx_bytes = 900, profitable = True \<rparr>,
       versioned_tx = [0, 0, 0, 0], alt_keys = [] \<rparr>"

theorem staked_timeout_hides_jito_landing_witness:
  "submit False (submitter_new (staked_quic_path (\<lambda>_. []) True (\<lambda>_ _. None) ''tpu'')
      (jito_path (\<lambda>_. []) True (\<lambda>_ _. Some (1000, Response True ''200 OK'' None)) ''url/'') 1500) demo_bundle = NotIncluded"
  using staked_timeout_hides_jito_landing [where net = "\<lambda>_ _. None" and d = 1000 and sf = False and b = demo_bundle
      and enc = "\<lambda>_. []" and tpu = "''tpu''" and url = "''url/''" and st = "''200 OK''" and body = None
      and net' = "\<lambda>_ _. Some (1000, Response True ''200 OK'' None)"]
  by simp

end
