(* ===== verification/Store.thy ===== *)
theory Store
  imports Core
begin

text \<open>
  \<open>crates/store\<close>: the position book with its snapshots (\<open>position_book.rs\<close>), and the
  append-only liquidation log with its export and its background writer
  (\<open>liquidation_log.rs\<close>).  The part of \<open>std::fs\<close> the sources use is modelled: files are texts
  under paths, in directories that may be missing and can be created; opening a file or creating a
  directory may be refused.  \<open>serde_json\<close> and the number formatters are
  parameters; what the log's round trip needs of \<open>serde_json\<close> is the hypothesis \<open>stored_as\<close>.
\<close>

section \<open>Files\<close>

datatype io_error = NotFound | PermissionDenied | InvalidData

text \<open>
  A directory is named by whether it starts at the root and by its components, innermost first.  Empty
  components and single dots do not count, as in \<open>Path::components\<close>.
\<close>

type_synonym directory = "bool \<times> string list"

fun split_slash :: "string \<Rightarrow> string list" where
  "split_slash [] = [[]]"
| "split_slash (c # cs) =
     (if c = CHR ''/'' then [] # split_slash cs
      else case split_slash cs of [] \<Rightarrow> [[c]] | w # ws \<Rightarrow> (c # w) # ws)"

definition directory_of :: "string \<Rightarrow> directory" where
  "directory_of path =
     (path \<noteq> [] \<and> hd path = CHR ''/'', rev (filter (\<lambda>c. c \<noteq> [] \<and> c \<noteq> ''.'') (split_slash path)))"

definition parent_of :: "string \<Rightarrow> directory option" where
  "parent_of path = (case directory_of path of (is_abs, []) \<Rightarrow> None | (is_abs, _ # up) \<Rightarrow> Some (is_abs, up))"

record file_system =
  files :: "string \<rightharpoonup> string"
  dirs :: "directory \<Rightarrow> bool"
  may_write :: "string \<Rightarrow> bool"
  may_create :: "directory \<Rightarrow> bool"

text \<open>
  The root and the working directory exist always.  A file can be opened for writing when its
  directory exists and the permissions allow it.
\<close>

definition dir_exists :: "file_system \<Rightarrow> directory \<Rightarrow> bool" where
  "dir_exists fs d \<longleftrightarrow> snd d = [] \<or> dirs fs d"

definition writable :: "file_system \<Rightarrow> string \<Rightarrow> bool" where
  "writable fs path \<longleftrightarrow>
     may_write fs path \<and> (case parent_of path of None \<Rightarrow> False | Some d \<Rightarrow> dir_exists fs d)"

text \<open>
  \<open>std::fs::create_dir_all\<close>: the missing ancestors are created first.  A failure leaves behind what
  was already created.
\<close>

fun fs_create_dir_all :: "file_system \<Rightarrow> bool \<Rightarrow> string list \<Rightarrow> (io_error + unit) \<times> file_system" where
  "fs_create_dir_all fs is_abs [] = (Inr (), fs)"
| "fs_create_dir_all fs is_abs (c # up) =
     (if dirs fs (is_abs, c # up) then (Inr (), fs)
      else case fs_create_dir_all fs is_abs up of
        (Inl e, fs') \<Rightarrow> (Inl e, fs')
      | (Inr _, fs') \<Rightarrow>
          if may_create fs' (is_abs, c # up)
          then (Inr (), fs'\<lparr>dirs := (dirs fs')((is_abs, c # up) := True)\<rparr>)
          else (Inl PermissionDenied, fs'))"

text \<open>Creating the directory of a file, as its users do; a path without a parent needs none.\<close>

definition fs_create_parent :: "file_system \<Rightarrow> string \<Rightarrow> (io_error + unit) \<times> file_system" where
  "fs_create_parent fs path =
     (case parent_of path of None \<Rightarrow> (Inr (), fs) | Some (is_abs, up) \<Rightarrow> fs_create_dir_all fs is_abs up)"

definition fs_read :: "file_system \<Rightarrow> string \<Rightarrow> io_error + string" where
  "fs_read fs path = (case files fs path of Some c \<Rightarrow> Inr c | None \<Rightarrow> Inl NotFound)"

definition open_error :: "file_system \<Rightarrow> string \<Rightarrow> io_error" where
  "open_error fs path =
     (case parent_of path of
        None \<Rightarrow> PermissionDenied
      | Some d \<Rightarrow> if dir_exists fs d then PermissionDenied else NotFound)"

definition fs_write :: "file_system \<Rightarrow> string \<Rightarrow> string \<Rightarrow> io_error + file_system" where
  "fs_write fs path c =
     (if writable fs path then Inr (fs\<lparr>files := (files fs)(path \<mapsto> c)\<rparr>) else Inl (open_error fs path))"

text \<open>\<open>OpenOptions::new().create(true).append(true)\<close> followed by a write.\<close>

definition fs_append :: "file_system \<Rightarrow> string \<Rightarrow> string \<Rightarrow> io_error + file_system" where
  "fs_append fs path c =
     (if writable fs path
      then Inr (fs\<lparr>files := (files fs)(path \<mapsto> (case files fs path of Some old \<Rightarrow> old | None \<Rightarrow> []) @ c)\<rparr>)
      else Inl (open_error fs path))"

text \<open>\<open>str::lines\<close>: split at line feeds, dropping a carriage return before one.\<close>

abbreviation LF :: char where "LF \<equiv> CHR 10"
abbreviation CR :: char where "CR \<equiv> CHR 13"

definition strip_cr :: "string \<Rightarrow> string" where
  "strip_cr l = (if l \<noteq> [] \<and> last l = CR then butlast l else l)"

function lines_of :: "string \<Rightarrow> string list" where
  "lines_of s =
     (if s = [] then []
      else case dropWhile (\<lambda>c. c \<noteq> LF) s of
        [] \<Rightarrow> [s]
      | _ # rest \<Rightarrow> strip_cr (takeWhile (\<lambda>c. c \<noteq> LF) s) # lines_of rest)"
  by pat_completeness auto
termination
proof (relation "measure length")
  fix s rest and x :: char
  assume "dropWhile (\<lambda>c. c \<noteq> LF) s = x # rest"
  then have "length (x # rest) \<le> length s" by (metis length_dropWhile_le)
  then show "(rest, s) \<in> measure length" by simp
qed simp

declare lines_of.simps [simp del]

definition is_whitespace :: "char \<Rightarrow> bool" where
  "is_whitespace c \<longleftrightarrow> of_char c \<in> {9 :: nat, 10, 11, 12, 13, 32}"

definition is_blank :: "string \<Rightarrow> bool" where
  "is_blank s = list_all is_whitespace s"

datatype 'e store_error = StoreIo string io_error | Serde 'e | CapacityExceeded string

section \<open>Position book\<close>

record position_record =
  pr_protocol :: protocol
  pr_position_id :: pubkey
  pr_collateral_mint :: pubkey
  pr_debt_mint :: pubkey
  pr_health_factor :: f64
  last_updated_slot :: u64

record position_book =
  positions :: "(pubkey, position_record) hashmap"

definition book_new :: position_book where
  "book_new = \<lparr> positions = hm_new \<rparr>"

definition book_upsert :: "position_book \<Rightarrow> position_record \<Rightarrow> position_book" where
  "book_upsert b r = b\<lparr>positions := hm_insert (pr_position_id r) r (positions b)\<rparr>"

definition book_get :: "position_book \<Rightarrow> pubkey \<Rightarrow> position_record option" where
  "book_get b k = hm_get (positions b) k"

definition book_remove :: "position_book \<Rightarrow> pubkey \<Rightarrow> position_record option \<times> position_book" where
  "book_remove b k = (hm_get (positions b) k, b\<lparr>positions := hm_remove k (positions b)\<rparr>)"

definition book_len :: "position_book \<Rightarrow> nat" where
  "book_len b = hm_len (positions b)"

definition book_is_empty :: "position_book \<Rightarrow> bool" where
  "book_is_empty b = (positions b = [])"

definition book_iter :: "position_book \<Rightarrow> position_record list" where
  "book_iter b = map snd (positions b)"

definition book_snapshot ::
  "(position_record list \<Rightarrow> 'e + string) \<Rightarrow> position_book \<Rightarrow> string \<Rightarrow> file_system \<Rightarrow> 'e store_error + file_system" where
  "book_snapshot to_json b path fs =
     and_then (map_err Serde (to_json (book_iter b))) (\<lambda>json. map_err (StoreIo path) (fs_write fs path json))"

definition book_restore ::
  "(string \<Rightarrow> 'e + position_record list) \<Rightarrow> string \<Rightarrow> file_system \<Rightarrow> 'e store_error + position_book" where
  "book_restore from_json path fs =
     and_then (map_err (StoreIo path) (fs_read fs path)) (\<lambda>json.
     and_then (map_err Serde (from_json json)) (\<lambda>rs. Inr (foldl book_upsert book_new rs)))"

section \<open>Liquidation log\<close>

datatype export_format = Csv | Json

record liquidation_log =
  log_records :: "liquidation_record list"
  backing_file :: "string option"

definition log_in_memory :: liquidation_log where
  "log_in_memory = \<lparr> log_records = [], backing_file = None \<rparr>"

text \<open>Parsing the lines in order; the first failure is returned.\<close>

fun parse_lines :: "(string \<Rightarrow> 'e + 'a) \<Rightarrow> string list \<Rightarrow> 'e + 'a list" where
  "parse_lines from_json [] = Inr []"
| "parse_lines from_json (l # ls) =
     and_then (from_json l) (\<lambda>r. and_then (parse_lines from_json ls) (\<lambda>rs. Inr (r # rs)))"

definition log_open ::
  "(string \<Rightarrow> 'e + liquidation_record) \<Rightarrow> string \<Rightarrow> file_system \<Rightarrow> 'e store_error + liquidation_log" where
  "log_open from_json path fs =
     (if files fs path = None then Inr \<lparr> log_records = [], backing_file = Some path \<rparr>
      else
        and_then (map_err (StoreIo path) (fs_read fs path)) (\<lambda>contents.
        and_then (map_err Serde (parse_lines from_json (filter (\<lambda>l. \<not> is_blank l) (lines_of contents)))) (\<lambda>rs.
          Inr \<lparr> log_records = rs, backing_file = Some path \<rparr>)))"

definition log_append ::
  "(liquidation_record \<Rightarrow> 'e + string) \<Rightarrow> liquidation_log \<Rightarrow> liquidation_record \<Rightarrow> file_system
     \<Rightarrow> 'e store_error + (liquidation_log \<times> file_system)" where
  "log_append to_json l r fs =
     and_then
       (case backing_file l of
          None \<Rightarrow> Inr fs
        | Some path \<Rightarrow>
            and_then (map_err Serde (to_json r)) (\<lambda>line.
              map_err (StoreIo path) (fs_append fs path (line @ [LF]))))
       (\<lambda>fs'. Inr (l\<lparr>log_records := log_records l @ [r]\<rparr>, fs'))"

definition log_len :: "liquidation_log \<Rightarrow> nat" where
  "log_len l = length (log_records l)"

definition log_is_empty :: "liquidation_log \<Rightarrow> bool" where
  "log_is_empty l = (log_records l = [])"

definition log_iter :: "liquidation_log \<Rightarrow> liquidation_record list" where
  "log_iter l = log_records l"

text \<open>The formatters of the CSV export: decimal integers, two decimals, base58, debug.\<close>

record formatters =
  fmt_u64 :: "u64 \<Rightarrow> string"
  fmt_usd :: "f64 \<Rightarrow> string"
  fmt_pubkey :: "pubkey \<Rightarrow> string"
  fmt_reason :: "revert_reason \<Rightarrow> string"

definition csv_header :: string where
  "csv_header = ''protocol,position_id,repay_amount,flash_source_protocol,net_usd_expected,submitted_at_slot,resolved_at_slot,outcome'' @ [LF]"

definition csv_outcome :: "formatters \<Rightarrow> submit_outcome \<Rightarrow> string" where
  "csv_outcome f out =
     (case out of
        Landed slot net \<Rightarrow> ''landed@'' @ fmt_u64 f slot @ '':'' @ fmt_usd f net
      | Reverted reason \<Rightarrow> ''reverted:'' @ fmt_reason f reason
      | NotIncluded \<Rightarrow> ''not_included'')"

definition csv_row :: "formatters \<Rightarrow> liquidation_record \<Rightarrow> string" where
  "csv_row f r =
     (let rt = lr_routed r; c = candidate rt
      in protocol_display (bc_protocol c) @ '','' @ fmt_pubkey f (position_id c) @ '','' @
         fmt_u64 f (repay_amount rt) @ '','' @ protocol_display (fs_protocol (flash_source rt)) @ '','' @
         fmt_usd f (net_usd (expected rt)) @ '','' @ fmt_u64 f (submitted_at_slot r) @ '','' @
         fmt_u64 f (resolved_at_slot r) @ '','' @ csv_outcome f (lr_outcome r) @ [LF])"

definition log_export ::
  "(liquidation_record list \<Rightarrow> 'e + string) \<Rightarrow> formatters \<Rightarrow> liquidation_log \<Rightarrow> u64 \<Rightarrow> u64 \<Rightarrow> export_format
     \<Rightarrow> 'e store_error + string" where
  "log_export to_json f l from_slot to_slot fmt =
     (let chosen = filter (\<lambda>r. from_slot \<le> submitted_at_slot r \<and> submitted_at_slot r < to_slot) (log_records l)
      in case fmt of
           Json \<Rightarrow> map_err Serde (to_json chosen)
         | Csv \<Rightarrow> Inr (foldl (\<lambda>out r. out @ csv_row f r) csv_header chosen))"

section \<open>The background writer\<close>

text \<open>
  The bounded channel between the engine and the writer task, and one turn of the task: it
  creates the directory of the log before anything else, then takes the oldest record and appends
  its line.  The errors of all three are dropped, and the record with them.
\<close>

record async_writer =
  aw_queue :: "liquidation_record list"
  aw_capacity :: nat
  aw_path :: string
  aw_started :: bool

definition try_record :: "async_writer \<Rightarrow> liquidation_record \<Rightarrow> 'e store_error + async_writer" where
  "try_record w r =
     (if length (aw_queue w) < aw_capacity w then Inr (w\<lparr>aw_queue := aw_queue w @ [r]\<rparr>)
      else Inl (CapacityExceeded ''Async log channel full: no available capacity''))"

text \<open>
  \<open>spawn\<close>: a channel of zero capacity panics.  The awaiting \<open>record\<close> is pending, \<open>None\<close>, while the
  channel is full; the receiver lives as long as the task.
\<close>

definition writer_spawn :: "string \<Rightarrow> nat \<Rightarrow> panic + async_writer" where
  "writer_spawn path buffer_size =
     (if buffer_size = 0 then Inl Panic else Inr \<lparr> aw_queue = [], aw_capacity = buffer_size, aw_path = path, aw_started = False \<rparr>)"

definition writer_record :: "async_writer \<Rightarrow> liquidation_record \<Rightarrow> async_writer option" where
  "writer_record w r =
     (if length (aw_queue w) < aw_capacity w then Some (w\<lparr>aw_queue := aw_queue w @ [r]\<rparr>) else None)"

definition writer_turn ::
  "(liquidation_record \<Rightarrow> 'e + string) \<Rightarrow> async_writer \<Rightarrow> file_system \<Rightarrow> async_writer \<times> file_system" where
  "writer_turn to_json w fs0 =
     (let fs = (if aw_started w then fs0 else snd (fs_create_parent fs0 (aw_path w)))
      in case aw_queue w of
        [] \<Rightarrow> (w\<lparr>aw_started := True\<rparr>, fs)
      | r # rs \<Rightarrow>
          (w\<lparr>aw_queue := rs, aw_started := True\<rparr>,
           (case to_json r of
              Inr line \<Rightarrow> (case fs_append fs (aw_path w) (line @ [LF]) of Inr fs' \<Rightarrow> fs' | Inl _ \<Rightarrow> fs)
            | Inl _ \<Rightarrow> fs)))"

section \<open>The position book answers as a map and survives a restart\<close>

definition book_wf :: "position_book \<Rightarrow> bool" where
  "book_wf b \<longleftrightarrow> hm_wf (positions b) \<and> (\<forall>k r. hm_get (positions b) k = Some r \<longrightarrow> pr_position_id r = k)"

lemma book_wf_new: "book_wf book_new"
  by (simp add: book_wf_def book_new_def)

lemma book_wf_upsert: "book_wf b \<Longrightarrow> book_wf (book_upsert b r)"
  by (simp add: book_wf_def book_upsert_def)

lemma book_wf_remove: "book_wf b \<Longrightarrow> book_wf (snd (book_remove b k))"
  by (simp add: book_wf_def book_remove_def)

lemma book_get_upsert: "book_get (book_upsert b r) k = (if k = pr_position_id r then Some r else book_get b k)"
  by (simp add: book_get_def book_upsert_def)

lemma book_upsert_all:
  "positions (foldl book_upsert b rs) = fold (\<lambda>(k, v). hm_insert k v) (map (\<lambda>r. (pr_position_id r, r)) rs) (positions b)"
  by (induction rs arbitrary: b) (simp_all add: book_upsert_def)

text \<open>Under \<open>book_wf\<close> the entries are the records keyed by their own position.\<close>

lemma book_entries: "book_wf b \<Longrightarrow> map (\<lambda>r. (pr_position_id r, r)) (book_iter b) = positions b"
  unfolding book_wf_def book_iter_def by (auto simp: hm_entries_iff [symmetric] intro!: map_idI)

text \<open>
  A position book written to a snapshot and restored answers every lookup as before,
  although the records are written in the arbitrary order of the hash map, provided the
  serializer reads back what it wrote for these records and the path can be written.
\<close>

lemma position_book_snapshot_roundtrip:
  assumes "book_wf b" and "writable fs path"
    and "to_json (book_iter b) = Inr json" and "from_json json = Inr (book_iter b)"
  shows "\<exists>fs' b'. book_snapshot to_json b path fs = Inr fs' \<and> book_restore from_json path fs' = Inr b' \<and>
     (\<forall>k. book_get b' k = book_get b k) \<and> book_len b' = book_len b"
proof -
  let ?b' = "foldl book_upsert book_new (book_iter b)"
  let ?fs' = "fs\<lparr>files := (files fs)(path \<mapsto> json)\<rparr>"
  have get: "hm_get (positions ?b') = hm_get (positions b)"
    using hm.reinsert_entries [of "positions b" "positions b"] assms(1)
    by (simp add: book_upsert_all book_entries book_new_def book_wf_def)
  have "hm_wf (positions ?b')"
    by (simp add: book_upsert_all book_new_def hm.insert_fold_invar)
  with get assms(1) have "book_len ?b' = book_len b"
    by (simp add: book_len_def hm_len_card book_wf_def)
  moreover have "book_snapshot to_json b path fs = Inr ?fs'"
    using assms by (simp add: book_snapshot_def fs_write_def)
  moreover have "book_restore from_json path ?fs' = Inr ?b'"
    using assms by (simp add: book_restore_def fs_read_def)
  ultimately show ?thesis using get by (auto simp: book_get_def)
qed

definition demo_position :: position_record where
  "demo_position = \<lparr> pr_protocol = Kamino, pr_position_id = replicate 32 4, pr_collateral_mint = replicate 32 8,
     pr_debt_mint = replicate 32 9, pr_health_factor = Fin 1, last_updated_slot = 7 \<rparr>"

definition demo_fs :: file_system where
  "demo_fs = \<lparr> files = Map.empty, dirs = (\<lambda>_. False), may_write = (\<lambda>_. True), may_create = (\<lambda>_. True) \<rparr>"

lemma demo_fs_writable: "writable demo_fs ''p''"
  by (simp add: demo_fs_def writable_def parent_of_def directory_of_def dir_exists_def)

lemma position_book_snapshot_roundtrip_witness:
  "\<exists>fs' b'. book_snapshot (\<lambda>_. Inr ''x'' :: unit + string) (book_upsert book_new demo_position) ''p'' demo_fs = Inr fs' \<and>
     book_restore (\<lambda>_. Inr [demo_position] :: unit + position_record list) ''p'' fs' = Inr b' \<and>
     book_get b' (replicate 32 4) = Some demo_position"
proof -
  have "book_iter (book_upsert book_new demo_position) = [demo_position]"
    by (simp add: book_iter_def book_upsert_def book_new_def hm_insert_def hm_new_def)
  with position_book_snapshot_roundtrip [OF book_wf_upsert [OF book_wf_new, of demo_position],
      of demo_fs "''p''" "\<lambda>_. Inr ''x'' :: unit + string" "''x''" "\<lambda>_. Inr [demo_position] :: unit + position_record list"]
  show ?thesis by (fastforce simp: demo_fs_writable book_get_upsert demo_position_def)
qed

section \<open>The log survives a restart\<close>

lemma lines_of_Nil [simp]: "lines_of [] = []"
  by (simp add: lines_of.simps)

lemma lines_of_line: "LF \<notin> set l \<Longrightarrow> lines_of (l @ LF # s) = strip_cr l # lines_of s"
proof -
  assume l: "LF \<notin> set l"
  have "takeWhile (\<lambda>c. c \<noteq> LF) (l @ LF # s) = l" by (subst takeWhile_append2) (use l in auto)
  moreover have "dropWhile (\<lambda>c. c \<noteq> LF) (l @ LF # s) = LF # s" by (subst dropWhile_append2) (use l in auto)
  ultimately show ?thesis by (subst lines_of.simps) simp
qed

lemma lines_of_append: "s = [] \<or> last s = LF \<Longrightarrow> lines_of (s @ t) = lines_of s @ lines_of t"
proof (induction s rule: length_induct)
  case (1 s)
  show ?case
  proof (cases "s = []")
    case False
    then have "LF \<in> set s" using 1(2) by (metis last_in_set)
    then obtain l rest where s: "s = l @ LF # rest" and l: "LF \<notin> set l" by (meson split_list_first)
    have "rest = [] \<or> last rest = LF" using 1(2) s by (cases "rest = []") auto
    then have "lines_of (rest @ t) = lines_of rest @ lines_of t" using 1(1) [rule_format, of rest] s by simp
    then show ?thesis using lines_of_line [OF l] by (simp add: s)
  qed simp
qed

text \<open>\<open>stored_as\<close>: the serializer writes the record as one line that it reads back.\<close>

definition stored_as ::
  "('a \<Rightarrow> 'e + string) \<Rightarrow> (string \<Rightarrow> 'e + 'a) \<Rightarrow> 'a \<Rightarrow> string \<Rightarrow> bool" where
  "stored_as to_json from_json r line \<longleftrightarrow>
     to_json r = Inr line \<and> from_json line = Inr r \<and> LF \<notin> set line \<and> CR \<notin> set line \<and> \<not> is_blank line"

fun log_append_all ::
  "(liquidation_record \<Rightarrow> 'e + string) \<Rightarrow> liquidation_log \<Rightarrow> liquidation_record list \<Rightarrow> file_system
     \<Rightarrow> 'e store_error + (liquidation_log \<times> file_system)" where
  "log_append_all to_json l [] fs = Inr (l, fs)"
| "log_append_all to_json l (r # rs) fs =
     and_then (log_append to_json l r fs) (\<lambda>(l', fs'). log_append_all to_json l' rs fs')"

text \<open>Whether a path can be opened does not depend on the contents of the files.\<close>

lemma writable_files [simp]: "writable (fs\<lparr>files := m\<rparr>) path = writable fs path"
  by (simp add: writable_def dir_exists_def split: option.split)

lemma fs_create_parent_files [simp]: "files (snd (fs_create_parent fs path)) = files fs"
proof -
  have "files (snd (fs_create_dir_all fs is_abs up)) = files fs" for is_abs up
    by (induction fs is_abs up rule: fs_create_dir_all.induct) (auto split: prod.splits sum.splits)
  then show ?thesis by (auto simp: fs_create_parent_def split: option.split)
qed

definition contents_of :: "file_system \<Rightarrow> string \<Rightarrow> string" where
  "contents_of fs path = (case files fs path of Some c \<Rightarrow> c | None \<Rightarrow> [])"

definition ends_line :: "string \<Rightarrow> bool" where
  "ends_line c \<longleftrightarrow> c = [] \<or> last c = LF"

lemma log_open_contents:
  "log_open from_json path fs =
     and_then (map_err Serde (parse_lines from_json (filter (\<lambda>l. \<not> is_blank l) (lines_of (contents_of fs path))))) (\<lambda>rs.
       Inr \<lparr> log_records = rs, backing_file = Some path \<rparr>)"
  by (cases "files fs path") (simp_all add: log_open_def contents_of_def fs_read_def)

lemma parse_lines_append1:
  "parse_lines f ls = Inr rs \<Longrightarrow> f x = Inr r \<Longrightarrow> parse_lines f (ls @ [x]) = Inr (rs @ [r])"
  by (induction ls arbitrary: rs) (auto simp: and_then_Inr_iff)

lemma log_append_reopens:
  assumes o: "log_open from_json path fs = Inr l" and w: "writable fs path"
    and e: "ends_line (contents_of fs path)" and st: "stored_as to_json from_json r line"
  shows "\<exists>l' fs'. log_append to_json l r fs = Inr (l', fs') \<and> log_records l' = log_records l @ [r] \<and>
     log_open from_json path fs' = Inr l' \<and> writable fs' path \<and> ends_line (contents_of fs' path)"
proof -
  let ?c = "contents_of fs path"
  let ?fs' = "fs\<lparr>files := (files fs)(path \<mapsto> ?c @ line @ [LF])\<rparr>"
  have c: "contents_of ?fs' path = ?c @ line @ [LF]" by (simp add: contents_of_def)
  obtain rs where rs: "parse_lines from_json (filter (\<lambda>l. \<not> is_blank l) (lines_of ?c)) = Inr rs"
    and l: "l = \<lparr> log_records = rs, backing_file = Some path \<rparr>"
    using o unfolding log_open_contents by (cases "parse_lines from_json (filter (\<lambda>l. \<not> is_blank l) (lines_of ?c))") auto
  have "strip_cr line = line"
    using st last_in_set [of line] unfolding strip_cr_def stored_as_def by metis
  then have "lines_of (line @ [LF]) = [line]"
    using lines_of_line [of line "[]"] st by (simp add: stored_as_def)
  then have "lines_of (?c @ line @ [LF]) = lines_of ?c @ [line]"
    using lines_of_append [of ?c "line @ [LF]"] e by (simp add: ends_line_def)
  then have "log_open from_json path ?fs' = Inr \<lparr> log_records = rs @ [r], backing_file = Some path \<rparr>"
    using parse_lines_append1 [OF rs, of line r] st unfolding log_open_contents c by (simp add: stored_as_def)
  moreover have "log_append to_json l r fs = Inr (\<lparr> log_records = rs @ [r], backing_file = Some path \<rparr>, ?fs')"
    using st w by (simp add: log_append_def l stored_as_def fs_append_def contents_of_def)
  ultimately show ?thesis
    using w by (intro exI [of _ "\<lparr> log_records = rs @ [r], backing_file = Some path \<rparr>"] exI [of _ ?fs'])
      (simp add: l ends_line_def contents_of_def)
qed

text \<open>
  C25: The liquidation log is append-only and survives a restart.  From a log file that was
  opened and ends with a complete line, appending any records that the serializer represents
  succeeds, keeps every earlier record in place and adds the new ones in order; opening the
  file again gives the very log that is in memory.
\<close>

theorem liquidation_log_survives_restart:
  assumes "log_open from_json path fs = Inr l" and "writable fs path" and "ends_line (contents_of fs path)"
    and "\<forall>r \<in> set rs. \<exists>line. stored_as to_json from_json r line"
  shows "\<exists>l' fs'. log_append_all to_json l rs fs = Inr (l', fs') \<and>
     log_records l' = log_records l @ rs \<and> log_open from_json path fs' = Inr l'"
  using assms
proof (induction rs arbitrary: l fs)
  case Nil
  then show ?case by simp
next
  case (Cons r rs)
  obtain line where "stored_as to_json from_json r line" using Cons.prems(4) by auto
  from log_append_reopens [OF Cons.prems(1-3) this] obtain l1 fs1 where
    1: "log_append to_json l r fs = Inr (l1, fs1)" "log_records l1 = log_records l @ [r]"
      "log_open from_json path fs1 = Inr l1" "writable fs1 path" "ends_line (contents_of fs1 path)" by blast
  have "\<forall>r \<in> set rs. \<exists>line. stored_as to_json from_json r line" using Cons.prems(4) by simp
  from Cons.IH [OF 1(3-5) this] 1(1,2) show ?case by fastforce
qed

definition demo_liquidation :: liquidation_record where
  "demo_liquidation = \<lparr>
     lr_routed = \<lparr>
       candidate = \<lparr> bc_protocol = Kamino, position_id = replicate 32 4, collateral_mint = replicate 32 8,
         debt_mint = replicate 32 9, health_factor = Fin 0, close_factor_max_repay = 100, bc_slot = 7 \<rparr>,
       repay_amount = 50,
       flash_source = \<lparr> fs_protocol = Kamino, reserve = replicate 32 2, fee_bps = 5 \<rparr>,
       expected = \<lparr> bonus_usd = Fin 12, est_slippage_usd = Fin 0, flash_fee_usd = Fin 0, est_cu_cost_usd = Fin 0,
         bid_tip_usd = Fin 0, net_usd = Fin 12 \<rparr> \<rparr>,
     lr_outcome = NotIncluded, submitted_at_slot = 8, resolved_at_slot = 9 \<rparr>"

theorem liquidation_log_survives_restart_witness:
  "\<exists>l' fs'. log_append_all (\<lambda>_. Inr ''r'' :: unit + string) \<lparr> log_records = [], backing_file = Some ''p'' \<rparr>
       [demo_liquidation, demo_liquidation] demo_fs = Inr (l', fs') \<and>
     log_records l' = [demo_liquidation, demo_liquidation] \<and>
     log_open (\<lambda>_. Inr demo_liquidation :: unit + liquidation_record) ''p'' fs' = Inr l'"
proof -
  let ?tj = "\<lambda>_. Inr ''r'' :: unit + string" and ?fj = "\<lambda>_. Inr demo_liquidation :: unit + liquidation_record"
  have o: "log_open ?fj ''p'' demo_fs = Inr \<lparr> log_records = [], backing_file = Some ''p'' \<rparr>"
    by (simp add: log_open_def demo_fs_def)
  have w: "writable demo_fs ''p''" "ends_line (contents_of demo_fs ''p'')"
    by (simp_all add: demo_fs_writable) (simp add: demo_fs_def contents_of_def ends_line_def)
  have "stored_as ?tj ?fj demo_liquidation ''r''"
    by (simp add: stored_as_def is_blank_def is_whitespace_def)
  then have "\<forall>r \<in> set [demo_liquidation, demo_liquidation]. \<exists>line. stored_as ?tj ?fj r line" by auto
  from liquidation_log_survives_restart [OF o w this] show ?thesis by simp
qed

text \<open>A channel never holds more than its capacity, and a turn of the task makes room for a waiting record.\<close>

lemma writer_bounded:
  assumes "length (aw_queue w) \<le> aw_capacity w"
  shows "writer_record w r = Some w' \<Longrightarrow> length (aw_queue w') \<le> aw_capacity w'"
    and "try_record w r = Inr w' \<Longrightarrow> length (aw_queue w') \<le> aw_capacity w'"
    and "0 < aw_capacity w \<Longrightarrow> writer_record (fst (writer_turn to_json w fs)) r \<noteq> None"
  using assms by (auto simp: writer_record_def try_record_def writer_turn_def Let_def split: if_splits list.splits)

section \<open>The background writer drains its queue\<close>

text \<open>
  An interleaving of the engine's \<open>try_record\<close> calls and the task's turns.  The third component
  of the state collects the records that were accepted, in order.
\<close>

datatype writer_event = Send liquidation_record | Turn

fun writer_event_step ::
  "(liquidation_record \<Rightarrow> 'e + string) \<Rightarrow> async_writer \<times> file_system \<times> liquidation_record list \<Rightarrow> writer_event
     \<Rightarrow> async_writer \<times> file_system \<times> liquidation_record list" where
  "writer_event_step to_json (w, fs, acc) (Send r) =
     (case try_record w r :: 'e store_error + async_writer of Inr w' \<Rightarrow> (w', fs, acc @ [r]) | Inl _ \<Rightarrow> (w, fs, acc))"
| "writer_event_step to_json (w, fs, acc) Turn = (let (w', fs') = writer_turn to_json w fs in (w', fs', acc))"

text \<open>The lines of the records that serialise; the others leave nothing.\<close>

definition text_of :: "(liquidation_record \<Rightarrow> 'e + string) \<Rightarrow> liquidation_record list \<Rightarrow> string" where
  "text_of to_json rs = concat (map (\<lambda>r. case to_json r of Inr line \<Rightarrow> line @ [LF] | Inl _ \<Rightarrow> []) rs)"

text \<open>What the file receives of some records, given whether it can be opened.\<close>

definition received :: "bool \<Rightarrow> (liquidation_record \<Rightarrow> 'e + string) \<Rightarrow> liquidation_record list \<Rightarrow> string" where
  "received opens to_json rs = (if opens then text_of to_json rs else [])"

lemma received_append1:
  "received opens to_json (rs @ [r]) =
     received opens to_json rs @ (if opens then (case to_json r of Inr line \<Rightarrow> line @ [LF] | Inl _ \<Rightarrow> []) else [])"
  by (simp add: received_def text_of_def)

text \<open>
  What was accepted is what the task has taken followed by what is queued, and the file has received
  what was taken.  Until its first turn the task has done nothing.
\<close>

definition writer_inv ::
  "(liquidation_record \<Rightarrow> 'e + string) \<Rightarrow> string \<Rightarrow> nat \<Rightarrow> file_system \<Rightarrow> async_writer \<times> file_system \<times> liquidation_record list
     \<Rightarrow> bool" where
  "writer_inv to_json path n fs0 = (\<lambda>(w, fs, acc).
     aw_path w = path \<and> aw_capacity w = n \<and> length (aw_queue w) \<le> n \<and>
     (if aw_started w then writable fs path = writable (snd (fs_create_parent fs0 path)) path else fs = fs0) \<and>
     (\<exists>taken. acc = taken @ aw_queue w \<and> (\<not> aw_started w \<longrightarrow> taken = []) \<and>
        contents_of fs path = contents_of fs0 path @
          received (writable (snd (fs_create_parent fs0 path)) path) to_json taken))"

text \<open>One record is taken: its line is appended when it serialises and the file can be opened.\<close>

lemma writer_append:
  "contents_of (case to_json r of
       Inr line \<Rightarrow> (case fs_append fs path (line @ [LF]) of Inr fs' \<Rightarrow> fs' | Inl _ \<Rightarrow> fs)
     | Inl _ \<Rightarrow> fs) path =
     contents_of fs path @ (if writable fs path then (case to_json r of Inr line \<Rightarrow> line @ [LF] | Inl _ \<Rightarrow> []) else [])"
  "writable (case to_json r of
       Inr line \<Rightarrow> (case fs_append fs path (line @ [LF]) of Inr fs' \<Rightarrow> fs' | Inl _ \<Rightarrow> fs)
     | Inl _ \<Rightarrow> fs) path = writable fs path"
  by (auto simp: fs_append_def contents_of_def split: sum.split)

lemma writer_inv_step:
  assumes inv: "writer_inv to_json path n fs0 s"
  shows "writer_inv to_json path n fs0 (writer_event_step to_json s e)"
proof -
  obtain w fs acc where s: "s = (w, fs, acc)" by (cases s)
  show ?thesis
  proof (cases e)
    case (Send r)
    then show ?thesis using inv by (auto simp: s writer_inv_def try_record_def)
  next
    case Turn
    let ?o = "writable (snd (fs_create_parent fs0 path)) path"
    let ?fs = "if aw_started w then fs else snd (fs_create_parent fs (aw_path w))"
    obtain taken where i: "aw_path w = path" "aw_capacity w = n" "length (aw_queue w) \<le> n"
      "acc = taken @ aw_queue w" "contents_of fs path = contents_of fs0 path @ received ?o to_json taken"
      using inv by (auto simp: s writer_inv_def)
    have w: "writable ?fs path = ?o" using inv i(1) by (auto simp: s writer_inv_def split: if_splits)
    have c: "contents_of ?fs path = contents_of fs0 path @ received ?o to_json taken"
      using i(5) by (simp add: contents_of_def)
    show ?thesis
    proof (cases "aw_queue w")
      case Nil
      then show ?thesis
        using i w c by (auto simp: s Turn writer_inv_def writer_turn_def Let_def intro!: exI [of _ taken])
    next
      case (Cons r rs)
      then have "\<exists>taken'. acc = taken' @ rs \<and> contents_of (snd (writer_turn to_json w fs)) path =
          contents_of fs0 path @ received ?o to_json taken'"
        using i(4) c w by (intro exI [of _ "taken @ [r]"])
          (simp only: writer_turn_def Let_def list.case i(1) snd_conv writer_append received_append1 append_assoc append.simps)
      moreover have "writable (snd (writer_turn to_json w fs)) path = ?o"
        using Cons w by (simp only: writer_turn_def Let_def list.case i(1) snd_conv writer_append)
      moreover have "fst (writer_turn to_json w fs) = w\<lparr>aw_queue := rs, aw_started := True\<rparr>"
        using Cons by (simp add: writer_turn_def Let_def)
      ultimately show ?thesis
        using i(1-3) Cons by (simp add: s Turn writer_inv_def split_def)
    qed
  qed
qed

lemma writer_inv_run:
  assumes "writer_inv to_json path n fs0 s"
  shows "writer_inv to_json path n fs0 (foldl (writer_event_step to_json) s evs)"
  using assms by (induction evs rule: rev_induct) (simp_all add: writer_inv_step)

lemma turns_empty_queue:
  "foldl (writer_event_step to_json) (w, fs, acc) (replicate (length (aw_queue w)) Turn) = (w', fs', acc') \<Longrightarrow>
     aw_queue w' = [] \<and> acc' = acc"
proof (induction "aw_queue w" arbitrary: w fs)
  case (Cons r rs)
  obtain w1 fs1 where t: "writer_turn to_json w fs = (w1, fs1)" by (cases "writer_turn to_json w fs")
  have "aw_queue w1 = rs" using t Cons.hyps(2) [symmetric] by (auto simp: writer_turn_def Let_def)
  with Cons.hyps(1) [of w1 fs1] Cons.prems t show ?case by (simp add: Cons.hyps(2) [symmetric])
qed simp

text \<open>
  C18: What becomes of the records the background writer accepts.  Under any interleaving of
  records offered and turns of the task, as many further turns as records are queued, at most the
  capacity of the channel, leave the queue empty.  If the log can be opened once the task has tried to
  create its directory, the file is then extended by the lines of exactly those accepted records
  that serialise, in the order of acceptance; a record that does not serialise is lost.  If it
  cannot be opened, every accepted record is lost and the file is as before.  No error is reported in
  either case.  A write to an opened file is taken to be complete.
\<close>

theorem background_writer_drains:
  assumes "writer_spawn path n = Inr w0"
    and "foldl (writer_event_step to_json) (w0, fs, []) evs = (w, fs1, accepted)"
  shows "\<exists>w' fs2. foldl (writer_event_step to_json) (w, fs1, accepted) (replicate (length (aw_queue w)) Turn) =
       (w', fs2, accepted) \<and> length (aw_queue w) \<le> n \<and> aw_queue w' = [] \<and>
     contents_of fs2 path = contents_of fs path @
       (if writable (snd (fs_create_parent fs path)) path then text_of to_json accepted else [])"
proof -
  have "writer_inv to_json path n fs (w0, fs, [])"
    using assms(1) by (auto simp: writer_inv_def writer_spawn_def received_def text_of_def split: if_splits)
  from writer_inv_run [OF this, of evs] assms(2)
  have inv: "writer_inv to_json path n fs (w, fs1, accepted)" by simp
  obtain w' fs2 acc where r: "foldl (writer_event_step to_json) (w, fs1, accepted) (replicate (length (aw_queue w)) Turn) =
      (w', fs2, acc)" by (cases "foldl (writer_event_step to_json) (w, fs1, accepted) (replicate (length (aw_queue w)) Turn)")
  from turns_empty_queue [OF r] have "aw_queue w' = []" "acc = accepted" by simp_all
  moreover have "writer_inv to_json path n fs (w', fs2, acc)"
    using writer_inv_run [OF inv, of "replicate (length (aw_queue w)) Turn"] r by simp
  ultimately show ?thesis using inv r by (auto simp: writer_inv_def received_def)
qed

text \<open>
  Two records are accepted and the second does not serialise.  With permissions the missing
  directory is created and the first line is written; without them nothing is.
\<close>

theorem background_writer_drains_witness:
  "let to_json = (\<lambda>r :: liquidation_record. if resolved_at_slot r = 9 then Inr ''r'' else Inl () :: unit + string);
       rs = [demo_liquidation, demo_liquidation\<lparr>resolved_at_slot := 10\<rparr>];
       w = \<lparr> aw_queue = rs, aw_capacity = 2, aw_path = ''data/log'', aw_started = False \<rparr>;
       denied = demo_fs\<lparr>may_create := (\<lambda>_. False)\<rparr>
   in (\<exists>w' fs'. foldl (writer_event_step to_json) (w, demo_fs, rs) [Turn, Turn] = (w', fs', rs) \<and>
         aw_queue w' = [] \<and> contents_of fs' ''data/log'' = ''r'' @ [LF]) \<and>
      (\<exists>w' fs'. foldl (writer_event_step to_json) (w, denied, rs) [Turn, Turn] = (w', fs', rs) \<and>
         aw_queue w' = [] \<and> contents_of fs' ''data/log'' = [])"
proof -
  define to_json where "to_json = (\<lambda>r :: liquidation_record. if resolved_at_slot r = 9 then Inr ''r'' else Inl () :: unit + string)"
  let ?r2 = "demo_liquidation\<lparr>resolved_at_slot := 10\<rparr>"
  let ?rs = "[demo_liquidation, ?r2]" and ?denied = "demo_fs\<lparr>may_create := (\<lambda>_. False)\<rparr>"
  let ?w = "\<lambda>q. \<lparr> aw_queue = q, aw_capacity = 2, aw_path = ''data/log'', aw_started = False \<rparr>"
  have s: "writer_spawn ''data/log'' 2 = Inr (?w [])" by (simp add: writer_spawn_def)
  have e: "foldl (writer_event_step to_json) (?w [], fs, []) [Send demo_liquidation, Send ?r2] = (?w ?rs, fs, ?rs)" for fs
    by (simp add: try_record_def)
  have p: "parent_of ''data/log'' = Some (False, [''data''])"
    by (simp add: parent_of_def directory_of_def)
  have o: "writable (snd (fs_create_parent demo_fs ''data/log'')) ''data/log''"
    "\<not> writable (snd (fs_create_parent ?denied ''data/log'')) ''data/log''"
    by (simp_all add: writable_def fs_create_parent_def p dir_exists_def demo_fs_def)
  have c: "contents_of demo_fs ''data/log'' = []" "contents_of ?denied ''data/log'' = []"
    by (simp_all add: contents_of_def demo_fs_def)
  have t: "text_of to_json ?rs = ''r'' @ [LF]"
    by (simp add: text_of_def to_json_def demo_liquidation_def)
  have two: "replicate (length (aw_queue (?w ?rs))) Turn = [Turn, Turn]" by (simp add: numeral_2_eq_2)
  show ?thesis
    using background_writer_drains [OF s e, of demo_fs] background_writer_drains [OF s e, of ?denied]
    unfolding Let_def to_json_def [symmetric] two by (simp only: o c t if_True if_False append_Nil) blast
qed

end
