(* ===== verification/Ingestion.thy ===== *)
theory Ingestion
  imports Store
begin

text \<open>
  \<open>crates/ingestion\<close>: decoding account bytes (\<open>decode.rs\<close>), recorded and live feeds
  (\<open>feed.rs\<close>), the ring buffer (\<open>ring_buffer.rs\<close>) and the drain that connects them
  (\<open>pipeline.rs\<close>).  The lock-free queue of \<open>crossbeam\<close>, \<open>bytemuck\<close>, \<open>serde_json\<close> and the base58
  and base64 decoders are parameters; the queue's documented behaviour, a bounded first-in
  first-out buffer, is the locale \<open>array_queue\<close>, in which the drain is proved correct.
\<close>

section \<open>Decoding\<close>

definition zero_copy_decode :: "bytes option \<Rightarrow> (bytes \<Rightarrow> 'a option) \<Rightarrow> bytes \<Rightarrow> 'a option" where
  "zero_copy_decode discriminator pod_read data =
     (case discriminator of
        Some disc \<Rightarrow>
          if length data < length disc \<or> take (length disc) data \<noteq> disc then None
          else pod_read (drop (length disc) data)
      | None \<Rightarrow> pod_read data)"

record raw_account =
  ra_pubkey :: pubkey
  ra_owner :: pubkey
  ra_data :: bytes
  ra_slot :: u64

record decoder_registry =
  owners :: "pubkey set"

definition registry_new :: decoder_registry where
  "registry_new = \<lparr> owners = {} \<rparr>"

definition watch :: "decoder_registry \<Rightarrow> pubkey \<Rightarrow> decoder_registry" where
  "watch r k = r\<lparr>owners := insert k (owners r)\<rparr>"

definition is_watched :: "decoder_registry \<Rightarrow> pubkey \<Rightarrow> bool" where
  "is_watched r k \<longleftrightarrow> k \<in> owners r"

section \<open>Feeds\<close>

record recorded_account_line =
  line_pubkey :: string
  line_owner :: string
  data_base64 :: string
  line_slot :: u64

datatype 'e recorded_feed_error =
    FeedIo string io_error | FeedJson nat 'e | BadPubkey nat | InvalidBase64

text \<open>\<open>str::trim\<close> on both ends.\<close>

definition trim :: "string \<Rightarrow> string" where
  "trim s = rev (dropWhile is_whitespace (rev (dropWhile is_whitespace s)))"

definition base64_decode :: "(string \<Rightarrow> bytes option) \<Rightarrow> string \<Rightarrow> 'e recorded_feed_error + bytes" where
  "base64_decode std_decode s =
     (if s = [] then Inr [] else ok_or InvalidBase64 (std_decode (trim s)))"

definition parse_account_line ::
  "(string \<Rightarrow> 'e + recorded_account_line) \<Rightarrow> (string \<Rightarrow> pubkey option) \<Rightarrow> (string \<Rightarrow> bytes option) \<Rightarrow> nat \<Rightarrow> string
     \<Rightarrow> 'e recorded_feed_error + raw_account" where
  "parse_account_line from_json b58 b64 line_no line =
     and_then (map_err (FeedJson line_no) (from_json line)) (\<lambda>p.
     and_then (ok_or (BadPubkey line_no) (b58 (line_pubkey p))) (\<lambda>key.
     and_then (ok_or (BadPubkey line_no) (b58 (line_owner p))) (\<lambda>own.
     and_then (base64_decode b64 (data_base64 p)) (\<lambda>d.
       Inr \<lparr> ra_pubkey = key, ra_owner = own, ra_data = d, ra_slot = line_slot p \<rparr>))))"

text \<open>The loop over the numbered lines; blank lines are skipped but counted.\<close>

fun feed_parse_from ::
  "(string \<Rightarrow> 'e + recorded_account_line) \<Rightarrow> (string \<Rightarrow> pubkey option) \<Rightarrow> (string \<Rightarrow> bytes option) \<Rightarrow> nat \<Rightarrow> string list
     \<Rightarrow> 'e recorded_feed_error + raw_account list" where
  "feed_parse_from from_json b58 b64 i [] = Inr []"
| "feed_parse_from from_json b58 b64 i (line # ls) =
     (if is_blank line then feed_parse_from from_json b58 b64 (Suc i) ls
      else and_then (parse_account_line from_json b58 b64 (i + 1) line) (\<lambda>r.
           and_then (feed_parse_from from_json b58 b64 (Suc i) ls) (\<lambda>rs. Inr (r # rs))))"

definition feed_parse ::
  "(string \<Rightarrow> 'e + recorded_account_line) \<Rightarrow> (string \<Rightarrow> pubkey option) \<Rightarrow> (string \<Rightarrow> bytes option) \<Rightarrow> string
     \<Rightarrow> 'e recorded_feed_error + raw_account list" where
  "feed_parse from_json b58 b64 contents = feed_parse_from from_json b58 b64 0 (lines_of contents)"

definition feed_load ::
  "(string \<Rightarrow> 'e + recorded_account_line) \<Rightarrow> (string \<Rightarrow> pubkey option) \<Rightarrow> (string \<Rightarrow> bytes option) \<Rightarrow> string
     \<Rightarrow> file_system \<Rightarrow> 'e recorded_feed_error + raw_account list" where
  "feed_load from_json b58 b64 path fs =
     and_then (map_err (FeedIo path) (fs_read fs path)) (feed_parse from_json b58 b64)"

text \<open>A recorded feed hands out its records in order.\<close>

definition feed_next :: "raw_account list \<Rightarrow> raw_account option \<times> raw_account list" where
  "feed_next rs = (case rs of [] \<Rightarrow> (None, []) | r # rs' \<Rightarrow> (Some r, rs'))"

text \<open>
  The live feed: which endpoints are refused, which stay in standby, and the reconnect delay in
  milliseconds, doubled up to five seconds.
\<close>

datatype geyser_feed_error = InvalidEndpoint string | ConnectionFailed string

datatype geyser_mode = Standby | Streaming

fun contains_sub :: "string \<Rightarrow> string \<Rightarrow> bool" where
  "contains_sub [] pat \<longleftrightarrow> pat = []"
| "contains_sub (c # cs) pat \<longleftrightarrow> take (length pat) (c # cs) = pat \<or> contains_sub cs pat"

definition geyser_connect :: "bool \<Rightarrow> string \<Rightarrow> geyser_feed_error + geyser_mode" where
  "geyser_connect in_runtime endpoint =
     (if endpoint = [] then Inl (InvalidEndpoint ''endpoint URL cannot be empty'')
      else if contains_sub endpoint ''example.com'' \<or> take 4 endpoint = ''mock'' then Inr Standby
      else Inr (if in_runtime then Streaming else Standby))"

definition next_reconnect_delay :: "nat \<Rightarrow> nat" where
  "next_reconnect_delay delay = min (delay * 2) 5000"

text \<open>
  The feed itself: the queue of the bounded channel, whether its two ends are alive, and the
  delay of the reconnect task while it runs.  The task owns the sender; without a task the sender
  is dropped when \<open>connect\<close> returns.
\<close>

record geyser_feed =
  gf_queue :: "raw_account list"
  gf_sender_alive :: bool
  gf_receiver_alive :: bool
  gf_endpoint :: string
  gf_task :: "nat option"

definition feed_of_mode :: "string \<Rightarrow> geyser_mode \<Rightarrow> geyser_feed" where
  "feed_of_mode endpoint m =
     \<lparr> gf_queue = [], gf_sender_alive = (m = Streaming), gf_receiver_alive = True, gf_endpoint = endpoint,
       gf_task = (if m = Streaming then Some 500 else None) \<rparr>"

definition geyser_mock :: geyser_feed where
  "geyser_mock = \<lparr> gf_queue = [], gf_sender_alive = True, gf_receiver_alive = True,
     gf_endpoint = ''mock://yellowstone'', gf_task = None \<rparr>"

text \<open>The sender that \<open>mock\<close> hands out: pending, \<open>None\<close>, while the channel is full.\<close>

definition geyser_send :: "geyser_feed \<Rightarrow> raw_account \<Rightarrow> geyser_feed option" where
  "geyser_send f a = (if length (gf_queue f) < 65536 then Some (f\<lparr>gf_queue := gf_queue f @ [a]\<rparr>) else None)"

datatype polled = Pending | Ready "raw_account option"

definition next_account :: "geyser_feed \<Rightarrow> polled \<times> geyser_feed" where
  "next_account f =
     (case gf_queue f of
        a # rest \<Rightarrow> (Ready (Some a), f\<lparr>gf_queue := rest\<rparr>)
      | [] \<Rightarrow> (if gf_sender_alive f then Pending else Ready None, f))"

text \<open>One turn of the reconnect task, after its sleep: the delay grows, and a closed channel ends it.\<close>

definition reconnect_turn :: "geyser_feed \<Rightarrow> geyser_feed" where
  "reconnect_turn f =
     (case gf_task f of
        None \<Rightarrow> f
      | Some d \<Rightarrow>
          if \<not> gf_receiver_alive f then f\<lparr>gf_task := None, gf_sender_alive := False\<rparr>
          else f\<lparr>gf_task := Some (next_reconnect_delay d)\<rparr>)"

text \<open>What can happen to a connected feed: the task turns, the engine polls, or the engine drops it.\<close>

inductive feed_reach :: "geyser_feed \<Rightarrow> geyser_feed \<Rightarrow> bool" for f0 where
  start: "feed_reach f0 f0"
| turn: "feed_reach f0 f \<Longrightarrow> feed_reach f0 (reconnect_turn f)"
| poll: "feed_reach f0 f \<Longrightarrow> gf_receiver_alive f \<Longrightarrow> feed_reach f0 (snd (next_account f))"
| drop: "feed_reach f0 f \<Longrightarrow> feed_reach f0 (f\<lparr>gf_receiver_alive := False\<rparr>)"

section \<open>The ring buffer and the drain\<close>

record drain_stats =
  forwarded :: nat
  unwatched :: nat
  buffer_full :: nat

definition to_update :: "raw_account \<Rightarrow> account_update" where
  "to_update raw = \<lparr> au_pubkey = ra_pubkey raw, au_owner = ra_owner raw, au_data = ra_data raw, au_slot = ra_slot raw \<rparr>"

text \<open>\<open>RingBuffer::push\<close> over the queue's \<open>push\<close>, which hands the value back when it is full.\<close>

datatype push_error = BufferFull

definition ring_push :: "(account_update \<Rightarrow> 'q \<Rightarrow> account_update + 'q) \<Rightarrow> account_update \<Rightarrow> 'q \<Rightarrow> push_error + 'q" where
  "ring_push push u q = map_err (\<lambda>_. BufferFull) (push u q)"

definition ring_pop :: "('q \<Rightarrow> account_update option \<times> 'q) \<Rightarrow> 'q \<Rightarrow> account_update option \<times> 'q" where
  "ring_pop pop q = pop q"

fun drain_into_ring_buffer ::
  "(account_update \<Rightarrow> 'q \<Rightarrow> account_update + 'q) \<Rightarrow> decoder_registry \<Rightarrow> raw_account list \<Rightarrow> 'q \<Rightarrow> drain_stats
     \<Rightarrow> drain_stats \<times> 'q" where
  "drain_into_ring_buffer push reg [] q stats = (stats, q)"
| "drain_into_ring_buffer push reg (raw # src) q stats =
     (if \<not> is_watched reg (ra_owner raw)
      then drain_into_ring_buffer push reg src q (stats\<lparr>unwatched := unwatched stats + 1\<rparr>)
      else case ring_push push (to_update raw) q of
        Inr q' \<Rightarrow> drain_into_ring_buffer push reg src q' (stats\<lparr>forwarded := forwarded stats + 1\<rparr>)
      | Inl BufferFull \<Rightarrow> drain_into_ring_buffer push reg src q (stats\<lparr>buffer_full := buffer_full stats + 1\<rparr>))"

definition no_stats :: drain_stats where
  "no_stats = \<lparr> forwarded = 0, unwatched = 0, buffer_full = 0 \<rparr>"

text \<open>The updates that should go downstream: those of watched owners, in feed order.\<close>

definition wanted :: "decoder_registry \<Rightarrow> raw_account list \<Rightarrow> account_update list" where
  "wanted reg src = map to_update (filter (\<lambda>raw. is_watched reg (ra_owner raw)) src)"

text \<open>What \<open>ArrayQueue\<close> documents: a bounded queue, first in first out.\<close>

locale array_queue =
  fixes push :: "account_update \<Rightarrow> 'q \<Rightarrow> account_update + 'q"
    and contents :: "'q \<Rightarrow> account_update list"
    and capacity :: "'q \<Rightarrow> nat"
  assumes push_ok: "length (contents q) < capacity q \<Longrightarrow>
      \<exists>q'. push u q = Inr q' \<and> contents q' = contents q @ [u] \<and> capacity q' = capacity q"
    and push_full: "capacity q \<le> length (contents q) \<Longrightarrow> push u q = Inl u"
begin

lemma drain_fifo:
  "length (contents q) \<le> capacity q \<Longrightarrow> drain_into_ring_buffer push reg src q stats = (stats', q') \<Longrightarrow>
     contents q' = contents q @ take (capacity q - length (contents q)) (wanted reg src) \<and>
     capacity q' = capacity q \<and>
     forwarded stats' = forwarded stats + min (capacity q - length (contents q)) (length (wanted reg src)) \<and>
     unwatched stats' + length (wanted reg src) = unwatched stats + length src \<and>
     buffer_full stats' = buffer_full stats + (length (wanted reg src) - (capacity q - length (contents q)))"
proof (induction src arbitrary: q stats)
  case Nil
  then show ?case by (simp add: wanted_def)
next
  case (Cons raw src)
  show ?case
  proof (cases "is_watched reg (ra_owner raw)")
    case False
    then show ?thesis
      using Cons.IH [of q "stats\<lparr>unwatched := unwatched stats + 1\<rparr>"] Cons.prems by (simp add: wanted_def)
  next
    case True
    show ?thesis
    proof (cases "length (contents q) < capacity q")
      case room: True
      then obtain q1 where q1: "push (to_update raw) q = Inr q1" "contents q1 = contents q @ [to_update raw]"
        "capacity q1 = capacity q" using push_ok by blast
      obtain n where "capacity q = Suc (length (contents q) + n)"
        using room less_imp_Suc_add by blast
      then show ?thesis
        using Cons.IH [of q1 "stats\<lparr>forwarded := forwarded stats + 1\<rparr>"] Cons.prems True q1 room
        by (simp add: wanted_def ring_push_def)
    next
      case False
      then have "push (to_update raw) q = Inl (to_update raw)" by (intro push_full) simp
      then show ?thesis
        using Cons.IH [of q "stats\<lparr>buffer_full := buffer_full stats + 1\<rparr>"] Cons.prems True False
        by (simp add: wanted_def ring_push_def)
    qed
  qed
qed

end

section \<open>A queue with these laws, and the drain on every such queue\<close>

record list_ring =
  ring_items :: "account_update list"
  ring_capacity :: nat

definition list_ring_push :: "account_update \<Rightarrow> list_ring \<Rightarrow> account_update + list_ring" where
  "list_ring_push u q =
     (if length (ring_items q) < ring_capacity q then Inr (q\<lparr>ring_items := ring_items q @ [u]\<rparr>) else Inl u)"

definition list_ring_pop :: "list_ring \<Rightarrow> account_update option \<times> list_ring" where
  "list_ring_pop q =
     (case ring_items q of [] \<Rightarrow> (None, q) | u # us \<Rightarrow> (Some u, q\<lparr>ring_items := us\<rparr>))"

text \<open>What was pushed on an empty buffer is the next thing popped.\<close>

lemma ring_push_pop:
  "ring_items q = [] \<Longrightarrow> ring_push list_ring_push u q = Inr q' \<Longrightarrow> ring_pop list_ring_pop q' = (Some u, q)"
  by (cases q) (auto simp: ring_push_def ring_pop_def list_ring_push_def list_ring_pop_def map_err_def split: if_splits)

interpretation list_ring: array_queue list_ring_push ring_items ring_capacity
  by unfold_locales (auto simp: list_ring_push_def)

text \<open>
  C27: Draining a feed into the ring buffer loses nothing silently: on a queue with the
  documented behaviour, the buffer afterwards holds what it held, followed by the updates of
  watched owners in feed order as far as there is room, and the three counters add up to the
  number of records read: forwarded is the number appended, the rest of the watched ones are
  counted as dropped and the others as unwatched.
\<close>

theorem drain_forwards_in_order:
  assumes "\<And>q u. length (contents q) < capacity q \<Longrightarrow>
      \<exists>q'. push u q = Inr q' \<and> contents q' = contents q @ [u] \<and> capacity q' = capacity q"
    and "\<And>q u. capacity q \<le> length (contents q) \<Longrightarrow> push u q = Inl u"
    and "length (contents q) \<le> capacity q"
    and "drain_into_ring_buffer push reg src q no_stats = (stats, q')"
  shows "contents q' = contents q @ take (forwarded stats) (wanted reg src) \<and>
     forwarded stats = min (capacity q - length (contents q)) (length (wanted reg src)) \<and>
     forwarded stats + unwatched stats + buffer_full stats = length src"
  using array_queue.drain_fifo [OF array_queue.intro, OF assms] by (auto simp: no_stats_def min_def)

definition demo_account :: "u8 \<Rightarrow> u8 \<Rightarrow> raw_account" where
  "demo_account k own = \<lparr> ra_pubkey = replicate 32 k, ra_owner = replicate 32 own, ra_data = [], ra_slot = 1 \<rparr>"

theorem drain_forwards_in_order_witness:
  "\<exists>stats q'. drain_into_ring_buffer list_ring_push (watch registry_new (replicate 32 5))
       [demo_account 1 5, demo_account 2 6, demo_account 3 5, demo_account 4 5]
       \<lparr> ring_items = [], ring_capacity = 2 \<rparr> no_stats = (stats, q') \<and>
     ring_items q' = [to_update (demo_account 1 5), to_update (demo_account 3 5)] \<and>
     forwarded stats + unwatched stats + buffer_full stats = 4"
proof -
  let ?reg = "watch registry_new (replicate 32 5)"
  let ?src = "[demo_account 1 5, demo_account 2 6, demo_account 3 5, demo_account 4 5]"
  let ?q = "\<lparr> ring_items = [], ring_capacity = 2 \<rparr>"
  obtain stats q' where d: "drain_into_ring_buffer list_ring_push ?reg ?src ?q no_stats = (stats, q')"
    by (cases "drain_into_ring_buffer list_ring_push ?reg ?src ?q no_stats")
  have "wanted ?reg ?src = [to_update (demo_account 1 5), to_update (demo_account 3 5), to_update (demo_account 4 5)]"
    by (simp add: wanted_def is_watched_def watch_def registry_new_def demo_account_def)
  with drain_forwards_in_order [where push = list_ring_push and contents = ring_items and capacity = ring_capacity,
      OF list_ring.push_ok list_ring.push_full _ d] d
  show ?thesis by (simp add: numeral_2_eq_2)
qed

section \<open>The live feed\<close>

lemma reconnect_delays: "(next_reconnect_delay ^^ n) 500 = min (500 * 2 ^ n) 5000"
  by (induction n) (auto simp: next_reconnect_delay_def min_def)

definition feed_inv :: "geyser_mode \<Rightarrow> geyser_feed \<Rightarrow> bool" where
  "feed_inv m f \<longleftrightarrow> gf_queue f = [] \<and>
     (case m of
        Standby \<Rightarrow> \<not> gf_sender_alive f \<and> gf_task f = None
      | Streaming \<Rightarrow>
          gf_sender_alive f = (gf_task f \<noteq> None) \<and> (gf_receiver_alive f \<longrightarrow> gf_task f \<noteq> None) \<and>
          (\<forall>d. gf_task f = Some d \<longrightarrow> (\<exists>n. d = (next_reconnect_delay ^^ n) 500)))"

lemma feed_inv_turn: "feed_inv m f \<Longrightarrow> feed_inv m (reconnect_turn f)"
proof -
  have "\<exists>k. next_reconnect_delay ((next_reconnect_delay ^^ n) 500) = (next_reconnect_delay ^^ k) 500" for n
    by (rule exI [of _ "Suc n"]) simp
  then show "feed_inv m f \<Longrightarrow> feed_inv m (reconnect_turn f)"
    by (auto simp: feed_inv_def reconnect_turn_def split: geyser_mode.splits option.splits)
qed

lemma feed_reach_inv: "feed_reach (feed_of_mode endpoint m) f \<Longrightarrow> feed_inv m f"
proof (induction rule: feed_reach.induct)
  case start
  show ?case by (cases m) (auto simp: feed_inv_def feed_of_mode_def intro: exI [of _ 0])
next
  case (poll f)
  then show ?case by (simp add: next_account_def feed_inv_def)
next
  case (drop f)
  then show ?case by (cases m) (auto simp: feed_inv_def)
qed (rule feed_inv_turn)

text \<open>
  C19: The live feed never delivers an account.  Whatever endpoint is accepted, in every state the
  feed can reach its channel is empty: a feed in standby reports the end of the stream at once,
  and a streaming feed leaves the engine pending for as long as the engine listens, while the
  reconnect task sleeps with delays that double from half a second up to five seconds.
\<close>

theorem live_feed_never_delivers:
  assumes "geyser_connect in_runtime endpoint = Inr m" and "feed_reach (feed_of_mode endpoint m) f"
  shows "(\<forall>a. fst (next_account f) \<noteq> Ready (Some a)) \<and>
     (m = Standby \<longrightarrow> fst (next_account f) = Ready None) \<and>
     (m = Streaming \<and> gf_receiver_alive f \<longrightarrow> fst (next_account f) = Pending \<and>
        (\<exists>n. gf_task f = Some (min (500 * 2 ^ n) 5000)))"
  using feed_reach_inv [OF assms(2)]
  by (cases m) (auto simp: feed_inv_def next_account_def reconnect_delays)

theorem live_feed_never_delivers_witness:
  "geyser_connect True ''https://geyser.io'' = Inr Streaming \<and>
   fst (next_account (reconnect_turn (feed_of_mode ''https://geyser.io'' Streaming))) = Pending"
proof -
  let ?f = "feed_of_mode ''https://geyser.io'' Streaming"
  have c: "geyser_connect True ''https://geyser.io'' = Inr Streaming" by (simp add: geyser_connect_def)
  have "feed_reach ?f (reconnect_turn ?f)" by (intro feed_reach.intros)
  moreover have "gf_receiver_alive (reconnect_turn ?f)" by (simp add: reconnect_turn_def feed_of_mode_def)
  ultimately show ?thesis using live_feed_never_delivers [OF c] c by blast
qed

text \<open>A feed that is fed, as the mock is, hands out what was sent, in order.\<close>

lemma mock_feed_delivers:
  "geyser_send f a = Some f' \<Longrightarrow> gf_queue f = [] \<Longrightarrow> next_account f' = (Ready (Some a), f)"
  by (auto simp: geyser_send_def next_account_def split: if_splits)

end
