(* ===== verification/Sim.thy ===== *)
theory Sim
  imports FlashRouter Ingestion
begin

text \<open>
  \<open>crates/sim\<close>: the account-sync pipeline (\<open>account_sync.rs\<close>), the in-process simulator
  (\<open>simulator.rs\<close>), the fixture loader (\<open>fixture_schema.rs\<close>) and the replay harness
  (\<open>replay.rs\<close>), which drives a health adapter and a router that are its parameters.
\<close>

section \<open>Account sync\<close>

record slotted_account =
  sa_data :: bytes
  sa_slot :: u64

record account_sync =
  sync_accounts :: "(pubkey, slotted_account) hashmap"
  sync_current_slot :: u64

definition sync_new :: account_sync where
  "sync_new = \<lparr> sync_accounts = hm_new, sync_current_slot = 0 \<rparr>"

definition apply_update :: "account_sync \<Rightarrow> pubkey \<Rightarrow> bytes \<Rightarrow> u64 \<Rightarrow> bool \<times> account_sync" where
  "apply_update a key data slot =
     (let a' = a\<lparr>sync_current_slot := max (sync_current_slot a) slot\<rparr>
      in case hm_get (sync_accounts a') key of
           Some existing \<Rightarrow>
             if sa_slot existing > slot then (False, a')
             else (True, a'\<lparr>sync_accounts := hm_insert key \<lparr> sa_data = data, sa_slot = slot \<rparr> (sync_accounts a')\<rparr>)
         | None \<Rightarrow> (True, a'\<lparr>sync_accounts := hm_insert key \<lparr> sa_data = data, sa_slot = slot \<rparr> (sync_accounts a')\<rparr>))"

definition sync_get :: "account_sync \<Rightarrow> pubkey \<Rightarrow> bytes option" where
  "sync_get a key = map_option sa_data (hm_get (sync_accounts a) key)"

definition account_slot :: "account_sync \<Rightarrow> pubkey \<Rightarrow> u64 option" where
  "account_slot a key = map_option sa_slot (hm_get (sync_accounts a) key)"

definition account_lag :: "account_sync \<Rightarrow> pubkey \<Rightarrow> u64 option" where
  "account_lag a key = map_option (\<lambda>s. saturating_sub (sync_current_slot a) (sa_slot s)) (hm_get (sync_accounts a) key)"

definition sync_len :: "account_sync \<Rightarrow> nat" where
  "sync_len a = hm_len (sync_accounts a)"

definition sync_is_empty :: "account_sync \<Rightarrow> bool" where
  "sync_is_empty a = (sync_accounts a = [])"

section \<open>Simulator\<close>

record lite_svm_simulator =
  sim_min_profit_usd :: f64

definition simulator_new :: lite_svm_simulator where
  "simulator_new = \<lparr> sim_min_profit_usd = f64_lit (850 / 100) \<rparr>"

definition with_min_profit :: "f64 \<Rightarrow> lite_svm_simulator" where
  "with_min_profit m = \<lparr> sim_min_profit_usd = m \<rparr>"

text \<open>\<open>simulate_instructions\<close> ignores its arguments: the virtual machine is not linked in.\<close>

definition simulate_instructions :: "lite_svm_simulator \<Rightarrow> 'ix list \<Rightarrow> 'key \<Rightarrow> (pubkey \<times> u64) list \<Rightarrow> string + (u32 \<times> nat)" where
  "simulate_instructions s ixs payer funded = Inr (245000, 512)"

definition simulate :: "lite_svm_simulator \<Rightarrow> routed_candidate \<Rightarrow> sim_result" where
  "simulate s rc =
     (let is_breaching = f64_lt (health_factor (candidate rc)) (Fin 1);
          valid_repay = repay_amount rc > 0 \<and> repay_amount rc \<le> close_factor_max_repay (candidate rc);
          ok = is_breaching \<and> valid_repay
      in \<lparr> routed = rc, feasible = ok, cu_measured = (if ok then 245000 else 0), tx_bytes = (if ok then 512 else 0),
           profitable = (ok \<and> f64_ge (net_usd (expected rc)) (sim_min_profit_usd s)) \<rparr>)"

section \<open>Fixtures\<close>

record historical_event =
  ev_protocol :: protocol
  ev_position_id :: pubkey
  ev_collateral_mint :: pubkey
  ev_debt_mint :: pubkey
  breach_slot :: u64
  health_factor_at_breach_slot :: f64
  obligation_data_base64 :: string
  obligation_owner :: pubkey
  best_flash_reserve :: pubkey
  best_flash_reserve_available_liquidity :: u64
  landed_slot :: "u64 option"

definition decode_base64 :: "(string \<Rightarrow> bytes option) \<Rightarrow> string \<Rightarrow> bytes option" where
  "decode_base64 std_decode s = (if s = [] then Some [] else std_decode (trim s))"

datatype 'e fixture_error = FixtureIo string io_error | FixtureJson nat 'e

fun parse_events :: "(string \<Rightarrow> 'e + historical_event) \<Rightarrow> nat \<Rightarrow> string list \<Rightarrow> 'e fixture_error + historical_event list" where
  "parse_events from_json i [] = Inr []"
| "parse_events from_json i (line # ls) =
     (if is_blank line then parse_events from_json (Suc i) ls
      else and_then (map_err (FixtureJson (i + 1)) (from_json line)) (\<lambda>e.
           and_then (parse_events from_json (Suc i) ls) (\<lambda>es. Inr (e # es))))"

definition load_events ::
  "(string \<Rightarrow> 'e + historical_event) \<Rightarrow> string \<Rightarrow> file_system \<Rightarrow> 'e fixture_error + historical_event list" where
  "load_events from_json path fs =
     (if files fs path = None then Inr []
      else and_then (map_err (FixtureIo path) (fs_read fs path)) (\<lambda>contents. parse_events from_json 0 (lines_of contents)))"

section \<open>Replay\<close>

record event_result =
  er_position_id :: pubkey
  detected :: bool
  routed_ok :: "bool option"
  feasibility_checked :: bool

definition replay_event ::
  "(string \<Rightarrow> bytes option) \<Rightarrow> ('h \<Rightarrow> account_update \<Rightarrow> breach_candidate option \<times> 'h) \<Rightarrow>
     (pubkey \<Rightarrow> u64 \<Rightarrow> flash_source option) \<Rightarrow> historical_event \<Rightarrow> 'h \<Rightarrow> event_result \<times> 'h" where
  "replay_event b64 on_update rt e h =
     (let (found, h') =
        (case decode_base64 b64 (obligation_data_base64 e) of
           Some bs \<Rightarrow>
             if bs \<noteq> [] then
               let (c, h') = on_update h \<lparr> au_pubkey = ev_position_id e, au_owner = obligation_owner e,
                                            au_data = bs, au_slot = breach_slot e \<rparr>
               in (c \<noteq> None, h')
             else (f64_lt (health_factor_at_breach_slot e) (Fin 1), h)
         | None \<Rightarrow> (f64_lt (health_factor_at_breach_slot e) (Fin 1), h))
      in (\<lparr> er_position_id = ev_position_id e, detected = found,
            routed_ok = (if found then
                Some (case rt (ev_debt_mint e) (best_flash_reserve_available_liquidity e) of
                        Some s \<Rightarrow> reserve s = best_flash_reserve e | None \<Rightarrow> False)
              else None),
            feasibility_checked = False \<rparr>, h'))"

fun replay_all ::
  "(string \<Rightarrow> bytes option) \<Rightarrow> ('h \<Rightarrow> account_update \<Rightarrow> breach_candidate option \<times> 'h) \<Rightarrow>
     (pubkey \<Rightarrow> u64 \<Rightarrow> flash_source option) \<Rightarrow> historical_event list \<Rightarrow> 'h \<Rightarrow> event_result list \<times> 'h" where
  "replay_all b64 on_update rt [] h = ([], h)"
| "replay_all b64 on_update rt (e # es) h =
     (let (r, h') = replay_event b64 on_update rt e h; (rs, h'') = replay_all b64 on_update rt es h'
      in (r # rs, h''))"

definition detected_count :: "event_result list \<Rightarrow> nat" where
  "detected_count rs = length (filter detected rs)"

definition all_detected :: "event_result list \<Rightarrow> bool" where
  "all_detected rs \<longleftrightarrow> rs \<noteq> [] \<and> list_all detected rs"

definition all_routed_with_sufficient_liquidity :: "event_result list \<Rightarrow> bool" where
  "all_routed_with_sufficient_liquidity rs \<longleftrightarrow> rs \<noteq> [] \<and> list_all (\<lambda>r. routed_ok r = Some True) rs"

lemma length_replay_all: "length (fst (replay_all b64 on_update rt es h)) = length es"
  by (induction es arbitrary: h) (simp_all add: Let_def split_def)

text \<open>A replay leaves any adapter that implements the interface in a good state.\<close>

context health_adapter
begin

lemma replay_all_ok: "adapter_ok h \<Longrightarrow> adapter_ok (snd (replay_all b64 on_update rt es h))"
proof (induction es arbitrary: h)
  case (Cons e es)
  have "adapter_ok (snd (replay_event b64 on_update rt e h))"
    using Cons.prems update_ok [OF Cons.prems]
    by (auto simp: replay_event_def Let_def split_def split: option.splits)
  with Cons.IH show ?case by (simp add: Let_def split_def)
qed simp

end

lemma all_detected_iff: "all_detected rs \<longleftrightarrow> rs \<noteq> [] \<and> detected_count rs = length rs"
  unfolding all_detected_def detected_count_def list_all_iff
  by (metis filter_True length_filter_less less_irrefl)

section \<open>The freshest update wins\<close>

definition apply_all :: "(pubkey \<times> bytes \<times> u64) list \<Rightarrow> account_sync" where
  "apply_all us = foldl (\<lambda>a (key, data, slot). snd (apply_update a key data slot)) sync_new us"

text \<open>The specification reads the whole history: the last update of a key with the highest slot.\<close>

definition freshest :: "pubkey \<Rightarrow> (pubkey \<times> bytes \<times> u64) list \<Rightarrow> (bytes \<times> u64) option" where
  "freshest key us = max_by (\<lambda>x y. snd x < snd y) (map snd (filter (\<lambda>u. fst u = key) us))"

lemma max_by_snoc:
  "max_by lt (xs @ [x]) = (case max_by lt xs of None \<Rightarrow> Some x | Some m \<Rightarrow> Some (if \<not> lt x m then x else m))"
  by (cases xs) auto

lemma apply_all_snoc: "apply_all (us @ [(key, data, slot)]) = snd (apply_update (apply_all us) key data slot)"
  by (simp add: apply_all_def)

lemma apply_all_get:
  "hm_get (sync_accounts (apply_all us)) key =
     map_option (\<lambda>(d, s). \<lparr> sa_data = d, sa_slot = s \<rparr>) (freshest key us)"
proof (induction us rule: rev_induct)
  case Nil
  then show ?case by (simp add: apply_all_def sync_new_def freshest_def)
next
  case (snoc u us)
  obtain k d s where u: "u = (k, d, s)" by (cases u)
  show ?case
    using snoc
    by (auto simp: u apply_all_snoc apply_update_def freshest_def max_by_snoc Let_def not_less
        split: option.splits)
qed

lemma apply_all_current: "sync_current_slot (apply_all us) = fold (\<lambda>(_, _, s) m. max m s) us 0"
  by (induction us rule: rev_induct)
     (auto simp: apply_all_def sync_new_def apply_update_def Let_def split: option.splits)

lemma fold_max_init: "(m :: u64) \<le> fold (\<lambda>(_, _, s) m. max m s) us m"
  by (induction us arbitrary: m) (auto intro: order.trans [OF max.cobounded1])

lemma fold_max_ge: "(k, d, s) \<in> set us \<Longrightarrow> (s :: u64) \<le> fold (\<lambda>(_, _, s) m. max m s) us m"
proof (induction us arbitrary: m)
  case (Cons u us)
  then show ?case
    using fold_max_init [of "max m s" us] by (auto split: prod.splits intro: order.trans [OF max.cobounded2])
qed simp

text \<open>
  C29: The simulated account set never goes back in time.  After any sequence of updates in any
  order, an account holds the data of an update of that account with the highest slot, of
  several such the one that arrived last; an account is known exactly when it was updated; and
  the pipeline's slot is the highest seen, so no account's lag is negative.
\<close>

theorem account_sync_keeps_freshest:
  shows "sync_get (apply_all us) key = map_option fst (freshest key us) \<and>
     account_slot (apply_all us) key = map_option snd (freshest key us) \<and>
     (freshest key us = None \<longleftrightarrow> key \<notin> fst ` set us) \<and>
     (\<forall>d s. freshest key us = Some (d, s) \<longrightarrow> (key, d, s) \<in> set us \<and>
        (\<forall>d' s'. (key, d', s') \<in> set us \<longrightarrow> s' \<le> s) \<and> s \<le> sync_current_slot (apply_all us))"
proof (intro conjI allI impI)
  show "sync_get (apply_all us) key = map_option fst (freshest key us)"
    and "account_slot (apply_all us) key = map_option snd (freshest key us)"
    by (simp_all add: sync_get_def account_slot_def apply_all_get option.map_comp comp_def split_def)
  show "freshest key us = None \<longleftrightarrow> key \<notin> fst ` set us"
    by (auto simp: freshest_def filter_empty_conv image_iff)
  fix d s
  assume f: "freshest key us = Some (d, s)"
  from max_by_in_set [OF f [unfolded freshest_def]] show mem: "(key, d, s) \<in> set us" by auto
  have wo: "weak_order_on (\<lambda>x y. snd x < snd y) A" for A :: "(bytes \<times> u64) set"
    by (auto simp: weak_order_on_def)
  show "s' \<le> s" if "(key, d', s') \<in> set us" for d' s'
  proof -
    have "(d', s') \<in> set (map snd (filter (\<lambda>u. fst u = key) us))" using that by force
    from max_by_greatest [OF wo f [unfolded freshest_def] this] show ?thesis by simp
  qed
  have "(k, d, s) \<in> set us \<Longrightarrow> s \<le> fold (\<lambda>(_, _, s) m. max m s) us m" for k d s m
    by (rule fold_max_ge)
  with mem show "s \<le> sync_current_slot (apply_all us)" unfolding apply_all_current by blast
qed

theorem account_sync_keeps_freshest_witness:
  "sync_get (apply_all [([1], [10], 5), ([1], [20], 9), ([1], [30], 7)]) [1] = Some [20] \<and>
   account_slot (apply_all [([1], [10], 5), ([1], [20], 9), ([1], [30], 7)]) [1] = Some 9"
proof -
  let ?us = "[([1], [10], 5), ([1], [20], 9), ([1], [30], 7)] :: (pubkey \<times> bytes \<times> u64) list"
  have "freshest [1] ?us = Some ([20], 9)" by (simp add: freshest_def)
  with account_sync_keeps_freshest [of ?us "[1]"] show ?thesis by simp
qed

end
