(* ===== verification/KaminoHealth.thy ===== *)
theory KaminoHealth
  imports Core
begin

text \<open>
  \<open>crates/health/src/adapters/kamino.rs\<close>: the health adapter.  It keeps the reserves, lending
  markets and obligations it has seen and turns an obligation update into a breach candidate.
  The account decoders, discriminators, the program id and the fixed-point conversion belong
  to \<open>klend_interface\<close> and are the fields of the record \<open>klend\<close>, as is \<open>10f64.powi\<close>, whose
  precision the standard library leaves open.  What the proofs use of the conversion, that it
  gives a finite number at or above zero, is the hypothesis \<open>sf_ok\<close>.
\<close>

section \<open>The decoded accounts, as far as the adapter reads them\<close>

record klend_reserve =
  kl_mint :: pubkey
  kl_market_price :: u128
  kl_mint_decimals :: u64
  kl_price_last_updated_ts :: u64
  kl_max_age_price_seconds :: u64

record klend_market =
  kl_close_factor_pct :: u8
  kl_max_liquidatable_value :: u64

record klend_borrow =
  kb_reserve :: pubkey
  kb_market_value :: u128
  kb_borrowed_amount :: u128
  kb_active :: bool

record klend_deposit =
  kd_reserve :: pubkey
  kd_market_value :: u128
  kd_active :: bool

record klend_obligation =
  ko_lending_market :: pubkey
  ko_debt_value :: u128
  ko_unhealthy_value :: u128
  ko_borrows :: "klend_borrow list"
  ko_deposits :: "klend_deposit list"

record klend =
  kl_program_id :: pubkey
  kl_reserve_tag :: bytes
  kl_market_tag :: bytes
  kl_obligation_tag :: bytes
  kl_decode_reserve :: "bytes \<Rightarrow> klend_reserve option"
  kl_decode_market :: "bytes \<Rightarrow> klend_market option"
  kl_decode_obligation :: "bytes \<Rightarrow> klend_obligation option"
  kl_sf_to_f64 :: "u128 \<Rightarrow> f64"
  kl_powi10 :: "u32 \<Rightarrow> f64"

section \<open>The adapter\<close>

record reserve_snapshot =
  rs_liquidity_mint :: pubkey
  rs_market_price_sf :: u128
  rs_mint_decimals :: u32
  rs_slot :: u64
  rs_price_last_updated_ts :: u64
  rs_max_age_price_seconds :: u64

record market_snapshot =
  ms_close_factor_pct :: u8
  ms_max_liquidatable_value :: u64
  ms_slot :: u64

record obligation_snapshot =
  os_slot :: u64
  os_close_factor_max_repay :: u64

record kamino_adapter =
  ka_reserves :: "(pubkey, reserve_snapshot) hashmap"
  ka_lending_markets :: "(pubkey, market_snapshot) hashmap"
  ka_known_obligations :: "(pubkey, obligation_snapshot) hashmap"
  ka_last_synced_slot :: u64
  ka_current_slot :: u64

definition adapter_new :: kamino_adapter where
  "adapter_new = \<lparr> ka_reserves = hm_new, ka_lending_markets = hm_new, ka_known_obligations = hm_new,
     ka_last_synced_slot = 0, ka_current_slot = 0 \<rparr>"

definition handle_reserve :: "klend \<Rightarrow> kamino_adapter \<Rightarrow> pubkey \<Rightarrow> bytes \<Rightarrow> u64 \<Rightarrow> kamino_adapter" where
  "handle_reserve kl a key data slot =
     (case kl_decode_reserve kl data of
        None \<Rightarrow> a
      | Some r \<Rightarrow> a\<lparr>ka_reserves := hm_insert key
          \<lparr> rs_liquidity_mint = kl_mint r, rs_market_price_sf = kl_market_price r,
            rs_mint_decimals = ucast (kl_mint_decimals r), rs_slot = slot,
            rs_price_last_updated_ts = kl_price_last_updated_ts r,
            rs_max_age_price_seconds = kl_max_age_price_seconds r \<rparr> (ka_reserves a)\<rparr>)"

definition reserve_price_is_stale :: "kamino_adapter \<Rightarrow> pubkey \<Rightarrow> u64 \<Rightarrow> bool option" where
  "reserve_price_is_stale a key current_unix_ts =
     map_option (\<lambda>s. saturating_sub current_unix_ts (rs_price_last_updated_ts s) > rs_max_age_price_seconds s)
       (hm_get (ka_reserves a) key)"

definition handle_lending_market :: "klend \<Rightarrow> kamino_adapter \<Rightarrow> pubkey \<Rightarrow> bytes \<Rightarrow> u64 \<Rightarrow> kamino_adapter" where
  "handle_lending_market kl a key data slot =
     (case kl_decode_market kl data of
        None \<Rightarrow> a
      | Some m \<Rightarrow> a\<lparr>ka_lending_markets := hm_insert key
          \<lparr> ms_close_factor_pct = kl_close_factor_pct m, ms_max_liquidatable_value = kl_max_liquidatable_value m,
            ms_slot = slot \<rparr> (ka_lending_markets a)\<rparr>)"

definition max_repay_native_amount ::
  "klend \<Rightarrow> market_snapshot \<Rightarrow> reserve_snapshot \<Rightarrow> klend_borrow \<Rightarrow> u64" where
  "max_repay_native_amount kl m debt_reserve b =
     (let debt_mv = kl_sf_to_f64 kl (kb_market_value b);
          close_factor_rate = f64_div (f64_of_word (ms_close_factor_pct m)) (f64_lit 100);
          by_close_factor_mv = f64_mul debt_mv close_factor_rate;
          market_cap_mv = f64_of_word (ms_max_liquidatable_value m);
          capped_mv = f64_min by_close_factor_mv market_cap_mv;
          price = kl_sf_to_f64 kl (rs_market_price_sf debt_reserve)
      in if f64_le price (Fin 0) \<or> \<not> is_finite price then 0
         else
           let native = f64_mul (f64_div capped_mv price) (kl_powi10 kl (rs_mint_decimals debt_reserve));
               borrowed_native = kl_sf_to_f64 kl (kb_borrowed_amount b)
           in f64_to_word (f64_max (f64_min native borrowed_native) (Fin 0)))"

definition note_obligation :: "kamino_adapter \<Rightarrow> pubkey \<Rightarrow> u64 \<Rightarrow> u64 \<Rightarrow> kamino_adapter" where
  "note_obligation a key slot max_repay =
     a\<lparr>ka_known_obligations := hm_insert key \<lparr> os_slot = slot, os_close_factor_max_repay = max_repay \<rparr>
         (ka_known_obligations a)\<rparr>"

definition largest_borrow :: "klend_obligation \<Rightarrow> klend_borrow option" where
  "largest_borrow ob = max_by (\<lambda>x y. kb_market_value x < kb_market_value y) (filter kb_active (ko_borrows ob))"

definition largest_deposit :: "klend_obligation \<Rightarrow> klend_deposit option" where
  "largest_deposit ob = max_by (\<lambda>x y. kd_market_value x < kd_market_value y) (filter kd_active (ko_deposits ob))"

text \<open>
  \<open>handle_obligation\<close>: the early returns that record a zero close factor, and those of the
  question-mark operator, which record nothing.
\<close>

definition handle_obligation ::
  "klend \<Rightarrow> kamino_adapter \<Rightarrow> pubkey \<Rightarrow> bytes \<Rightarrow> u64 \<Rightarrow> breach_candidate option \<times> kamino_adapter" where
  "handle_obligation kl a key data slot =
     (case kl_decode_obligation kl data of
        None \<Rightarrow> (None, a)
      | Some ob \<Rightarrow>
          let debt = kl_sf_to_f64 kl (ko_debt_value ob);
              unhealthy = kl_sf_to_f64 kl (ko_unhealthy_value ob);
              hf = f64_div unhealthy debt
          in if f64_le debt (Fin 0) then (None, note_obligation a key slot 0)
             else if f64_le unhealthy (Fin 0) then (None, note_obligation a key slot 0)
             else if f64_ge hf (Fin 1) then (None, note_obligation a key slot 0)
             else case hm_get (ka_lending_markets a) (ko_lending_market ob) of None \<Rightarrow> (None, a) | Some m \<Rightarrow>
             (case largest_borrow ob of None \<Rightarrow> (None, a) | Some b \<Rightarrow>
             (case hm_get (ka_reserves a) (kb_reserve b) of None \<Rightarrow> (None, a) | Some dr \<Rightarrow>
             (case largest_deposit ob of None \<Rightarrow> (None, a) | Some d \<Rightarrow>
             (case hm_get (ka_reserves a) (kd_reserve d) of None \<Rightarrow> (None, a) | Some cr \<Rightarrow>
               let max_repay = max_repay_native_amount kl m dr b
               in (Some \<lparr> bc_protocol = Kamino, position_id = key, collateral_mint = rs_liquidity_mint cr,
                          debt_mint = rs_liquidity_mint dr, health_factor = hf,
                          close_factor_max_repay = max_repay, bc_slot = slot \<rparr>,
                   note_obligation a key slot max_repay))))))"

definition on_account_update ::
  "klend \<Rightarrow> kamino_adapter \<Rightarrow> account_update \<Rightarrow> breach_candidate option \<times> kamino_adapter" where
  "on_account_update kl a u =
     (if au_owner u \<noteq> kl_program_id kl then (None, a)
      else
        let a1 = a\<lparr>ka_current_slot := max (ka_current_slot a) (au_slot u)\<rparr>;
            synced = (\<lambda>a. a\<lparr>ka_last_synced_slot := au_slot u\<rparr>);
            tag = take 8 (au_data u)
        in if length (au_data u) < 8 then (None, a1)
           else if tag = kl_reserve_tag kl
             then (None, synced (handle_reserve kl a1 (au_pubkey u) (au_data u) (au_slot u)))
           else if tag = kl_market_tag kl
             then (None, synced (handle_lending_market kl a1 (au_pubkey u) (au_data u) (au_slot u)))
           else if tag = kl_obligation_tag kl
             then handle_obligation kl (synced a1) (au_pubkey u) (au_data u) (au_slot u)
           else (None, a1))"

definition close_factor :: "kamino_adapter \<Rightarrow> pubkey \<Rightarrow> u64" where
  "close_factor a key =
     (case hm_get (ka_known_obligations a) key of Some s \<Rightarrow> os_close_factor_max_repay s | None \<Rightarrow> 0)"

definition position_count :: "kamino_adapter \<Rightarrow> nat" where
  "position_count a = hm_len (ka_known_obligations a)"

definition sync_lag_slots :: "kamino_adapter \<Rightarrow> u64" where
  "sync_lag_slots a = saturating_sub (ka_current_slot a) (ka_last_synced_slot a)"

section \<open>Invariant\<close>

definition adapter_inv :: "kamino_adapter \<Rightarrow> bool" where
  "adapter_inv a \<longleftrightarrow> ka_last_synced_slot a \<le> ka_current_slot a \<and> hm_wf (ka_known_obligations a)"

lemma handle_frame:
  "ka_current_slot (handle_reserve kl a k d s) = ka_current_slot a"
  "ka_current_slot (handle_lending_market kl a k d s) = ka_current_slot a"
  "ka_known_obligations (handle_reserve kl a k d s) = ka_known_obligations a"
  "ka_known_obligations (handle_lending_market kl a k d s) = ka_known_obligations a"
  by (auto simp: handle_reserve_def handle_lending_market_def split: option.splits)

lemma handle_obligation_inv: "adapter_inv a \<Longrightarrow> adapter_inv (snd (handle_obligation kl a k d s))"
  by (auto simp: adapter_inv_def handle_obligation_def note_obligation_def Let_def split: option.splits)

lemma adapter_inv_new: "adapter_inv adapter_new"
  by (simp add: adapter_inv_def adapter_new_def)

lemma adapter_inv_update: "adapter_inv a \<Longrightarrow> adapter_inv (snd (on_account_update kl a u))"
proof -
  assume inv: "adapter_inv a"
  then have "adapter_inv (a\<lparr>ka_current_slot := max (ka_current_slot a) (au_slot u), ka_last_synced_slot := au_slot u\<rparr>)"
    "adapter_inv (a\<lparr>ka_current_slot := max (ka_current_slot a) (au_slot u)\<rparr>)"
    by (auto simp: adapter_inv_def intro: order.trans)
  with inv show ?thesis
    using handle_obligation_inv
    by (auto simp: on_account_update_def Let_def adapter_inv_def handle_frame)
qed

section \<open>Breach candidates\<close>

text \<open>What is assumed of the fixed-point conversion.\<close>

definition sf_ok :: "klend \<Rightarrow> bool" where
  "sf_ok kl \<longleftrightarrow> (\<forall>x. is_finite (kl_sf_to_f64 kl x) \<and> f64_le (Fin 0) (kl_sf_to_f64 kl x))"

lemma sf_okE:
  assumes "sf_ok kl"
  obtains r where "kl_sf_to_f64 kl x = Fin r" and "0 \<le> r"
proof -
  have "is_finite (kl_sf_to_f64 kl x)" "f64_le (Fin 0) (kl_sf_to_f64 kl x)"
    using assms by (simp_all add: sf_ok_def)
  then show thesis using that by (cases "kl_sf_to_f64 kl x") auto
qed

lemma max_repay_le_borrowed:
  assumes "sf_ok kl" and "kl_sf_to_f64 kl (kb_borrowed_amount b) = Fin r"
  shows "of_nat (unat (max_repay_native_amount kl m dr b)) \<le> r"
proof -
  have r: "0 \<le> r" using sf_okE [OF assms(1), of "kb_borrowed_amount b"] assms(2) by auto
  have "f64_le (f64_max (f64_min x (Fin r)) (Fin 0)) (Fin r)" for x
    using r by (intro f64_max_le f64_min_le2) auto
  from f64_to_word_le [OF this r] r show ?thesis
    by (auto simp: max_repay_native_amount_def Let_def assms(2))
qed

lemma on_account_update_SomeE:
  assumes "on_account_update kl a u = (Some c, a')"
  obtains ob m b dr d cr where "au_owner u = kl_program_id kl"
    and "kl_decode_obligation kl (au_data u) = Some ob"
    and "\<not> f64_le (kl_sf_to_f64 kl (ko_debt_value ob)) (Fin 0)"
    and "\<not> f64_le (kl_sf_to_f64 kl (ko_unhealthy_value ob)) (Fin 0)"
    and "\<not> f64_ge (f64_div (kl_sf_to_f64 kl (ko_unhealthy_value ob)) (kl_sf_to_f64 kl (ko_debt_value ob))) (Fin 1)"
    and "hm_get (ka_lending_markets a) (ko_lending_market ob) = Some m"
    and "largest_borrow ob = Some b" and "hm_get (ka_reserves a) (kb_reserve b) = Some dr"
    and "largest_deposit ob = Some d" and "hm_get (ka_reserves a) (kd_reserve d) = Some cr"
    and "c = \<lparr> bc_protocol = Kamino, position_id = au_pubkey u, collateral_mint = rs_liquidity_mint cr,
        debt_mint = rs_liquidity_mint dr,
        health_factor = f64_div (kl_sf_to_f64 kl (ko_unhealthy_value ob)) (kl_sf_to_f64 kl (ko_debt_value ob)),
        close_factor_max_repay = max_repay_native_amount kl m dr b, bc_slot = au_slot u \<rparr>"
    and "hm_get (ka_known_obligations a') (au_pubkey u) =
        Some \<lparr> os_slot = au_slot u, os_close_factor_max_repay = max_repay_native_amount kl m dr b \<rparr>"
  using assms that
  by (auto simp: on_account_update_def handle_obligation_def note_obligation_def Let_def
      split: if_splits option.splits)

text \<open>The adapter implements the interface of the core crate.\<close>

interpretation ka: health_adapter "on_account_update kl" close_factor adapter_inv for kl
proof unfold_locales
  show "adapter_inv a \<Longrightarrow> adapter_inv (snd (on_account_update kl a u))" for a u by (rule adapter_inv_update)
  fix a u c a'
  assume "on_account_update kl a u = (Some c, a')"
  then show "position_id c = au_pubkey u \<and> bc_slot c = au_slot u \<and> close_factor a' (au_pubkey u) = close_factor_max_repay c"
    by (rule on_account_update_SomeE) (simp add: close_factor_def)
qed

lemma largest_borrow_spec:
  assumes "largest_borrow ob = Some b"
  shows "b \<in> set (ko_borrows ob)" "kb_active b"
    and "b' \<in> set (ko_borrows ob) \<Longrightarrow> kb_active b' \<Longrightarrow> kb_market_value b' \<le> kb_market_value b"
proof -
  let ?lt = "\<lambda>x y. kb_market_value x < kb_market_value y"
  have "weak_order_on ?lt (set (filter kb_active (ko_borrows ob)))" by (auto simp: weak_order_on_def)
  from max_by_greatest [OF this assms [unfolded largest_borrow_def]]
  show "b' \<in> set (ko_borrows ob) \<Longrightarrow> kb_active b' \<Longrightarrow> kb_market_value b' \<le> kb_market_value b"
    by (auto simp: not_less)
  show "b \<in> set (ko_borrows ob)" "kb_active b"
    using max_by_in_set [OF assms [unfolded largest_borrow_def]] by auto
qed

text \<open>
  C7: Every breach candidate of the adapter is genuine.  It comes from an obligation account of
  the Kamino program, carries that account's key and slot, its unhealthy borrow value is
  strictly below its debt and both are positive, its debt mint is the mint of the reserve of
  the largest active borrow, and the amount to repay never exceeds what that borrow owes; the
  adapter reports the same amount as the position's close factor afterwards.
\<close>

theorem breach_candidates_are_genuine:
  assumes "sf_ok kl" and "on_account_update kl a u = (Some c, a')"
  shows "au_owner u = kl_program_id kl \<and> position_id c = au_pubkey u \<and> bc_slot c = au_slot u \<and>
     f64_lt (health_factor c) (Fin 1) \<and>
     (\<exists>ob b dr debt unhealthy owed.
        kl_decode_obligation kl (au_data u) = Some ob \<and>
        kl_sf_to_f64 kl (ko_debt_value ob) = Fin debt \<and> kl_sf_to_f64 kl (ko_unhealthy_value ob) = Fin unhealthy \<and>
        0 < unhealthy \<and> unhealthy < debt \<and>
        b \<in> set (ko_borrows ob) \<and> kb_active b \<and>
        (\<forall>b' \<in> set (ko_borrows ob). kb_active b' \<longrightarrow> kb_market_value b' \<le> kb_market_value b) \<and>
        hm_get (ka_reserves a) (kb_reserve b) = Some dr \<and> debt_mint c = rs_liquidity_mint dr \<and>
        kl_sf_to_f64 kl (kb_borrowed_amount b) = Fin owed \<and>
        of_nat (unat (close_factor_max_repay c)) \<le> owed) \<and>
     close_factor a' (au_pubkey u) = close_factor_max_repay c"
  using assms(2)
proof (rule on_account_update_SomeE)
  fix ob m b dr d cr
  assume owner: "au_owner u = kl_program_id kl" and ob: "kl_decode_obligation kl (au_data u) = Some ob"
    and debt: "\<not> f64_le (kl_sf_to_f64 kl (ko_debt_value ob)) (Fin 0)"
    and unh: "\<not> f64_le (kl_sf_to_f64 kl (ko_unhealthy_value ob)) (Fin 0)"
    and hf: "\<not> f64_ge (f64_div (kl_sf_to_f64 kl (ko_unhealthy_value ob)) (kl_sf_to_f64 kl (ko_debt_value ob))) (Fin 1)"
    and b: "largest_borrow ob = Some b" and dr: "hm_get (ka_reserves a) (kb_reserve b) = Some dr"
    and c: "c = \<lparr> bc_protocol = Kamino, position_id = au_pubkey u, collateral_mint = rs_liquidity_mint cr,
        debt_mint = rs_liquidity_mint dr,
        health_factor = f64_div (kl_sf_to_f64 kl (ko_unhealthy_value ob)) (kl_sf_to_f64 kl (ko_debt_value ob)),
        close_factor_max_repay = max_repay_native_amount kl m dr b, bc_slot = au_slot u \<rparr>"
    and known: "hm_get (ka_known_obligations a') (au_pubkey u) =
        Some \<lparr> os_slot = au_slot u, os_close_factor_max_repay = max_repay_native_amount kl m dr b \<rparr>"
  obtain x where x: "kl_sf_to_f64 kl (ko_debt_value ob) = Fin x" using sf_okE [OF assms(1)] by blast
  obtain y where y: "kl_sf_to_f64 kl (ko_unhealthy_value ob) = Fin y" using sf_okE [OF assms(1)] by blast
  obtain owed where owed: "kl_sf_to_f64 kl (kb_borrowed_amount b) = Fin owed" using sf_okE [OF assms(1)] by blast
  have pos: "0 < x" "0 < y" using debt unh x y by auto
  have lt: "f64_lt (f64_div (Fin y) (Fin x)) (Fin 1)"
    using hf pos(1) by (auto simp: x y not_f64_le)
  have "y < x" using f64_div_lt_1 [OF lt pos(1)] .
  then show ?thesis
    using owner ob x y pos lt dr owed known c max_repay_le_borrowed [OF assms(1) owed, of m dr]
      largest_borrow_spec [OF b]
    by (simp add: close_factor_def) blast
qed

definition demo_klend_obligation :: klend_obligation where
  "demo_klend_obligation = \<lparr> ko_lending_market = [1], ko_debt_value = 2, ko_unhealthy_value = 1,
     ko_borrows = [\<lparr> kb_reserve = [2], kb_market_value = 5, kb_borrowed_amount = 7, kb_active = True \<rparr>],
     ko_deposits = [\<lparr> kd_reserve = [2], kd_market_value = 5, kd_active = True \<rparr>] \<rparr>"

definition demo_klend :: klend where
  "demo_klend = \<lparr> kl_program_id = [9], kl_reserve_tag = [], kl_market_tag = [], kl_obligation_tag = replicate 8 3,
     kl_decode_reserve = (\<lambda>_. None), kl_decode_market = (\<lambda>_. None),
     kl_decode_obligation = (\<lambda>_. Some demo_klend_obligation), kl_sf_to_f64 = f64_of_word, kl_powi10 = (\<lambda>_. Fin 1) \<rparr>"

definition demo_adapter :: kamino_adapter where
  "demo_adapter = adapter_new\<lparr>
     ka_reserves := hm_insert [2] \<lparr> rs_liquidity_mint = [4], rs_market_price_sf = 1, rs_mint_decimals = 0,
       rs_slot = 1, rs_price_last_updated_ts = 0, rs_max_age_price_seconds = 0 \<rparr> hm_new,
     ka_lending_markets := hm_insert [1] \<lparr> ms_close_factor_pct = 20, ms_max_liquidatable_value = 9, ms_slot = 1 \<rparr> hm_new \<rparr>"

lemma demo_klend_ok: "sf_ok demo_klend"
proof -
  have "is_finite (f64_of_word (x :: u128))" for x
    by (rule f64_within_finite, rule f64_within_of_word) simp
  then show ?thesis by (simp add: sf_ok_def demo_klend_def f64_of_word_nonneg)
qed

theorem breach_candidates_are_genuine_witness:
  "\<exists>c a'. on_account_update demo_klend demo_adapter
       \<lparr> au_pubkey = [5], au_owner = [9], au_data = replicate 8 3, au_slot = 6 \<rparr> = (Some c, a') \<and>
     position_id c = [5] \<and> f64_lt (health_factor c) (Fin 1) \<and> unat (close_factor_max_repay c) \<le> 7"
proof -
  let ?u = "\<lparr> au_pubkey = [5], au_owner = [9], au_data = replicate 8 3, au_slot = 6 \<rparr> :: account_update"
  have ev: "f64_of_word (2 :: u128) = Fin 2" "f64_of_word (1 :: u128) = Fin 1" "f64_of_word (7 :: u128) = Fin 7"
    by (simp_all add: f64_of_word_exact)
  have "fst (on_account_update demo_klend demo_adapter ?u) \<noteq> None"
    by (simp add: on_account_update_def handle_obligation_def demo_klend_def demo_adapter_def adapter_new_def
        demo_klend_obligation_def largest_borrow_def largest_deposit_def ev f64_round_half Let_def)
  then obtain c a' where r: "on_account_update demo_klend demo_adapter ?u = (Some c, a')"
    by (cases "on_account_update demo_klend demo_adapter ?u") auto
  from breach_candidates_are_genuine [OF demo_klend_ok r]
  have g: "position_id c = [5]" "f64_lt (health_factor c) (Fin 1)"
    and "\<exists>owed. f64_of_word (7 :: u128) = Fin owed \<and> of_nat (unat (close_factor_max_repay c)) \<le> owed"
    by (auto simp: demo_klend_def demo_klend_obligation_def)
  then have "(of_nat (unat (close_factor_max_repay c)) :: rat) \<le> of_nat 7" by (auto simp: ev simp del: of_nat_unat)
  then have "unat (close_factor_max_repay c) \<le> 7" by (simp only: of_nat_le_iff)
  with g r show ?thesis by blast
qed

end
