(* ===== verification/Breakers.thy ===== *)
theory Breakers
  imports Core
begin

text \<open>
  \<open>crates/strategy/src/breakers.rs\<close>: the four circuit breakers.  \<open>breaker_state\<close> carries the
  five fields of \<open>BreakerState\<close>, each method is one definition, and \<open>breaker_step\<close> names the
  calls so that a history of calls is a list of events.  The lemmas show that \<open>allows\<close>
  refines a specification over the history: a route is out of rotation exactly when its
  trailing streak of reverts has reached the limit, the drawdown halt is sticky until it is
  re-armed, and calls on one route never change the answer for another.
\<close>

datatype breaker_reason = ConsecutiveRevert | TreasuryFloor | Drawdown | SyncLag

record route_key =
  rk_protocol :: protocol
  rk_position_id :: pubkey
  flash_reserve :: pubkey

record breaker_state =
  drawdown_tripped :: bool
  treasury_below_floor :: bool
  protocols_halted_for_sync_lag :: "(protocol, bool) hashmap"
  consecutive_reverts :: "(route_key, u32) hashmap"
  routes_taken_out_of_rotation :: "(route_key, bool) hashmap"

datatype breaker_check = Allowed | Halted breaker_reason

definition breaker_new :: breaker_state where
  "breaker_new =
     \<lparr> drawdown_tripped = False, treasury_below_floor = False,
       protocols_halted_for_sync_lag = hm_new, consecutive_reverts = hm_new,
       routes_taken_out_of_rotation = hm_new \<rparr>"

definition record_revert :: "breaker_state \<Rightarrow> route_key \<Rightarrow> u32 \<Rightarrow> breaker_state" where
  "record_revert st route limit =
     (let count = (case hm_get (consecutive_reverts st) route of None \<Rightarrow> 0 | Some c \<Rightarrow> c) + 1;
          st1 = st\<lparr>consecutive_reverts := hm_insert route count (consecutive_reverts st)\<rparr>
      in if limit \<le> count
         then st1\<lparr>routes_taken_out_of_rotation :=
                hm_insert route True (routes_taken_out_of_rotation st1)\<rparr>
         else st1)"

definition record_success :: "breaker_state \<Rightarrow> route_key \<Rightarrow> breaker_state" where
  "record_success st route =
     st\<lparr>consecutive_reverts := hm_insert route 0 (consecutive_reverts st),
        routes_taken_out_of_rotation := hm_remove route (routes_taken_out_of_rotation st)\<rparr>"

definition rearm_route :: "breaker_state \<Rightarrow> route_key \<Rightarrow> breaker_state" where
  "rearm_route st route =
     st\<lparr>consecutive_reverts := hm_insert route 0 (consecutive_reverts st),
        routes_taken_out_of_rotation := hm_remove route (routes_taken_out_of_rotation st)\<rparr>"

definition rearm_all_routes :: "breaker_state \<Rightarrow> breaker_state" where
  "rearm_all_routes st =
     st\<lparr>consecutive_reverts := hm_new, routes_taken_out_of_rotation := hm_new\<rparr>"

definition set_treasury_below_floor :: "breaker_state \<Rightarrow> bool \<Rightarrow> breaker_state" where
  "set_treasury_below_floor st b = st\<lparr>treasury_below_floor := b\<rparr>"

definition set_drawdown_tripped :: "breaker_state \<Rightarrow> breaker_state" where
  "set_drawdown_tripped st = st\<lparr>drawdown_tripped := True\<rparr>"

definition rearm_drawdown :: "breaker_state \<Rightarrow> breaker_state" where
  "rearm_drawdown st = st\<lparr>drawdown_tripped := False\<rparr>"

definition set_protocol_sync_lag_halted :: "breaker_state \<Rightarrow> protocol \<Rightarrow> bool \<Rightarrow> breaker_state" where
  "set_protocol_sync_lag_halted st p halted =
     st\<lparr>protocols_halted_for_sync_lag := hm_insert p halted (protocols_halted_for_sync_lag st)\<rparr>"

definition flag_of :: "('k, bool) hashmap \<Rightarrow> 'k \<Rightarrow> bool" where
  "flag_of m k = (case hm_get m k of None \<Rightarrow> False | Some b \<Rightarrow> b)"

definition allows :: "breaker_state \<Rightarrow> protocol \<Rightarrow> route_key \<Rightarrow> breaker_check" where
  "allows st p route =
     (if drawdown_tripped st then Halted Drawdown
      else if treasury_below_floor st then Halted TreasuryFloor
      else if flag_of (protocols_halted_for_sync_lag st) p then Halted SyncLag
      else if flag_of (routes_taken_out_of_rotation st) route then Halted ConsecutiveRevert
      else Allowed)"

section \<open>Histories of calls\<close>

datatype breaker_event =
    Revert route_key | Success route_key | RearmRoute route_key | RearmAll
  | TreasuryFlag bool | TripDrawdown | RearmDrawdown | SyncFlag protocol bool

fun breaker_step :: "u32 \<Rightarrow> breaker_state \<Rightarrow> breaker_event \<Rightarrow> breaker_state" where
  "breaker_step limit st (Revert r) = record_revert st r limit"
| "breaker_step limit st (Success r) = record_success st r"
| "breaker_step limit st (RearmRoute r) = rearm_route st r"
| "breaker_step limit st RearmAll = rearm_all_routes st"
| "breaker_step limit st (TreasuryFlag b) = set_treasury_below_floor st b"
| "breaker_step limit st TripDrawdown = set_drawdown_tripped st"
| "breaker_step limit st RearmDrawdown = rearm_drawdown st"
| "breaker_step limit st (SyncFlag p b) = set_protocol_sync_lag_halted st p b"

definition breaker_run :: "u32 \<Rightarrow> breaker_event list \<Rightarrow> breaker_state" where
  "breaker_run limit es = foldl (breaker_step limit) breaker_new es"

lemmas breaker_op_defs =
  record_revert_def record_success_def rearm_route_def rearm_all_routes_def
  set_treasury_below_floor_def set_drawdown_tripped_def rearm_drawdown_def
  set_protocol_sync_lag_halted_def

lemma flag_of_simps [simp]:
  "flag_of hm_new k = False"
  "flag_of (hm_insert k b m) k' = (if k' = k then b else flag_of m k')"
  "flag_of (hm_remove k m) k' = (if k' = k then False else flag_of m k')"
  by (simp_all add: flag_of_def)

lemma breaker_run_Nil [simp]: "breaker_run limit [] = breaker_new"
  by (simp add: breaker_run_def)

lemma breaker_run_snoc [simp]: "breaker_run limit (es @ [e]) = breaker_step limit (breaker_run limit es) e"
  by (simp add: breaker_run_def)

text \<open>
  The specification reads the history only.  Histories are processed from their last call,
  hence the reversed lists.
\<close>

fun streak_rev :: "route_key \<Rightarrow> breaker_event list \<Rightarrow> nat" where
  "streak_rev r [] = 0"
| "streak_rev r (Revert r' # es) = (if r' = r then Suc (streak_rev r es) else streak_rev r es)"
| "streak_rev r (Success r' # es) = (if r' = r then 0 else streak_rev r es)"
| "streak_rev r (RearmRoute r' # es) = (if r' = r then 0 else streak_rev r es)"
| "streak_rev r (RearmAll # es) = 0"
| "streak_rev r (_ # es) = streak_rev r es"

definition streak :: "route_key \<Rightarrow> breaker_event list \<Rightarrow> nat" where
  "streak r es = streak_rev r (rev es)"

fun drawdown_rev :: "breaker_event list \<Rightarrow> bool" where
  "drawdown_rev [] = False"
| "drawdown_rev (TripDrawdown # es) = True"
| "drawdown_rev (RearmDrawdown # es) = False"
| "drawdown_rev (_ # es) = drawdown_rev es"

fun treasury_rev :: "breaker_event list \<Rightarrow> bool" where
  "treasury_rev [] = False"
| "treasury_rev (TreasuryFlag b # es) = b"
| "treasury_rev (_ # es) = treasury_rev es"

fun sync_rev :: "protocol \<Rightarrow> breaker_event list \<Rightarrow> bool" where
  "sync_rev p [] = False"
| "sync_rev p (SyncFlag p' b # es) = (if p' = p then b else sync_rev p es)"
| "sync_rev p (_ # es) = sync_rev p es"

definition spec_allows :: "u32 \<Rightarrow> breaker_event list \<Rightarrow> protocol \<Rightarrow> route_key \<Rightarrow> breaker_check" where
  "spec_allows limit es p r =
     (if drawdown_rev (rev es) then Halted Drawdown
      else if treasury_rev (rev es) then Halted TreasuryFloor
      else if sync_rev p (rev es) then Halted SyncLag
      else if unat limit \<le> streak r es then Halted ConsecutiveRevert
      else Allowed)"

lemma streak_le_length: "streak r es \<le> length es"
proof -
  have "streak_rev r xs \<le> length xs" for xs
    by (induction r xs rule: streak_rev.induct) auto
  then show ?thesis by (metis length_rev streak_def)
qed

lemma streak_snoc: "streak r (es @ [e]) = streak_rev r (e # rev es)"
  by (simp add: streak_def)

text \<open>The abstraction relation between the state and the history.\<close>

definition breaker_sim :: "u32 \<Rightarrow> breaker_event list \<Rightarrow> breaker_state \<Rightarrow> bool" where
  "breaker_sim limit es st \<longleftrightarrow>
     drawdown_tripped st = drawdown_rev (rev es) \<and>
     treasury_below_floor st = treasury_rev (rev es) \<and>
     (\<forall>p. flag_of (protocols_halted_for_sync_lag st) p = sync_rev p (rev es)) \<and>
     (\<forall>r. unat (case hm_get (consecutive_reverts st) r of None \<Rightarrow> 0 | Some c \<Rightarrow> c) = streak r es) \<and>
     (\<forall>r. flag_of (routes_taken_out_of_rotation st) r = (unat limit \<le> streak r es))"

lemma unat_Suc_u32: "unat (c :: u32) = n \<Longrightarrow> Suc n < 2 ^ 32 \<Longrightarrow> unat (c + 1) = Suc n"
  by (simp add: unat_word_ariths)

lemma breaker_sim_revert:
  assumes "breaker_sim limit es st" and "length es < 2 ^ 32 - 1"
  shows "breaker_sim limit (es @ [Revert r]) (record_revert st r limit)"
proof -
  let ?c = "case hm_get (consecutive_reverts st) r of None \<Rightarrow> 0 | Some c \<Rightarrow> c"
  have c: "unat ?c = streak r es" using assms(1) by (simp add: breaker_sim_def)
  have "Suc (streak r es) < 2 ^ 32" using streak_le_length [of r es] assms(2) by simp
  with c have c1: "unat (?c + 1) = Suc (streak r es)" by (rule unat_Suc_u32)
  have le: "limit \<le> ?c + 1 \<longleftrightarrow> unat limit \<le> Suc (streak r es)"
    by (simp only: word_le_nat_alt c1)
  show ?thesis
    using assms(1) c1 le
    by (auto simp: breaker_sim_def record_revert_def Let_def streak_def split: if_splits)
qed

lemma breaker_sim_step:
  assumes "breaker_sim limit es st" and "length es < 2 ^ 32 - 1" and "0 < limit"
  shows "breaker_sim limit (es @ [e]) (breaker_step limit st e)"
proof (cases e)
  case (Revert r)
  then show ?thesis using breaker_sim_revert assms by simp
qed (use assms in \<open>auto simp: breaker_sim_def breaker_op_defs streak_def word_less_nat_alt\<close>)

lemma breaker_sim_run:
  assumes "0 < limit" and "length es < 2 ^ 32"
  shows "breaker_sim limit es (breaker_run limit es)"
  using assms(2)
proof (induction es rule: rev_induct)
  case Nil
  then show ?case
    using assms(1)
    by (simp add: breaker_sim_def breaker_new_def streak_def word_less_nat_alt)
next
  case (snoc e es)
  then show ?case using breaker_sim_step assms(1) by simp
qed

section \<open>Properties of the breakers\<close>

text \<open>
  C4: after any history of fewer than \<open>2^32\<close> calls with a limit accepted by
  \<open>Config::validate\<close>, \<open>allows\<close> answers what the history says: a drawdown trip not re-armed
  since halts everything, then the last treasury flag, then the protocol's last sync-lag
  flag, then a streak of at least \<open>limit\<close> reverts on the route since its last success or
  re-arm; otherwise the route is allowed.
\<close>
theorem allows_refines_history:
  assumes "0 < limit" and "length es < 2 ^ 32"
  shows "allows (breaker_run limit es) p r = spec_allows limit es p r"
  using breaker_sim_run [OF assms]
  by (auto simp: allows_def spec_allows_def breaker_sim_def)

definition demo_route :: "u8 \<Rightarrow> route_key" where
  "demo_route b =
     \<lparr> rk_protocol = Kamino, rk_position_id = replicate 32 b, flash_reserve = replicate 32 (b + 1) \<rparr>"

theorem allows_refines_history_witness:
  "allows (breaker_run 3 [Revert (demo_route 1), Revert (demo_route 1), Revert (demo_route 1)])
     Kamino (demo_route 1) = Halted ConsecutiveRevert"
proof -
  have "allows (breaker_run 3 [Revert (demo_route 1), Revert (demo_route 1), Revert (demo_route 1)])
      Kamino (demo_route 1) =
    spec_allows 3 [Revert (demo_route 1), Revert (demo_route 1), Revert (demo_route 1)]
      Kamino (demo_route 1)"
    by (rule allows_refines_history) simp_all
  also have "\<dots> = Halted ConsecutiveRevert"
    by (simp add: spec_allows_def streak_def)
  finally show ?thesis .
qed

text \<open>The routes a call is about.\<close>

fun touches :: "breaker_event \<Rightarrow> route_key \<Rightarrow> bool" where
  "touches (Revert r') r = (r' = r)"
| "touches (Success r') r = (r' = r)"
| "touches (RearmRoute r') r = (r' = r)"
| "touches _ r = True"

text \<open>
  A revert, a success or a re-arm recorded for one route never changes what \<open>allows\<close>
  answers for any other route, whatever state the breakers are in.
\<close>
lemma route_isolation:
  assumes "\<not> touches e r"
  shows "allows (breaker_step limit st e) p r = allows st p r"
  using assms by (cases e) (auto simp: breaker_op_defs allows_def Let_def)

lemma route_isolation_witness:
  "allows (breaker_step 1 breaker_new (Revert (demo_route 1))) Kamino (demo_route 2) = Allowed"
proof -
  have "\<not> touches (Revert (demo_route 1)) (demo_route 2)" by (simp add: demo_route_def)
  from route_isolation [OF this, of 1 breaker_new Kamino] show ?thesis
    by (simp add: allows_def breaker_new_def)
qed

text \<open>
  Once the drawdown breaker is tripped, every protocol and route is halted with reason
  \<open>Drawdown\<close> after any further calls, until \<open>rearm_drawdown\<close> is among them.
\<close>
lemma drawdown_halt_is_sticky:
  assumes "drawdown_tripped st" and "RearmDrawdown \<notin> set es"
  shows "allows (foldl (breaker_step limit) st es) p r = Halted Drawdown"
  using assms
proof (induction es arbitrary: st)
  case Nil
  then show ?case by (simp add: allows_def)
next
  case (Cons e es)
  then have "drawdown_tripped (breaker_step limit st e)"
    by (cases e) (auto simp: breaker_op_defs Let_def)
  with Cons show ?case by simp
qed

lemma drawdown_halt_is_sticky_witness:
  "allows (foldl (breaker_step 3) (set_drawdown_tripped breaker_new)
      [TreasuryFlag False, Success (demo_route 1)]) Kamino (demo_route 1) = Halted Drawdown"
  by (rule drawdown_halt_is_sticky) (simp_all add: set_drawdown_tripped_def)

end
