(* ===== verification/Engine.thy ===== *)
theory Engine
  imports Bundler Submit Sim KaminoHealth Breakers
begin

text \<open>
  \<open>crates/gyrfalcon-bin/src/main.rs\<close>: the start-up of the daemon and its event loop, which passes
  every account of the feed through the adapter, the breakers, sizing, simulation, assembly and
  submission and keeps the dashboard's counters.  One turn of the loop is \<open>engine_step\<close>; a run is
  a sequence of account events interleaved with turns of the background log writer.  A panic
  aborts the process and is a value.  The lemmas say which bundles can reach the submitter.
\<close>

section \<open>Mode and dashboard\<close>

record cli =
  cli_config :: string
  cli_mode :: "submit_mode option"
  halt :: bool
  cli_port :: u16

definition effective_mode :: "cli \<Rightarrow> submit_mode \<Rightarrow> submit_mode" where
  "effective_mode c config_mode =
     (if halt c then Observe
      else case cli_mode c of Some Observe \<Rightarrow> Observe | Some Live \<Rightarrow> Live | None \<Rightarrow> config_mode)"

record liquidation_summary =
  ls_protocol :: string
  ls_position_id :: string
  ls_repay_amount :: u64
  ls_net_profit_usd :: f64
  ls_slot :: u64
  ls_outcome :: string

record dashboard_state =
  connected :: bool
  ds_mode :: string
  current_slot :: u64
  tracked_positions :: nat
  kamino_positions :: nat
  breach_candidates_detected :: u64
  liquidations_attempted :: u64
  liquidations_landed :: u64
  liquidations_reverted :: u64
  total_net_profit_usd :: f64
  sync_lag_kamino :: u64
  circuit_breaker_active :: bool
  recent_liquidations :: "liquidation_summary list"

definition dashboard_new :: "submit_mode \<Rightarrow> dashboard_state" where
  "dashboard_new m =
     \<lparr> connected = False, ds_mode = submit_mode_display m, current_slot = 0, tracked_positions = 0,
       kamino_positions = 0, breach_candidates_detected = 0, liquidations_attempted = 0,
       liquidations_landed = 0, liquidations_reverted = 0, total_net_profit_usd = Fin 0,
       sync_lag_kamino = 0, circuit_breaker_active = False, recent_liquidations = [] \<rparr>"

text \<open>The counters the loop touches; the dashboard's lock is never poisoned.\<close>

definition observe_slot :: "u64 \<Rightarrow> kamino_adapter \<Rightarrow> dashboard_state \<Rightarrow> dashboard_state" where
  "observe_slot slot a d =
     d\<lparr>current_slot := slot, kamino_positions := position_count a, tracked_positions := position_count a,
       sync_lag_kamino := sync_lag_slots a\<rparr>"

section \<open>What the loop is given\<close>

text \<open>
  On top of what \<open>assemble\<close> uses of the SDK: the system transfer, the key of a signer and the
  all-zero block hash.
\<close>

record ('ix, 'msg, 'hash, 'signer, 'tx, 'ce, 'se, 'be) engine_sdk =
  "('ix, 'msg, 'hash, 'signer, 'tx, 'ce, 'se, 'be) tx_sdk" +
  transfer_ix :: "pubkey \<Rightarrow> pubkey \<Rightarrow> u64 \<Rightarrow> 'ix"
  signer_pubkey :: "'signer \<Rightarrow> pubkey"
  hash_default :: 'hash

record ('ix, 'msg, 'hash, 'signer, 'tx, 'ce, 'se, 'be) engine_env =
  ee_mode :: submit_mode
  ee_risk :: risk_config
  ee_klend :: klend
  kamino_pid :: pubkey
  ee_registry :: decoder_registry
  ee_router :: multi_source_router
  ee_simulator :: lite_svm_simulator
  ee_sdk :: "('ix, 'msg, 'hash, 'signer, 'tx, 'ce, 'se, 'be) engine_sdk"
  keypair :: 'signer
  staked_url :: string
  jito_url :: string
  ee_base64 :: "bytes \<Rightarrow> string"
  log_json :: "liquidation_record \<Rightarrow> string option"

text \<open>What the network does during one turn, and the choice of \<open>select!\<close> between ready branches.\<close>

record network =
  net_wire :: wire
  net_staked_first :: bool

record engine_state =
  es_adapter :: kamino_adapter
  es_breakers :: breaker_state
  es_dashboard :: dashboard_state
  async_log :: async_writer
  es_fs :: file_system
  slot_counter :: u64

section \<open>One turn of the loop\<close>

definition FLASH_DEPTH :: u64 where "FLASH_DEPTH = 50000000000"

text \<open>The bundle: a transfer of nothing from the payer to itself is the only instruction.\<close>

definition bundle_tx :: "('ix, 'msg, 'hash, 'signer, 'tx, 'ce, 'se, 'be) engine_env \<Rightarrow> u32 \<Rightarrow> bytes" where
  "bundle_tx env cu =
     (let sdk = ee_sdk env;
          payer = signer_pubkey sdk (keypair env);
          params = \<lparr> bp_instructions = [transfer_ix sdk payer payer 0], cu_limit = cu,
                     cu_price_micro_lamports = None, bp_payer = payer, recent_blockhash = hash_default sdk,
                     address_lookup_tables = [] \<rparr>
      in case assemble (tx_sdk.truncate sdk) params (keypair env) of
           Inr tx \<Rightarrow> (case to_core_bundle_bytes (tx_sdk.truncate sdk) tx of Inr bs \<Rightarrow> bs | Inl _ \<Rightarrow> replicate 64 0)
         | Inl _ \<Rightarrow> replicate 64 0)"

definition make_bundle :: "('ix, 'msg, 'hash, 'signer, 'tx, 'ce, 'se, 'be) engine_env \<Rightarrow> sim_result \<Rightarrow> tx_bundle" where
  "make_bundle env s = \<lparr> bundle_sim = s, versioned_tx = bundle_tx env (cu_measured s), alt_keys = [] \<rparr>"

definition engine_submitter ::
  "('ix, 'msg, 'hash, 'signer, 'tx, 'ce, 'se, 'be) engine_env \<Rightarrow> network \<Rightarrow> dual_path_submitter" where
  "engine_submitter env n =
     submitter_new (staked_quic_path (ee_base64 env) True (net_wire n) (staked_url env))
       (jito_path (ee_base64 env) True (net_wire n) (jito_url env)) 1500"

text \<open>The key under which the breakers are asked, and the key under which outcomes are recorded.\<close>

definition check_key :: "breach_candidate \<Rightarrow> route_key" where
  "check_key c = \<lparr> rk_protocol = bc_protocol c, rk_position_id = position_id c, flash_reserve = Pubkey_default \<rparr>"

definition outcome_key :: "routed_candidate \<Rightarrow> route_key" where
  "outcome_key rc =
     \<lparr> rk_protocol = bc_protocol (candidate rc), rk_position_id = position_id (candidate rc),
       flash_reserve = reserve (flash_source rc) \<rparr>"

definition log_outcome :: "engine_state \<Rightarrow> liquidation_record \<Rightarrow> engine_state" where
  "log_outcome st r =
     (case try_record (async_log st) r :: unit store_error + async_writer of
        Inr w \<Rightarrow> st\<lparr>async_log := w\<rparr>
      | Inl _ \<Rightarrow> st)"

definition note_outcome :: "u32 \<Rightarrow> route_key \<Rightarrow> submit_outcome \<Rightarrow> engine_state \<Rightarrow> engine_state" where
  "note_outcome limit key out st =
     (case out of
        Landed _ usd \<Rightarrow>
          st\<lparr>es_dashboard := (es_dashboard st)
                \<lparr>liquidations_landed := liquidations_landed (es_dashboard st) + 1,
                 total_net_profit_usd := f64_add (total_net_profit_usd (es_dashboard st)) usd\<rparr>,
             es_breakers := record_success (es_breakers st) key\<rparr>
      | Reverted _ \<Rightarrow>
          st\<lparr>es_dashboard := (es_dashboard st)\<lparr>liquidations_reverted := liquidations_reverted (es_dashboard st) + 1\<rparr>,
             es_breakers := record_revert (es_breakers st) key limit\<rparr>
      | NotIncluded \<Rightarrow> st)"

definition submit_live ::
  "('ix, 'msg, 'hash, 'signer, 'tx, 'ce, 'se, 'be) engine_env \<Rightarrow> network \<Rightarrow> routed_candidate \<Rightarrow> tx_bundle
     \<Rightarrow> engine_state \<Rightarrow> engine_state" where
  "submit_live env n rc b st =
     (let st1 = st\<lparr>es_dashboard := (es_dashboard st)\<lparr>liquidations_attempted := liquidations_attempted (es_dashboard st) + 1\<rparr>\<rparr>;
          out = submit (net_staked_first n) (engine_submitter env n) b;
          r = \<lparr> lr_routed = rc, lr_outcome = out, submitted_at_slot = slot_counter st, resolved_at_slot = slot_counter st + 1 \<rparr>
      in note_outcome (consecutive_revert_limit (ee_risk env)) (outcome_key rc) out (log_outcome st1 r))"

definition handle_candidate ::
  "('ix, 'msg, 'hash, 'signer, 'tx, 'ce, 'se, 'be) engine_env \<Rightarrow> network \<Rightarrow> breach_candidate \<Rightarrow> engine_state
     \<Rightarrow> panic + (tx_bundle option \<times> engine_state)" where
  "handle_candidate env n c st0 =
     (let st = st0\<lparr>es_dashboard := (es_dashboard st0)
                 \<lparr>breach_candidates_detected := breach_candidates_detected (es_dashboard st0) + 1\<rparr>\<rparr>
      in if allows (es_breakers st) (bc_protocol c) (check_key c) \<noteq> Allowed then Inr (None, st)
         else and_then (size_and_route (route (ee_router env)) c (ee_risk env) FLASH_DEPTH) (\<lambda>routed_opt.
           case routed_opt of
             None \<Rightarrow> Inr (None, st)
           | Some rc \<Rightarrow>
               let s = simulate (ee_simulator env) rc
               in if feasible s \<and> profitable s then
                    let b = make_bundle env s
                    in if ee_mode env = Live then Inr (Some b, submit_live env n rc b st) else Inr (None, st)
                  else Inr (None, st)))"

definition engine_step ::
  "('ix, 'msg, 'hash, 'signer, 'tx, 'ce, 'se, 'be) engine_env \<Rightarrow> raw_account \<Rightarrow> network \<Rightarrow> engine_state
     \<Rightarrow> panic + (tx_bundle option \<times> engine_state)" where
  "engine_step env raw n st =
     (let slot = max (ra_slot raw) (slot_counter st + 1);
          st1 = st\<lparr>slot_counter := slot, es_dashboard := observe_slot slot (es_adapter st) (es_dashboard st)\<rparr>
      in if \<not> is_watched (ee_registry env) (ra_owner raw) then Inr (None, st1)
         else
           let u = to_update raw;
               (c_opt, a) = (if au_owner u = kamino_pid env then on_account_update (ee_klend env) (es_adapter st1) u
                             else (None, es_adapter st1));
               st2 = st1\<lparr>es_adapter := a\<rparr>
           in case c_opt of None \<Rightarrow> Inr (None, st2) | Some c \<Rightarrow> handle_candidate env n c st2)"

section \<open>Runs\<close>

datatype engine_event = AccountEvent raw_account network | WriterTurn

definition log_turn ::
  "('ix, 'msg, 'hash, 'signer, 'tx, 'ce, 'se, 'be) engine_env \<Rightarrow> engine_state \<Rightarrow> engine_state" where
  "log_turn env st =
     (let (w, fs) = writer_turn (\<lambda>r. case log_json env r of Some l \<Rightarrow> Inr l | None \<Rightarrow> Inl ()) (async_log st) (es_fs st)
      in st\<lparr>async_log := w, es_fs := fs\<rparr>)"

fun engine_run ::
  "('ix, 'msg, 'hash, 'signer, 'tx, 'ce, 'se, 'be) engine_env \<Rightarrow> engine_event list \<Rightarrow> engine_state
     \<Rightarrow> panic + (tx_bundle list \<times> engine_state)" where
  "engine_run env [] st = Inr ([], st)"
| "engine_run env (WriterTurn # evs) st = engine_run env evs (log_turn env st)"
| "engine_run env (AccountEvent raw n # evs) st =
     and_then (engine_step env raw n st) (\<lambda>(b, st').
     and_then (engine_run env evs st') (\<lambda>(bs, st'').
       Inr ((case b of Some x \<Rightarrow> [x] | None \<Rightarrow> []) @ bs, st'')))"

section \<open>Start-up\<close>

definition load_keypair ::
  "(string \<Rightarrow> 'io + string) \<Rightarrow> (string \<Rightarrow> bytes option) \<Rightarrow> (bytes \<Rightarrow> 'signer option) \<Rightarrow> 'signer \<Rightarrow> string \<Rightarrow> 'signer" where
  "load_keypair read_file json_bytes from_bytes fresh path =
     (case read_file path of
        Inr data \<Rightarrow> (case json_bytes data of
            Some bs \<Rightarrow> (case from_bytes bs of Some k \<Rightarrow> k | None \<Rightarrow> fresh)
          | None \<Rightarrow> fresh)
      | Inl _ \<Rightarrow> fresh)"

definition engine_init :: "submit_mode \<Rightarrow> file_system \<Rightarrow> engine_state" where
  "engine_init m fs =
     \<lparr> es_adapter = adapter_new, es_breakers = breaker_new, es_dashboard = dashboard_new m,
       async_log = \<lparr> aw_queue = [], aw_capacity = 4096, aw_path = ''data/liquidation_log.jsonl'', aw_started = False \<rparr>,
       es_fs = fs, slot_counter = 300000000 \<rparr>"

definition main_env ::
  "chain \<Rightarrow> klend \<Rightarrow> ('ix, 'msg, 'hash, 'signer, 'tx, 'ce, 'se, 'be) engine_sdk \<Rightarrow> (bytes \<Rightarrow> string)
     \<Rightarrow> (liquidation_record \<Rightarrow> string option) \<Rightarrow> 'signer \<Rightarrow> submit_mode \<Rightarrow> config
     \<Rightarrow> ('ix, 'msg, 'hash, 'signer, 'tx, 'ce, 'se, 'be) engine_env" where
  "main_env ch kl sdk enc to_json key m cfg =
     \<lparr> ee_mode = m, ee_risk = cfg_risk cfg, ee_klend = kl, kamino_pid = kamino_program_id ch,
       ee_registry = watch registry_new (kamino_program_id ch), ee_router = router_new,
       ee_simulator = simulator_new, ee_sdk = sdk, keypair = key,
       staked_url = staked_send_url (cfg_staked_send cfg), jito_url = block_engine_url (cfg_jito cfg),
       ee_base64 = enc, log_json = to_json \<rparr>"

definition main ::
  "chain \<Rightarrow> klend \<Rightarrow> ('ix, 'msg, 'hash, 'signer, 'tx, 'ce, 'se, 'be) engine_sdk \<Rightarrow> (bytes \<Rightarrow> string)
     \<Rightarrow> (liquidation_record \<Rightarrow> string option) \<Rightarrow> (string \<Rightarrow> 'io + string) \<Rightarrow> (string \<Rightarrow> 'parse + config)
     \<Rightarrow> (string \<Rightarrow> bytes option) \<Rightarrow> (bytes \<Rightarrow> 'signer option) \<Rightarrow> 'signer \<Rightarrow> file_system \<Rightarrow> engine_event list \<Rightarrow> cli
     \<Rightarrow> panic + (exit_code \<times> tx_bundle list)" where
  "main ch kl sdk enc to_json read_file from_toml json_bytes from_bytes fresh fs evs c =
     (case load read_file from_toml (cli_config c) of
        Inl _ \<Rightarrow> Inr (ExitFailure, [])
      | Inr cfg \<Rightarrow>
          let m = effective_mode c (submit_mode_cfg (cfg_submit cfg));
              key = load_keypair read_file json_bytes from_bytes fresh (keypair_path (cfg_identity cfg))
          in case geyser_connect True (geyser_url (cfg_geyser cfg)) of
               Inl _ \<Rightarrow> Inr (ExitSuccess, [])
             | Inr _ \<Rightarrow> and_then (engine_run (main_env ch kl sdk enc to_json key m cfg) evs (engine_init m fs))
                         (\<lambda>(bs, _). Inr (ExitSuccess, bs)))"

section \<open>Reachable states\<close>

text \<open>
  The states and submissions a sequence of events can lead to, as a relation that grows at the
  end of the sequence; \<open>engine_run\<close> computes it.
\<close>

inductive engine_reach ::
  "('ix, 'msg, 'hash, 'signer, 'tx, 'ce, 'se, 'be) engine_env \<Rightarrow> engine_state \<Rightarrow> engine_event list \<Rightarrow> tx_bundle list
     \<Rightarrow> engine_state \<Rightarrow> bool" for env and st0 where
  reach_start: "engine_reach env st0 [] [] st0"
| reach_turn: "engine_reach env st0 evs bs st \<Longrightarrow> engine_reach env st0 (evs @ [WriterTurn]) bs (log_turn env st)"
| reach_quiet: "engine_reach env st0 evs bs st \<Longrightarrow> engine_step env raw n st = Inr (None, st')
    \<Longrightarrow> engine_reach env st0 (evs @ [AccountEvent raw n]) bs st'"
| reach_submit: "engine_reach env st0 evs bs st \<Longrightarrow> engine_step env raw n st = Inr (Some b, st')
    \<Longrightarrow> engine_reach env st0 (evs @ [AccountEvent raw n]) (bs @ [b]) st'"

lemma engine_run_reach_from:
  "engine_reach env st0 evs0 bs0 st \<Longrightarrow> engine_run env evs st = Inr (bs, st') \<Longrightarrow> engine_reach env st0 (evs0 @ evs) (bs0 @ bs) st'"
proof (induction env evs st arbitrary: evs0 bs0 bs st' rule: engine_run.induct)
  case (1 env st)
  then show ?case by simp
next
  case (2 env evs st)
  from "2.IH" [OF reach_turn [OF "2.prems"(1)]] "2.prems"(2) show ?case by simp
next
  case (3 env raw n evs st)
  from "3.prems"(2) obtain b st1 bs1 where s: "engine_step env raw n st = Inr (b, st1)"
    and r: "engine_run env evs st1 = Inr (bs1, st')" and bs: "bs = (case b of Some x \<Rightarrow> [x] | None \<Rightarrow> []) @ bs1"
    by (auto simp: and_then_Inr_iff)
  have "engine_reach env st0 (evs0 @ [AccountEvent raw n]) (bs0 @ (case b of Some x \<Rightarrow> [x] | None \<Rightarrow> [])) st1"
    using reach_quiet [OF "3.prems"(1)] reach_submit [OF "3.prems"(1)] s by (cases b) auto
  from "3.IH" [OF this r] show ?case by (simp add: bs)
qed

lemma engine_run_reach: "engine_run env evs st = Inr (bs, st') \<Longrightarrow> engine_reach env st evs bs st'"
  using engine_run_reach_from [OF reach_start] by fastforce

section \<open>The loop never panics\<close>

lemma handle_candidate_total: "\<exists>r. handle_candidate env n c st = Inr r"
proof -
  obtain ro where "size_and_route (route (ee_router env)) c (ee_risk env) FLASH_DEPTH = Inr ro"
    using size_and_route_total by blast
  then show ?thesis by (cases ro) (simp_all add: handle_candidate_def Let_def)
qed

lemma engine_step_total: "\<exists>b st'. engine_step env raw n st = Inr (b, st')"
  using handle_candidate_total
  by (fastforce simp: engine_step_def Let_def split: prod.splits option.splits)

lemma engine_run_total: "\<exists>bs st'. engine_run env evs st = Inr (bs, st')"
proof (induction env evs st rule: engine_run.induct)
  case (3 env raw n evs st)
  obtain b st1 where s: "engine_step env raw n st = Inr (b, st1)" using engine_step_total by blast
  from "3.IH" [of st1] show ?case by (auto simp: s)
qed auto

section \<open>What reaches the submitter\<close>

text \<open>A bundle the loop may submit: what the adapter, the router, sizing and simulation checked.\<close>

definition vetted :: "('ix, 'msg, 'hash, 'signer, 'tx, 'ce, 'se, 'be) engine_env \<Rightarrow> tx_bundle \<Rightarrow> bool" where
  "vetted env b \<longleftrightarrow>
     (let rc = routed (bundle_sim b); c = candidate rc
      in f64_lt (health_factor c) (Fin 1) \<and> 0 < repay_amount rc \<and> repay_amount rc \<le> close_factor_max_repay c \<and>
         repay_amount rc \<le> FLASH_DEPTH \<and> route (ee_router env) (debt_mint c) (repay_amount rc) = Some (flash_source rc) \<and>
         f64_le (sim_min_profit_usd (ee_simulator env)) (net_usd (expected rc)) \<and>
         \<not> f64_lt (net_usd (expected rc)) (min_profit_usd (ee_risk env)))"

lemma handle_candidate_cases:
  assumes "handle_candidate env n c st = Inr (b, st')"
  obtains (quiet) "b = None" "es_breakers st' = es_breakers st"
      "liquidations_attempted (es_dashboard st') = liquidations_attempted (es_dashboard st)"
  | (submitted) rc x where "b = Some x" "ee_mode env = Live" "size_and_route (route (ee_router env)) c (ee_risk env) FLASH_DEPTH = Inr (Some rc)"
      "x = make_bundle env (simulate (ee_simulator env) rc)"
      "feasible (simulate (ee_simulator env) rc)" "profitable (simulate (ee_simulator env) rc)"
      "st' = submit_live env n rc x (st\<lparr>es_dashboard := (es_dashboard st)
                 \<lparr>breach_candidates_detected := breach_candidates_detected (es_dashboard st) + 1\<rparr>\<rparr>)"
  using assms
  by (auto simp: handle_candidate_def Let_def and_then_Inr_iff split: if_splits option.splits)

lemma engine_step_cases:
  assumes "engine_step env raw n st = Inr (b, st')"
  obtains (quiet) "b = None" "es_breakers st' = es_breakers st"
      "liquidations_attempted (es_dashboard st') = liquidations_attempted (es_dashboard st)"
  | (candidate) c a st2 where "ra_owner raw = kamino_pid env" "on_account_update (ee_klend env) (es_adapter st) (to_update raw) = (Some c, a)"
      "handle_candidate env n c st2 = Inr (b, st')" "es_breakers st2 = es_breakers st"
      "liquidations_attempted (es_dashboard st2) = liquidations_attempted (es_dashboard st)"
  using assms
  by (auto simp: engine_step_def Let_def observe_slot_def to_update_def split: if_splits option.splits prod.splits)

lemma simulate_routed [simp]: "routed (simulate s rc) = rc"
  by (simp add: simulate_def Let_def)

lemma submitted_vetted:
  assumes "size_and_route (route (ee_router env)) c (ee_risk env) FLASH_DEPTH = Inr (Some rc)"
    and "feasible (simulate (ee_simulator env) rc)" "profitable (simulate (ee_simulator env) rc)"
  shows "vetted env (make_bundle env (simulate (ee_simulator env) rc)) \<and> candidate rc = c"
  using assms(1)
proof (rule size_and_route_SomeE)
  assume "repay_amount rc = min (close_factor_max_repay c) FLASH_DEPTH" "repay_amount rc \<noteq> 0"
    "route (ee_router env) (debt_mint c) (repay_amount rc) = Some (flash_source rc)" "candidate rc = c"
    "\<not> f64_lt (net_usd (expected rc)) (min_profit_usd (ee_risk env))"
  moreover from assms(2,3) have "f64_lt (health_factor (candidate rc)) (Fin 1)"
    "f64_ge (net_usd (expected rc)) (sim_min_profit_usd (ee_simulator env))"
    by (auto simp: simulate_def Let_def)
  ultimately show ?thesis
    by (simp add: vetted_def make_bundle_def word_neq_0_conv Let_def)
qed

lemma submit_live_attempted:
  "liquidations_attempted (es_dashboard (submit_live env n rc b st)) = liquidations_attempted (es_dashboard st) + 1"
  by (simp add: submit_live_def note_outcome_def log_outcome_def Let_def split: submit_outcome.split sum.split)

lemma submit_live_breakers:
  obtains "es_breakers (submit_live env n rc b st) = es_breakers st"
  | "es_breakers (submit_live env n rc b st) = record_success (es_breakers st) (outcome_key rc)"
  | "es_breakers (submit_live env n rc b st) = record_revert (es_breakers st) (outcome_key rc) (consecutive_revert_limit (ee_risk env))"
  by (fastforce simp: submit_live_def note_outcome_def log_outcome_def Let_def split: submit_outcome.splits sum.splits)

lemma log_turn_frame [simp]: "es_breakers (log_turn env st) = es_breakers st" "es_dashboard (log_turn env st) = es_dashboard st"
  by (simp_all add: log_turn_def split: prod.split)

text \<open>One turn: a submission is live, vetted, built from the account of the turn and counted.\<close>

lemma engine_step_submits:
  assumes "engine_step env raw n st = Inr (Some b, st')"
  shows "ee_mode env = Live \<and> vetted env b \<and> ra_owner raw = kamino_pid env \<and>
     position_id (candidate (routed (bundle_sim b))) = ra_pubkey raw \<and>
     versioned_tx b = bundle_tx env 245000 \<and> alt_keys b = [] \<and>
     liquidations_attempted (es_dashboard st') = liquidations_attempted (es_dashboard st) + 1"
  using assms
proof (cases rule: engine_step_cases)
  case (candidate c a st2)
  have c: "position_id c = ra_pubkey raw"
    using candidate(2) by (rule on_account_update_SomeE) (simp add: to_update_def)
  from candidate(3) show ?thesis
  proof (cases rule: handle_candidate_cases)
    case (submitted rc x)
    moreover have "cu_measured (simulate (ee_simulator env) rc) = 245000"
      using submitted(5) by (simp add: simulate_def Let_def)
    ultimately show ?thesis
      using candidate c submitted_vetted [OF submitted(3,5,6)]
      by (simp add: submit_live_attempted make_bundle_def)
  qed simp
qed simp

lemma engine_step_quiet:
  assumes "engine_step env raw n st = Inr (None, st')"
  shows "liquidations_attempted (es_dashboard st') = liquidations_attempted (es_dashboard st)"
  using assms by (cases rule: engine_step_cases) (auto elim: handle_candidate_cases)

section \<open>A run that submits\<close>

lemma f64_mul_between:
  assumes "0 \<le> a" "a \<le> ha" "0 \<le> b" "b \<le> hb" "ha * hb \<le> h" "f64_round h = Fin h"
  obtains r where "f64_mul (Fin a) (Fin b) = Fin r" "0 \<le> r" "r \<le> h"
proof -
  have "a * b \<le> h" using mult_mono [OF assms(2,4)] assms by (meson order.trans)
  then show thesis using f64_round_between [of 0 "a * b" h] assms that by auto
qed

lemma f64_sub_between:
  assumes "lo \<le> a - b" "a - b \<le> hi" "f64_round lo = Fin lo" "f64_round hi = Fin hi"
  obtains r where "f64_sub (Fin a) (Fin b) = Fin r" "lo \<le> r" "r \<le> hi"
  using f64_round_between [OF assms] that by (auto simp: f64_sub_def)

lemma f64_max_between:
  assumes "x = Fin a" "y = Fin b" "0 \<le> a" "a \<le> h" "0 \<le> b" "b \<le> h"
  obtains r where "f64_max x y = Fin r" "0 \<le> r" "r \<le> h"
  using assms that by (cases "a < b") (simp_all add: f64_max_def)

lemma f64_mul_20:
  assumes "0 \<le> a" "a \<le> 1 / 8192"
  obtains r where "f64_mul (Fin a) (Fin 20) = Fin r" "0 \<le> r" "r \<le> 1 / 8"
proof -
  have r8: "f64_round (1 / 8) = Fin (1 / 8)" using f64_round_inv_pow [of 3] by simp
  have "(0 :: rat) \<le> 20" "(20 :: rat) \<le> 20" "1 / 8192 * 20 \<le> (1 / 8 :: rat)" by simp_all
  from f64_mul_between [OF assms this r8] that show thesis by blast
qed

text \<open>The costs of a small amount at a small fee: a bonus of twelve dollars and cents of slippage and fee.\<close>

lemma small_costs:
  fixes amount :: u64 and fee :: u32
  defines "scale \<equiv> f64_div (f64_of_word amount) (f64_lit 1000000)"
  assumes "amount \<le> 100" and "fee \<le> 10"
  obtains sl fl where "f64_max (f64_mul (f64_mul scale (f64_lit (5 / 100))) (f64_lit 20)) (f64_lit 12) = Fin 12"
    "f64_max (f64_mul (f64_mul scale (f64_lit (3 / 1000))) (f64_lit 20)) (f64_lit (1 / 10)) = Fin sl" "0 \<le> sl" "sl \<le> 1 / 8"
    "f64_max (f64_mul (f64_mul scale (f64_lit 20)) (f64_div (f64_of_word fee) (f64_lit 10000))) (f64_lit (1 / 100)) = Fin fl"
    "0 \<le> fl" "fl \<le> 1 / 8"
proof -
  have pow: "f64_round (1 / 8192) = Fin (1 / 8192)" "f64_round (1 / 16) = Fin (1 / 16)" "f64_round (1 / 8) = Fin (1 / 8)"
    using f64_round_inv_pow [of 13] f64_round_inv_pow [of 4] f64_round_inv_pow [of 3] by simp_all
  have a: "unat amount \<le> 100" "unat fee \<le> 10" using assms(2,3) by (simp_all add: word_le_nat_alt)
  then have aq: "(of_nat (unat amount) :: rat) \<le> 100" "(of_nat (unat fee) :: rat) \<le> 10"
    by (metis of_nat_le_iff of_nat_numeral)+
  have lits: "f64_lit 20 = Fin 20" "f64_lit 12 = Fin 12" "f64_lit 10000 = Fin 10000" "f64_lit 1000000 = Fin 1000000"
    by (simp_all add: f64_lit_def f64_round_numeral)
  obtain sc where sc: "scale = Fin sc" "0 \<le> sc" "sc \<le> 1 / 8192"
    using f64_round_between [of 0 "of_nat (unat amount) / 1000000" "1 / 8192"] a aq pow
    by (auto simp: scale_def f64_of_word_exact lits field_simps simp del: of_nat_unat)
  obtain fr where fr: "f64_div (f64_of_word fee) (f64_lit 10000) = Fin fr" "0 \<le> fr" "fr \<le> 1"
    using f64_round_between [of 0 "of_nat (unat fee) / 10000" 1] a aq
    by (auto simp: f64_of_word_exact lits field_simps simp del: of_nat_unat)
  have lit: "\<exists>r. f64_lit q = Fin r \<and> 0 \<le> r \<and> r \<le> h" if "0 \<le> q" "q \<le> h" "f64_round h = Fin h" for q h
    using f64_round_between [OF that(1,2) _ that(3)] by (auto simp: f64_lit_def)
  obtain br where br: "f64_lit (5 / 100) = Fin br" "0 \<le> br" "br \<le> 1 / 16" using lit [OF _ _ pow(2), of "5 / 100"] by auto
  obtain sr where sr: "f64_lit (3 / 1000) = Fin sr" "0 \<le> sr" "sr \<le> 1 / 16" using lit [OF _ _ pow(2), of "3 / 1000"] by auto
  obtain tenth where tenth: "f64_lit (1 / 10) = Fin tenth" "0 \<le> tenth" "tenth \<le> 1 / 8" using lit [OF _ _ pow(3), of "1 / 10"] by auto
  obtain cent where cent: "f64_lit (1 / 100) = Fin cent" "0 \<le> cent" "cent \<le> 1 / 8" using lit [OF _ _ pow(3), of "1 / 100"] by auto
  obtain b1 where b1: "f64_mul (Fin sc) (Fin br) = Fin b1" "0 \<le> b1" "b1 \<le> 1 / 8192"
    by (rule f64_mul_between [OF sc(2,3) br(2,3) _ pow(1)]) simp_all
  obtain b2 where b2: "f64_mul (Fin b1) (Fin 20) = Fin b2" "0 \<le> b2" "b2 \<le> 1 / 8" by (rule f64_mul_20 [OF b1(2,3)])
  obtain s1 where s1: "f64_mul (Fin sc) (Fin sr) = Fin s1" "0 \<le> s1" "s1 \<le> 1 / 8192"
    by (rule f64_mul_between [OF sc(2,3) sr(2,3) _ pow(1)]) simp_all
  obtain s2 where s2: "f64_mul (Fin s1) (Fin 20) = Fin s2" "0 \<le> s2" "s2 \<le> 1 / 8" by (rule f64_mul_20 [OF s1(2,3)])
  obtain f1 where f1: "f64_mul (Fin sc) (Fin 20) = Fin f1" "0 \<le> f1" "f1 \<le> 1 / 8" by (rule f64_mul_20 [OF sc(2,3)])
  obtain f2 where f2: "f64_mul (Fin f1) (Fin fr) = Fin f2" "0 \<le> f2" "f2 \<le> 1 / 8"
    by (rule f64_mul_between [OF f1(2,3) fr(2,3) _ pow(3)]) simp_all
  have bonus: "f64_max (Fin b2) (Fin 12) = Fin 12" using b2 by (simp add: f64_max_def)
  obtain sl where sl: "f64_max (Fin s2) (Fin tenth) = Fin sl" "0 \<le> sl" "sl \<le> 1 / 8"
    by (rule f64_max_between [OF refl refl s2(2,3) tenth(2,3)])
  obtain fl where fl: "f64_max (Fin f2) (Fin cent) = Fin fl" "0 \<le> fl" "fl \<le> 1 / 8"
    by (rule f64_max_between [OF refl refl f2(2,3) cent(2,3)])
  show thesis
    by (rule that [OF _ _ sl(2,3) _ fl(2,3)])
       (simp_all only: sc br sr tenth cent lits(1,2) fr b1 b2 s1 s2 f1 f2 bonus sl(1) fl(1))
qed

text \<open>The estimate then lies above nine dollars minus the tip.\<close>

lemma small_estimate:
  assumes "amount \<le> 100" and "fee_bps source \<le> 10" and "max_tip_per_tx_usd risk = Fin (1 / 2)"
  obtains est where "estimate_profit amount source risk = Inr est" "f64_le (f64_round (17 / 2)) (net_usd est)"
proof (rule small_costs [OF assms(1,2)])
  fix sl fl
  assume costs: "f64_max (f64_mul (f64_mul (f64_div (f64_of_word amount) (f64_lit 1000000)) (f64_lit (5 / 100))) (f64_lit 20)) (f64_lit 12) = Fin 12"
    "f64_max (f64_mul (f64_mul (f64_div (f64_of_word amount) (f64_lit 1000000)) (f64_lit (3 / 1000))) (f64_lit 20)) (f64_lit (1 / 10)) = Fin sl"
    "f64_max (f64_mul (f64_mul (f64_div (f64_of_word amount) (f64_lit 1000000)) (f64_lit 20)) (f64_div (f64_of_word (fee_bps source)) (f64_lit 10000))) (f64_lit (1 / 100)) = Fin fl"
    and sl: "0 \<le> sl" "sl \<le> 1 / 8" and fl: "0 \<le> fl" "fl \<le> 1 / 8"
  have num: "f64_round n = Fin n" if "n \<in> {9, 10, 11, 12}" for n using that by (auto simp: f64_round_numeral)
  obtain tip where tip: "static_tip_bid (Fin 12) risk = Inr tip" using static_tip_bid_total by blast
  have "f64_le (Fin 0) tip" "f64_le tip (Fin (1 / 2))"
    using static_tip_bid_bounds(1) [OF tip] static_tip_bid_le_cap [OF tip] assms(3) by simp_all
  then obtain tp where tp: "tip = Fin tp" "0 \<le> tp" "tp \<le> 1 / 2" by (cases tip) auto
  obtain n1 where n1: "f64_sub (Fin 12) (Fin sl) = Fin n1" "11 \<le> n1" "n1 \<le> 12"
    by (rule f64_sub_between [of 11 12 sl 12]) (use sl num in auto)
  obtain n2 where n2: "f64_sub (Fin n1) (Fin fl) = Fin n2" "10 \<le> n2" "n2 \<le> 12"
    by (rule f64_sub_between [of 10 n1 fl 12]) (use num fl n1 in auto)
  obtain n3 where n3: "f64_sub (Fin n2) (Fin (1 / 2)) = Fin n3" "9 \<le> n3"
    by (rule f64_sub_between [of 9 n2 "1 / 2" 12]) (use num n2 in auto)
  have "f64_le (f64_round (17 / 2)) (f64_round (n3 - tp))" by (rule f64_round_mono) (use n3 tp in simp)
  then have "f64_le (f64_round (17 / 2)) (f64_sub (Fin n3) (Fin tp))" by (simp add: f64_sub_def)
  moreover have "\<exists>est. estimate_profit amount source risk = Inr est \<and> net_usd est = f64_sub (Fin n3) (Fin tp)"
    unfolding estimate_profit_def Let_def costs
    by (simp add: tip n1 n2 n3 tp f64_lit_def f64_round_half)
  ultimately show thesis using that by auto
qed

text \<open>
  A live engine with one fed reserve and an adapter that knows one market at a close factor of
  100 percent; the account of \<open>live_account\<close> is an obligation in breach that owes seven units.
\<close>

definition live_sdk :: "(nat, nat list, unit, unit, nat list, unit, unit, unit) engine_sdk" where
  "live_sdk = \<lparr> compute_unit_limit_ix = unat, compute_unit_price_ix = unat, compile_v0 = (\<lambda>_ ixs _ _. Inr ixs),
     sign_tx = (\<lambda>msg _. Inr msg), serialize_tx = (\<lambda>tx. Inr (map of_nat tx)), transfer_ix = (\<lambda>_ _ n. unat n),
     signer_pubkey = (\<lambda>_. replicate 32 7), hash_default = () \<rparr>"

definition live_env :: "submit_mode \<Rightarrow> (nat, nat list, unit, unit, nat list, unit, unit, unit) engine_env" where
  "live_env m = \<lparr> ee_mode = m, ee_risk = demo_risk\<lparr>max_tip_per_tx_usd := Fin (1 / 2), consecutive_revert_limit := 1\<rparr>,
     ee_klend = demo_klend, kamino_pid = [9], ee_registry = watch registry_new [9],
     ee_router = add_reserve router_new (replicate 32 1) KaminoProvider [4] 500 (Some 5),
     ee_simulator = simulator_new, ee_sdk = live_sdk, keypair = (), staked_url = ''tpu'', jito_url = ''jito'',
     ee_base64 = (\<lambda>_. []), log_json = (\<lambda>_. None) \<rparr>"

definition live_state :: engine_state where
  "live_state = (engine_init Live demo_fs)
     \<lparr>es_adapter := adapter_new\<lparr>
        ka_reserves := hm_insert [2] \<lparr> rs_liquidity_mint = [4], rs_market_price_sf = 1, rs_mint_decimals = 0,
          rs_slot = 1, rs_price_last_updated_ts = 0, rs_max_age_price_seconds = 0 \<rparr> hm_new,
        ka_lending_markets := hm_insert [1] \<lparr> ms_close_factor_pct = 100, ms_max_liquidatable_value = 9, ms_slot = 1 \<rparr> hm_new\<rparr>\<rparr>"

definition live_account :: raw_account where
  "live_account = \<lparr> ra_pubkey = [5], ra_owner = [9], ra_data = replicate 8 3, ra_slot = 6 \<rparr>"

definition live_candidate :: breach_candidate where
  "live_candidate = \<lparr> bc_protocol = Kamino, position_id = [5], collateral_mint = [4], debt_mint = [4],
     health_factor = Fin (1 / 2), close_factor_max_repay = 5, bc_slot = 6 \<rparr>"

text \<open>Every request is answered with a failure after ten milliseconds.\<close>

definition reverting :: network where
  "reverting = \<lparr> net_wire = (\<lambda>_ _. Some (10, Response False ''500'' None)), net_staked_first = True \<rparr>"

lemma live_candidate_found:
  "\<exists>a. on_account_update demo_klend (es_adapter live_state) (to_update live_account) = (Some live_candidate, a)"
proof -
  have ev: "f64_of_word (2 :: u128) = Fin 2" "f64_of_word (1 :: u128) = Fin 1" "f64_of_word (7 :: u128) = Fin 7"
    "f64_of_word (5 :: u128) = Fin 5" "f64_of_word (100 :: u8) = Fin 100" "f64_of_word (9 :: u64) = Fin 9"
    "f64_lit 100 = Fin 100" "f64_round 5 = Fin 5"
    by (simp_all add: f64_of_word_exact f64_lit_def f64_round_numeral)
  have "max_repay_native_amount demo_klend \<lparr> ms_close_factor_pct = 100, ms_max_liquidatable_value = 9, ms_slot = 1 \<rparr>
      \<lparr> rs_liquidity_mint = [4], rs_market_price_sf = 1, rs_mint_decimals = 0, rs_slot = 1,
        rs_price_last_updated_ts = 0, rs_max_age_price_seconds = 0 \<rparr>
      \<lparr> kb_reserve = [2], kb_market_value = 5, kb_borrowed_amount = 7, kb_active = True \<rparr> = 5"
    by (simp add: max_repay_native_amount_def demo_klend_def ev f64_min_def f64_max_def Let_def)
  then show ?thesis
    by (simp add: on_account_update_def handle_obligation_def demo_klend_def live_state_def adapter_new_def
        demo_klend_obligation_def largest_borrow_def largest_deposit_def ev f64_round_half Let_def live_account_def
        to_update_def live_candidate_def)
qed

lemma live_routed:
  obtains rc where "size_and_route (route (ee_router (live_env m))) live_candidate (ee_risk (live_env m)) FLASH_DEPTH = Inr (Some rc)"
    "feasible (simulate simulator_new rc)" "profitable (simulate simulator_new rc)"
    "reserve (flash_source rc) = replicate 32 1" "candidate rc = live_candidate"
proof -
  let ?src = "source_of (replicate 32 1) 5"
  have r: "route (ee_router (live_env m)) [4] 5 = Some ?src"
    by (simp add: live_env_def add_reserve_def router_new_def route_def flash_options_def hm_insert_def hm_new_def
        eligible_def map_filter_simps)
  obtain est where est: "estimate_profit 5 ?src (ee_risk (live_env m)) = Inr est" "f64_le (f64_round (17 / 2)) (net_usd est)"
    by (rule small_estimate [of 5 ?src "ee_risk (live_env m)"]) (auto simp: source_of_def live_env_def)
  have "f64_le (Fin 5) (f64_round (17 / 2))" using f64_round_mono [of 5 "17 / 2"] by (simp add: f64_round_numeral)
  then have m5: "\<not> f64_lt (net_usd est) (Fin 5)" using est(2) f64_le_trans f64_le_lt_trans f64_lt_irrefl by blast
  let ?rc = "\<lparr> candidate = live_candidate, repay_amount = 5, flash_source = ?src, expected = est \<rparr>"
  have "size_and_route (route (ee_router (live_env m))) live_candidate (ee_risk (live_env m)) FLASH_DEPTH = Inr (Some ?rc)"
    using r est(1) m5
    by (simp add: size_and_route_def size_position_def live_candidate_def FLASH_DEPTH_def live_env_def demo_risk_def)
  moreover have "feasible (simulate simulator_new ?rc)" "profitable (simulate simulator_new ?rc)"
    using est(2) by (simp_all add: simulate_def live_candidate_def simulator_new_def f64_lit_def)
  ultimately show thesis using that by (simp add: source_of_def)
qed

lemma live_submission:
  obtains rc where "candidate rc = live_candidate" "reserve (flash_source rc) = replicate 32 1"
    "\<exists>st. engine_run (live_env Live) [AccountEvent live_account n] live_state =
       Inr ([make_bundle (live_env Live) (simulate simulator_new rc)],
         submit_live (live_env Live) n rc (make_bundle (live_env Live) (simulate simulator_new rc)) st) \<and>
       es_breakers st = breaker_new"
proof (rule live_routed [of Live])
  fix rc
  assume sr: "size_and_route (route (ee_router (live_env Live))) live_candidate (ee_risk (live_env Live)) FLASH_DEPTH = Inr (Some rc)"
    and sim: "feasible (simulate simulator_new rc)" "profitable (simulate simulator_new rc)"
    and rc: "reserve (flash_source rc) = replicate 32 1" "candidate rc = live_candidate"
  let ?b = "make_bundle (live_env Live) (simulate simulator_new rc)"
  obtain a where a: "on_account_update demo_klend (es_adapter live_state) (to_update live_account) = (Some live_candidate, a)"
    using live_candidate_found by blast
  have env: "ee_mode (live_env Live) = Live" "ee_klend (live_env Live) = demo_klend" "kamino_pid (live_env Live) = [9]"
    "ee_simulator (live_env Live) = simulator_new" "is_watched (ee_registry (live_env Live)) [9]"
    "es_breakers live_state = breaker_new" "au_owner (to_update live_account) = [9]" "ra_owner live_account = [9]"
    "allows breaker_new p k = Allowed" for p k
    by (simp_all add: live_env_def is_watched_def watch_def registry_new_def live_state_def engine_init_def
        to_update_def live_account_def allows_def breaker_new_def)
  have h: "\<exists>st'. handle_candidate (live_env Live) n live_candidate st = Inr (Some ?b, submit_live (live_env Live) n rc ?b st') \<and>
      es_breakers st' = breaker_new" if "es_breakers st = breaker_new" for st
    by (rule exI [of _ "st\<lparr>es_dashboard := (es_dashboard st)
                 \<lparr>breach_candidates_detected := breach_candidates_detected (es_dashboard st) + 1\<rparr>\<rparr>"])
       (use that in \<open>simp add: handle_candidate_def Let_def env sr sim\<close>)
  have "\<exists>st. engine_step (live_env Live) live_account n live_state = Inr (Some ?b, submit_live (live_env Live) n rc ?b st) \<and>
      es_breakers st = breaker_new"
    unfolding engine_step_def Let_def by (simp add: env a h)
  then have "\<exists>st. engine_run (live_env Live) [AccountEvent live_account n] live_state =
      Inr ([?b], submit_live (live_env Live) n rc ?b st) \<and> es_breakers st = breaker_new" by auto
  then show thesis by (rule that [OF rc(2,1)])
qed

section \<open>Properties of a run\<close>

lemma reach_vetted:
  assumes "engine_reach env st0 evs bs st"
  shows "(bs \<noteq> [] \<longrightarrow> ee_mode env = Live) \<and>
     liquidations_attempted (es_dashboard st) = liquidations_attempted (es_dashboard st0) + of_nat (length bs) \<and>
     (\<forall>b \<in> set bs. vetted env b \<and> versioned_tx b = bundle_tx env 245000 \<and> alt_keys b = [] \<and>
        (\<exists>raw n. AccountEvent raw n \<in> set evs \<and> ra_owner raw = kamino_pid env \<and>
           position_id (candidate (routed (bundle_sim b))) = ra_pubkey raw))"
  using assms
proof (induction rule: engine_reach.induct)
  case (reach_quiet evs bs st raw n st')
  then show ?case using engine_step_quiet [OF reach_quiet(2)] by auto
next
  case (reach_submit evs bs st raw n b st')
  then show ?case using engine_step_submits [OF reach_submit(2)] by auto
qed auto

text \<open>
  C1: The event loop never panics, in observe mode it submits nothing, and every bundle it
  submits in live mode went through every check: it repays a positive amount of a position whose
  health factor is below one and whose account, owned by the Kamino program, is among the events,
  within the close factor and the assumed flash depth, borrows from the source the router names
  for that amount, and is expected to earn the simulator's minimum and not less than the
  configured one.  The dashboard counts exactly the submissions.
\<close>

theorem submissions_are_vetted:
  "\<exists>bs st'. engine_run env evs st = Inr (bs, st') \<and> (ee_mode env = Observe \<longrightarrow> bs = []) \<and>
     liquidations_attempted (es_dashboard st') = liquidations_attempted (es_dashboard st) + of_nat (length bs) \<and>
     (\<forall>b \<in> set bs. vetted env b \<and>
        (\<exists>raw n. AccountEvent raw n \<in> set evs \<and> ra_owner raw = kamino_pid env \<and>
           position_id (candidate (routed (bundle_sim b))) = ra_pubkey raw))"
proof -
  obtain bs st' where r: "engine_run env evs st = Inr (bs, st')" using engine_run_total by blast
  with reach_vetted [OF engine_run_reach [OF r]] show ?thesis by auto
qed

theorem submissions_are_vetted_witness:
  "(\<exists>b st'. engine_run (live_env Live) [AccountEvent live_account reverting] live_state = Inr ([b], st') \<and>
      vetted (live_env Live) b \<and> liquidations_attempted (es_dashboard st') = 1) \<and>
   (\<exists>st'. engine_run (live_env Observe) [AccountEvent live_account reverting] live_state = Inr ([], st'))"
proof
  have "liquidations_attempted (es_dashboard live_state) = 0"
    by (simp add: live_state_def engine_init_def dashboard_new_def)
  then show "\<exists>b st'. engine_run (live_env Live) [AccountEvent live_account reverting] live_state = Inr ([b], st') \<and>
      vetted (live_env Live) b \<and> liquidations_attempted (es_dashboard st') = 1"
    using submissions_are_vetted [of "live_env Live" "[AccountEvent live_account reverting]" live_state]
    by (auto intro: live_submission [of reverting])
  show "\<exists>st'. engine_run (live_env Observe) [AccountEvent live_account reverting] live_state = Inr ([], st')"
    using submissions_are_vetted [of "live_env Observe" "[AccountEvent live_account reverting]" live_state]
    by (auto simp: live_env_def)
qed

text \<open>
  The bytes of a transaction with the given instructions, without lookup tables and signed by one
  key, if they can be compiled, signed and serialised within the size limit of the network.
\<close>

definition signed_bytes ::
  "('ix, 'msg, 'hash, 'signer, 'tx, 'ce, 'se, 'be) engine_sdk \<Rightarrow> 'signer \<Rightarrow> 'ix list \<Rightarrow> bytes option" where
  "signed_bytes sdk key ixs =
     (case compile_v0 sdk (signer_pubkey sdk key) ixs [] (hash_default sdk) of
        Inl _ \<Rightarrow> None
      | Inr msg \<Rightarrow> (case sign_tx sdk msg [key] of
          Inl _ \<Rightarrow> None
        | Inr tx \<Rightarrow> (case serialize_tx sdk tx of
            Inl _ \<Rightarrow> None
          | Inr bs \<Rightarrow> if length bs \<le> 1232 then Some bs else None)))"

lemma bundle_tx_bytes:
  "bundle_tx env cu =
     (case signed_bytes (ee_sdk env) (keypair env)
        [compute_unit_limit_ix (ee_sdk env) cu,
         transfer_ix (ee_sdk env) (signer_pubkey (ee_sdk env) (keypair env)) (signer_pubkey (ee_sdk env) (keypair env)) 0] of
        Some bs \<Rightarrow> bs | None \<Rightarrow> replicate 64 0)"
  by (auto simp: bundle_tx_def signed_bytes_def assemble_def with_compute_budget_def to_core_bundle_bytes_def
      map_error_def MAX_TX_BYTES_def tx_sdk.truncate_def Let_def split: sum.split)

text \<open>
  C21: Every bundle of a run carries the same transaction and no lookup table.  When the SDK can
  assemble it, it is the transaction whose only instructions are a compute limit of 245000 and a
  transfer of nothing from the payer to itself, on the all-zero block hash; otherwise it is 64 zero
  bytes, which are submitted all the same.  No account, amount or instruction of the
  liquidation reaches the wire.
\<close>

theorem every_bundle_is_the_same_transaction:
  "\<exists>bs st'. engine_run env evs st = Inr (bs, st') \<and>
     (\<forall>b \<in> set bs. alt_keys b = [] \<and>
        versioned_tx b =
          (let sdk = ee_sdk env; payer = signer_pubkey sdk (keypair env)
           in case signed_bytes sdk (keypair env) [compute_unit_limit_ix sdk 245000, transfer_ix sdk payer payer 0] of
                Some bytes \<Rightarrow> bytes
              | None \<Rightarrow> replicate 64 0))"
proof -
  obtain bs st' where r: "engine_run env evs st = Inr (bs, st')" using engine_run_total by blast
  with reach_vetted [OF engine_run_reach [OF r]] show ?thesis unfolding Let_def bundle_tx_bytes by auto
qed

text \<open>The bytes that the live engine of the example submits: a compute limit, whose low byte is 8, and a transfer of 0.\<close>

theorem every_bundle_is_the_same_transaction_witness:
  "\<exists>b st'. engine_run (live_env Live) [AccountEvent live_account reverting] live_state = Inr ([b], st') \<and>
     versioned_tx b = [8, 0] \<and> alt_keys b = []"
proof -
  obtain b st' where r: "engine_run (live_env Live) [AccountEvent live_account reverting] live_state = Inr ([b], st')"
    using live_submission [of reverting] by metis
  have sdk: "ee_sdk (live_env Live) = live_sdk" by (simp add: live_env_def)
  from every_bundle_is_the_same_transaction [of "live_env Live" "[AccountEvent live_account reverting]" live_state] r
  show ?thesis by (simp add: sdk live_sdk_def signed_bytes_def)
qed

text \<open>
  C3: Started by \<open>main\<close>, whatever the configuration, the mode, the accounts and the network, the
  daemon never submits anything: the flash router it builds is never fed a reserve, so sizing
  finds no source for any candidate.
\<close>

theorem main_never_submits:
  "\<exists>code. main ch kl sdk enc to_json read_file from_toml json_bytes from_bytes fresh fs evs c = Inr (code, [])"
proof -
  have none: "bs = []" if "engine_run (main_env ch kl sdk enc to_json key m cfg) evs st = Inr (bs, st')" for key m cfg st bs st'
    using reach_vetted [OF engine_run_reach [OF that]]
    by (cases bs) (auto simp: vetted_def Let_def main_env_def route_def flash_options_def router_new_def hm_new_def
        map_filter_simps)
  have "\<exists>st'. engine_run (main_env ch kl sdk enc to_json key m cfg) evs st = Inr ([], st')" for key m cfg st
    using engine_run_total none by blast
  then have run: "\<exists>code. and_then (engine_run (main_env ch kl sdk enc to_json key m cfg) evs st) (\<lambda>(bs, _). Inr (ExitSuccess, bs)) =
      Inr (code, [])" for key m cfg st
    by (metis and_then_simps(2) case_prod_conv)
  show ?thesis
  proof (cases "load read_file from_toml (cli_config c)")
    case (Inr cfg)
    then show ?thesis
      using run by (cases "geyser_connect True (geyser_url (cfg_geyser cfg))") (simp_all add: main_def Let_def)
  qed (simp add: main_def)
qed

text \<open>The breaker state the loop maintains: only keys with a tracked reserve are ever marked.\<close>

definition default_key_untouched :: "breaker_state \<Rightarrow> bool" where
  "default_key_untouched s \<longleftrightarrow> \<not> drawdown_tripped s \<and> \<not> treasury_below_floor s \<and>
     protocols_halted_for_sync_lag s = hm_new \<and>
     (\<forall>k. flash_reserve k = Pubkey_default \<longrightarrow> \<not> flag_of (routes_taken_out_of_rotation s) k)"

lemma default_key_untouched_ops:
  assumes "default_key_untouched s" and "flash_reserve k \<noteq> Pubkey_default"
  shows "default_key_untouched (record_success s k)" "default_key_untouched (record_revert s k limit)"
  using assms by (auto simp: default_key_untouched_def record_success_def record_revert_def Let_def)

lemma outcome_key_tracked:
  assumes "router_wf (ee_router env)" "hm_get (reserves (ee_router env)) Pubkey_default = None"
    and "size_and_route (route (ee_router env)) c (ee_risk env) d = Inr (Some rc)"
  shows "flash_reserve (outcome_key rc) \<noteq> Pubkey_default"
  using assms(3)
proof (rule size_and_route_SomeE)
  assume "route (ee_router env) (debt_mint c) (repay_amount rc) = Some (flash_source rc)"
  then obtain info where "hm_get (reserves (ee_router env)) (reserve (flash_source rc)) = Some info"
    by (rule route_SomeE [OF assms(1)])
  with assms(2) show ?thesis by (auto simp: outcome_key_def)
qed

lemma engine_step_untouched:
  assumes "router_wf (ee_router env)" "hm_get (reserves (ee_router env)) Pubkey_default = None"
    and "engine_step env raw n st = Inr (b, st')" "default_key_untouched (es_breakers st)"
  shows "default_key_untouched (es_breakers st')"
  using assms(3)
proof (cases rule: engine_step_cases)
  case (candidate c a st2)
  from candidate(3) show ?thesis
  proof (cases rule: handle_candidate_cases)
    case (submitted rc x)
    let ?st = "st2\<lparr>es_dashboard := (es_dashboard st2)
                 \<lparr>breach_candidates_detected := breach_candidates_detected (es_dashboard st2) + 1\<rparr>\<rparr>"
    have "default_key_untouched (es_breakers ?st)" using assms(4) candidate(4) by simp
    then show ?thesis
      using default_key_untouched_ops outcome_key_tracked [OF assms(1,2) submitted(3)]
      unfolding submitted(7) by (cases rule: submit_live_breakers [of env n rc x ?st]) simp_all
  qed (use assms(4) candidate(4) in simp)
qed (use assms(4) in simp)

text \<open>
  C2: The consecutive-revert breaker never stops the engine.  Reverts are recorded under the flash
  reserve that was used, but the check before sizing asks for the all-zero key: as long as the
  router tracks no reserve with that key, every candidate passes the breakers in every state a
  run from start-up can reach, however many submissions reverted.
\<close>

theorem revert_breaker_never_halts:
  assumes "router_wf (ee_router env)" and "hm_get (reserves (ee_router env)) Pubkey_default = None"
    and "es_breakers st = breaker_new" and "engine_run env evs st = Inr (bs, st')"
  shows "allows (es_breakers st') (bc_protocol c) (check_key c) = Allowed"
proof -
  have "default_key_untouched (es_breakers st')"
    using engine_run_reach [OF assms(4)]
  proof (induction rule: engine_reach.induct)
    case reach_start
    then show ?case by (simp add: assms(3) default_key_untouched_def breaker_new_def)
  qed (use engine_step_untouched [OF assms(1,2)] in \<open>auto\<close>)
  then show ?thesis by (simp add: default_key_untouched_def allows_def check_key_def)
qed

text \<open>The witness reverts once at a limit of one: the route that was used is out, the check still passes.\<close>

theorem revert_breaker_never_halts_witness:
  "\<exists>b st'. engine_run (live_env Live) [AccountEvent live_account reverting] live_state = Inr ([b], st') \<and>
     allows (es_breakers st') Kamino (outcome_key (routed (bundle_sim b))) = Halted ConsecutiveRevert \<and>
     allows (es_breakers st') Kamino (check_key live_candidate) = Allowed"
proof (rule live_submission [of reverting])
  fix rc
  assume rc: "candidate rc = live_candidate" "reserve (flash_source rc) = replicate 32 1"
    and "\<exists>st. engine_run (live_env Live) [AccountEvent live_account reverting] live_state =
       Inr ([make_bundle (live_env Live) (simulate simulator_new rc)],
         submit_live (live_env Live) reverting rc (make_bundle (live_env Live) (simulate simulator_new rc)) st) \<and>
       es_breakers st = breaker_new"
  then obtain st where r: "engine_run (live_env Live) [AccountEvent live_account reverting] live_state =
       Inr ([make_bundle (live_env Live) (simulate simulator_new rc)],
         submit_live (live_env Live) reverting rc (make_bundle (live_env Live) (simulate simulator_new rc)) st)"
    and br: "es_breakers st = breaker_new" by blast
  let ?st' = "submit_live (live_env Live) reverting rc (make_bundle (live_env Live) (simulate simulator_new rc)) st"
  have out: "submit (net_staked_first reverting) (engine_submitter (live_env Live) reverting) b =
      Reverted (ProgramError ''transaction failed on-chain'')" for b
    by (simp add: submit_def engine_submitter_def submitter_new_def should_send_jito_def staked_quic_path_def jito_path_def
        reverting_def exchange_def client_timeout_def select_of_def timeout_of_def to_submit_outcome_def http_outcome_def)
  have limit: "consecutive_revert_limit (ee_risk (live_env Live)) = 1" by (simp add: live_env_def)
  have "es_breakers ?st' = record_revert breaker_new (outcome_key rc) 1"
    by (simp add: submit_live_def Let_def out limit note_outcome_def log_outcome_def br split: sum.split)
  then have halted: "allows (es_breakers ?st') Kamino (outcome_key rc) = Halted ConsecutiveRevert"
    by (simp add: record_revert_def breaker_new_def allows_def)
  have wf: "router_wf (ee_router (live_env Live))" "hm_get (reserves (ee_router (live_env Live))) Pubkey_default = None"
    "es_breakers live_state = breaker_new"
    by (simp add: live_env_def router_wf_ops)
       (simp_all add: live_env_def add_reserve_def router_new_def Pubkey_default_def live_state_def engine_init_def)
  from revert_breaker_never_halts [OF wf r, of live_candidate] halted r show ?thesis
    by (auto simp: make_bundle_def live_candidate_def)
qed

end
