(* ===== verification/Dashboard.thy ===== *)
theory Dashboard
  imports Engine
begin

text \<open>
  The dashboard server of \<open>crates/gyrfalcon-bin/src/main.rs\<close>: its routes, its two JSON handlers and
  the loop that streams snapshots over a web socket.  The web framework, the sockets and
  \<open>serde_json\<close> are parameters; the shared state is what the engine's loop writes.  The lemmas say
  what a client can ever see.
\<close>

section \<open>Handlers\<close>

definition dashboard_default :: dashboard_state where
  "dashboard_default =
     \<lparr> connected = False, ds_mode = [], current_slot = 0, tracked_positions = 0, kamino_positions = 0,
       breach_candidates_detected = 0, liquidations_attempted = 0, liquidations_landed = 0,
       liquidations_reverted = 0, total_net_profit_usd = Fin 0, sync_lag_kamino = 0,
       circuit_breaker_active = False, recent_liquidations = [] \<rparr>"

text \<open>\<open>state.read().map(|s| s.clone()).unwrap_or_default()\<close>; a poisoned lock is \<open>None\<close>.\<close>

type_synonym shared_dashboard = "dashboard_state option"

definition read_or_default :: "shared_dashboard \<Rightarrow> dashboard_state" where
  "read_or_default lock = (case lock of Some d \<Rightarrow> d | None \<Rightarrow> dashboard_default)"

datatype response = Html string | JsonBody dashboard_state | WebSocketUpgrade

definition index_handler :: "string \<Rightarrow> response" where
  "index_handler page = Html page"

definition metrics_handler :: "shared_dashboard \<Rightarrow> response" where
  "metrics_handler lock = JsonBody (read_or_default lock)"

definition state_handler :: "shared_dashboard \<Rightarrow> response" where
  "state_handler lock = JsonBody (read_or_default lock)"

definition ws_handler :: response where
  "ws_handler = WebSocketUpgrade"

text \<open>
  The route table for \<open>GET\<close> requests, with no answer of its own for other paths, and the server,
  which serves only if the port could be bound.
\<close>

definition dashboard_app :: "string \<Rightarrow> shared_dashboard \<Rightarrow> string \<Rightarrow> response option" where
  "dashboard_app page lock path =
     (if path = ''/'' then Some (index_handler page)
      else if path = ''/metrics'' then Some (metrics_handler lock)
      else if path = ''/api/state'' then Some (state_handler lock)
      else if path = ''/ws'' then Some ws_handler
      else None)"

definition start_dashboard_server :: "bool \<Rightarrow> string \<Rightarrow> shared_dashboard \<Rightarrow> string \<Rightarrow> response option" where
  "start_dashboard_server bound page lock path = (if bound then dashboard_app page lock path else None)"

text \<open>
  The loop of \<open>handle_socket\<close> over its ticks: what the lock held at each, and whether the client
  took the message.  The result is the messages that were taken.
\<close>

fun handle_socket :: "(dashboard_state \<Rightarrow> 'e + string) \<Rightarrow> (shared_dashboard \<times> bool) list \<Rightarrow> string list" where
  "handle_socket to_json [] = []"
| "handle_socket to_json ((lock, taken) # ticks) =
     (case to_json (read_or_default lock) of
        Inr json_str \<Rightarrow> if taken then json_str # handle_socket to_json ticks else []
      | Inl _ \<Rightarrow> handle_socket to_json ticks)"

text \<open>A client receives the snapshots of the ticks before the first refused message, in order.\<close>

lemma socket_messages:
  "handle_socket to_json ticks =
     List.map_filter (\<lambda>(lock, _). case to_json (read_or_default lock) of Inr s \<Rightarrow> Some s | Inl _ \<Rightarrow> None)
       (takeWhile (\<lambda>(lock, taken). taken \<or> \<not> is_ok (to_json (read_or_default lock))) ticks)"
  by (induction to_json ticks rule: handle_socket.induct) (auto simp: map_filter_simps split: sum.splits)

section \<open>What the engine writes\<close>

text \<open>The parts of the state that no code writes after start-up.\<close>

definition dashboard_fixed :: "dashboard_state \<Rightarrow> bool \<times> bool \<times> liquidation_summary list \<times> string" where
  "dashboard_fixed d = (connected d, circuit_breaker_active d, recent_liquidations d, ds_mode d)"

definition outcome_counts :: "dashboard_state \<Rightarrow> u64 \<times> u64" where
  "outcome_counts d = (liquidations_landed d, liquidations_reverted d)"

text \<open>How one turn changes them: only a submission moves a counter, and at most one.\<close>

definition dashboard_moves :: "bool \<Rightarrow> dashboard_state \<Rightarrow> dashboard_state \<Rightarrow> bool" where
  "dashboard_moves submitted d d' \<longleftrightarrow>
     dashboard_fixed d' = dashboard_fixed d \<and>
     (outcome_counts d' = outcome_counts d \<or>
      submitted \<and> (outcome_counts d' = (liquidations_landed d + 1, liquidations_reverted d) \<or>
                   outcome_counts d' = (liquidations_landed d, liquidations_reverted d + 1)))"

lemmas dashboard_defs = dashboard_moves_def dashboard_fixed_def outcome_counts_def

lemma submit_live_dashboard: "dashboard_moves True (es_dashboard st) (es_dashboard (submit_live env n rc b st))"
  by (auto simp: submit_live_def note_outcome_def log_outcome_def dashboard_defs Let_def
      split: submit_outcome.split sum.split)

lemma dashboard_moves_frame:
  "dashboard_moves s (d\<lparr>breach_candidates_detected := x\<rparr>) d' \<longleftrightarrow> dashboard_moves s d d'"
  "dashboard_moves s (observe_slot slot a d) d' \<longleftrightarrow> dashboard_moves s d d'"
  "dashboard_moves s d (d\<lparr>breach_candidates_detected := x\<rparr>)"
  "dashboard_moves s d (observe_slot slot a d)"
  by (simp_all add: dashboard_defs observe_slot_def)

lemma handle_candidate_dashboard:
  assumes "handle_candidate env n c st = Inr (b, st')"
  shows "dashboard_moves (b \<noteq> None) (es_dashboard st) (es_dashboard st')"
proof -
  define st1 where "st1 = st\<lparr>es_dashboard := (es_dashboard st)
      \<lparr>breach_candidates_detected := breach_candidates_detected (es_dashboard st) + 1\<rparr>\<rparr>"
  have "b = None \<and> st' = st1 \<or> (\<exists>rc x. b = Some x \<and> st' = submit_live env n rc x st1)"
    using assms by (auto simp: handle_candidate_def st1_def [symmetric] Let_def and_then_Inr_iff
        split: if_splits option.splits)
  moreover have "dashboard_moves True (es_dashboard st) (es_dashboard (submit_live env n rc x st1))" for rc x
    using submit_live_dashboard [of st1 env n rc x] by (simp add: st1_def dashboard_moves_frame)
  ultimately show ?thesis by (auto simp: st1_def dashboard_moves_frame)
qed

lemma engine_step_dashboard:
  assumes "engine_step env raw n st = Inr (b, st')"
  shows "dashboard_moves (b \<noteq> None) (es_dashboard st) (es_dashboard st')"
  using assms
  by (auto simp: engine_step_def Let_def dashboard_moves_frame dest!: handle_candidate_dashboard
      split: if_splits option.splits prod.splits)

lemma reach_dashboard:
  assumes "engine_reach env st0 evs bs st" and "es_dashboard st0 = dashboard_new m"
  shows "dashboard_fixed (es_dashboard st) = dashboard_fixed (dashboard_new m) \<and>
     (\<exists>l r. l + r \<le> length bs \<and> outcome_counts (es_dashboard st) = (of_nat l, of_nat r))"
  using assms(1)
proof (induction rule: engine_reach.induct)
  case reach_start
  show ?case
    by (rule conjI, simp add: assms(2), rule exI [of _ 0], rule exI [of _ 0])
       (simp add: assms(2) outcome_counts_def dashboard_new_def)
next
  case (reach_quiet evs bs st raw n st')
  then show ?case using engine_step_dashboard [OF reach_quiet(2)] by (auto simp: dashboard_moves_def)
next
  case (reach_submit evs bs st raw n b st')
  then obtain l r where lr: "l + r \<le> length bs" "outcome_counts (es_dashboard st) = (of_nat l, of_nat r)" by blast
  have "\<exists>l' r'. l' + r' \<le> length (bs @ [b]) \<and> outcome_counts (es_dashboard st') = (of_nat l', of_nat r')"
  proof -
    have "outcome_counts (es_dashboard st') \<in> {(of_nat l, of_nat r), (of_nat (l + 1), of_nat r), (of_nat l, of_nat (r + 1))}"
      using engine_step_dashboard [OF reach_submit(2)] lr(2)
      by (auto simp: dashboard_moves_def outcome_counts_def add.commute)
    then obtain l' r' where "(l', r') \<in> {(l, r), (l + 1, r), (l, r + 1)}"
      "outcome_counts (es_dashboard st') = (of_nat l', of_nat r')" by blast
    moreover from this(1) lr(1) have "l' + r' \<le> length (bs @ [b])" by auto
    ultimately show ?thesis by blast
  qed
  then show ?case using engine_step_dashboard [OF reach_submit(2)] reach_submit.IH by (auto simp: dashboard_moves_def)
qed auto

text \<open>
  C20: The dashboard's books balance, and parts of it never change.  In every state the engine
  reaches from start-up with fewer than \<open>2 ^ 64\<close> submissions, the landed and the reverted liquidations together
  are at most the attempted ones, which are exactly the submissions.  But the indicator of an
  active circuit breaker, the connection flag and the list of recent liquidations keep their
  initial values for good, and the mode shown is the one at start-up: no code writes them.
\<close>

theorem dashboard_books_balance:
  assumes "engine_run env evs st0 = Inr (bs, st)" and "es_dashboard st0 = dashboard_new m" and "length bs < 2 ^ 64"
  shows "unat (liquidations_attempted (es_dashboard st)) = length bs \<and>
     unat (liquidations_landed (es_dashboard st)) + unat (liquidations_reverted (es_dashboard st)) \<le> length bs \<and>
     \<not> connected (es_dashboard st) \<and> \<not> circuit_breaker_active (es_dashboard st) \<and>
     recent_liquidations (es_dashboard st) = [] \<and> ds_mode (es_dashboard st) = submit_mode_display m"
proof -
  have r: "engine_reach env st0 evs bs st" by (rule engine_run_reach [OF assms(1)])
  have "liquidations_attempted (es_dashboard st) = of_nat (length bs)"
    using reach_vetted [OF r] by (simp add: assms(2) dashboard_new_def)
  then have "unat (liquidations_attempted (es_dashboard st)) = length bs"
    using assms(3) by (simp add: unat_of_nat)
  moreover from reach_dashboard [OF r assms(2)] obtain l k where "l + k \<le> length bs"
    "outcome_counts (es_dashboard st) = (of_nat l, of_nat k)" "dashboard_fixed (es_dashboard st) = dashboard_fixed (dashboard_new m)"
    by blast
  moreover from this(1) assms(3) have "l < 2 ^ 64" "k < 2 ^ 64" by simp_all
  ultimately show ?thesis
    by (simp add: outcome_counts_def dashboard_fixed_def dashboard_new_def unat_of_nat)
qed

theorem dashboard_books_balance_witness:
  "\<exists>b st. engine_run (live_env Live) [AccountEvent live_account reverting] live_state = Inr ([b], st) \<and>
     unat (liquidations_attempted (es_dashboard st)) = 1 \<and> \<not> circuit_breaker_active (es_dashboard st)"
proof -
  have d: "es_dashboard live_state = dashboard_new Live" by (simp add: live_state_def engine_init_def)
  obtain b st where r: "engine_run (live_env Live) [AccountEvent live_account reverting] live_state = Inr ([b], st)"
    using live_submission [of reverting] by blast
  from dashboard_books_balance [OF r d] r show ?thesis by simp
qed

end
