(* ===== verification/SimTools.thy ===== *)
theory SimTools
  imports Sim KaminoHealth
begin

text \<open>
  The command-line tools of \<open>crates/sim\<close>: the replay harness (\<open>bin/replay.rs\<close>), which composes
  the fixture loader, the Kamino adapter and the flash-source router; the fixture exporter
  (\<open>bin/export_fixtures.rs\<close>); and the compute-unit profiler (\<open>cu_profile.rs\<close>), whose virtual
  machine is a parameter.  \<open>serde_json\<close>, base64 and the formatters are parameters too.
\<close>

section \<open>The replay tool\<close>

datatype out_line = Out string | Err string

text \<open>The router is filled from all the events before the first of them is replayed.\<close>

definition populate_router :: "historical_event list \<Rightarrow> multi_source_router" where
  "populate_router events =
     foldl (\<lambda>r e. add_reserve r (best_flash_reserve e) KaminoProvider (ev_debt_mint e)
              (best_flash_reserve_available_liquidity e) (Some 0)) router_new events"

fun replay_loop ::
  "(string \<Rightarrow> bytes option) \<Rightarrow> klend \<Rightarrow> multi_source_router \<Rightarrow> historical_event list \<Rightarrow> kamino_adapter
     \<Rightarrow> event_result list \<times> kamino_adapter" where
  "replay_loop b64 kl r [] ka = ([], ka)"
| "replay_loop b64 kl r (e # es) ka =
     (let (res, ka') = (case ev_protocol e of Kamino \<Rightarrow> replay_event b64 (on_account_update kl) (route r) e ka);
          (rest, ka'') = replay_loop b64 kl r es ka'
      in (res # rest, ka''))"

record 'e replay_formatters =
  rf_nat :: "nat \<Rightarrow> string"
  rf_pubkey :: "pubkey \<Rightarrow> string"
  rf_error :: "'e fixture_error \<Rightarrow> string"

definition replay_failures :: "(pubkey \<Rightarrow> string) \<Rightarrow> event_result list \<Rightarrow> out_line list" where
  "replay_failures show_key rs =
     List.map_filter (\<lambda>r.
       if \<not> detected r then Some (Out (''  MISSED detection: position '' @ show_key (er_position_id r)))
       else if routed_ok r \<noteq> Some True then Some (Out (''  BAD routing: position '' @ show_key (er_position_id r)))
       else None) rs"

definition replay_report :: "'e replay_formatters \<Rightarrow> event_result list \<Rightarrow> out_line list \<times> exit_code" where
  "replay_report f rs =
     (let headline = Out (''replayed '' @ rf_nat f (length rs) @ '' events: '' @ rf_nat f (detected_count rs) @
            '' detected, '' @ rf_nat f (length (filter (\<lambda>r. routed_ok r = Some True) rs)) @
            '' routed with sufficient liquidity'')
      in if all_detected rs \<and> all_routed_with_sufficient_liquidity rs
         then (headline # replay_failures (rf_pubkey f) rs @
                 [Out (''PASS: all events detected and routed correctly (feasibility not yet checked '' @
                    [CHR 0xE2, CHR 0x80, CHR 0x94] @ '' see module docs).'')], ExitSuccess)
         else (headline # replay_failures (rf_pubkey f) rs @ [Out ''FAIL: see per-event failures above.''],
                 ExitFailure))"

definition replay_main ::
  "'e replay_formatters \<Rightarrow> (string \<Rightarrow> 'e + historical_event) \<Rightarrow> (string \<Rightarrow> bytes option) \<Rightarrow> klend
     \<Rightarrow> string \<Rightarrow> file_system \<Rightarrow> out_line list \<times> exit_code" where
  "replay_main f from_json b64 kl path fs =
     (case load_events from_json path fs of
        Inl e \<Rightarrow> ([Err (''failed to load '' @ path @ '': '' @ rf_error f e)], ExitFailure)
      | Inr events \<Rightarrow>
          if events = [] then
            ([Err (''no events loaded from '' @ path @ '' '' @ [CHR 0xE2, CHR 0x80, CHR 0x94] @
               '' this file is generated by a one-time historical export step (see tests/fixtures/README.md), '' @
               ''not checked in. Nothing to replay.'')], ExitFailure)
          else
            let r = populate_router events;
                (results, _) = replay_loop b64 kl r events adapter_new
            in replay_report f results)"

text \<open>\<open>--events\<close>, with the default that \<open>clap\<close> is given.\<close>

definition default_events_path :: string where
  "default_events_path = ''tests/fixtures/liquidations.jsonl''"

section \<open>The exporter\<close>

datatype 'e export_error = ExportIo io_error | ExportJson 'e

definition kamino_event :: historical_event where
  "kamino_event = \<lparr>
     ev_protocol = Kamino,
     ev_position_id = replicate 32 10,
     ev_collateral_mint = replicate 32 1,
     ev_debt_mint = replicate 32 2,
     breach_slot = 290000100,
     health_factor_at_breach_slot = f64_lit (94 / 100),
     obligation_data_base64 = [],
     obligation_owner = replicate 32 11,
     best_flash_reserve = replicate 32 12,
     best_flash_reserve_available_liquidity = 50000000000,
     landed_slot = Some 290000102 \<rparr>"

fun write_events ::
  "(historical_event \<Rightarrow> 'e + string) \<Rightarrow> string \<Rightarrow> historical_event list \<Rightarrow> file_system
     \<Rightarrow> ('e export_error + unit) \<times> file_system" where
  "write_events to_json path [] fs = (Inr (), fs)"
| "write_events to_json path (e # es) fs =
     (case to_json e of
        Inl err \<Rightarrow> (Inl (ExportJson err), fs)
      | Inr line \<Rightarrow>
          (case fs_append fs path (line @ [LF]) of
             Inl err \<Rightarrow> (Inl (ExportIo err), fs)
           | Inr fs' \<Rightarrow> write_events to_json path es fs'))"

text \<open>\<open>File::create\<close> truncates, so a later failure leaves an emptied file behind.\<close>

definition export_main ::
  "(nat \<Rightarrow> string) \<Rightarrow> (historical_event \<Rightarrow> 'e + string) \<Rightarrow> file_system
     \<Rightarrow> ('e export_error + out_line list) \<times> file_system" where
  "export_main fmt_nat to_json fs =
     (let output_path = ''tests/fixtures/liquidations.jsonl''
      in case fs_create_parent fs output_path of
           (Inl err, fs1) \<Rightarrow> (Inl (ExportIo err), fs1)
         | (Inr _, fs1) \<Rightarrow>
             (case fs_write fs1 output_path [] of
                Inl err \<Rightarrow> (Inl (ExportIo err), fs1)
              | Inr fs2 \<Rightarrow>
                  let events = [kamino_event]
                  in case write_events to_json output_path events fs2 of
                       (Inl err, fs3) \<Rightarrow> (Inl err, fs3)
                     | (Inr _, fs3) \<Rightarrow>
                         (Inr [Out (''Successfully exported '' @ fmt_nat (length events) @ '' events to '' @ output_path)],
                          fs3)))"

section \<open>The compute-unit profiler\<close>

text \<open>
  \<open>LiteSVM\<close> as far as the profiler uses it, over a machine state \<open>'s\<close>: instructions, keypairs,
  transactions and errors are opaque, and a failure is
  shown whole or by its \<open>err\<close> field.
\<close>

record ('s, 'ix, 'payer, 'hash, 'tx, 'err) lite_svm =
  svm_new :: 's
  svm_pubkey :: "'payer \<Rightarrow> pubkey"
  svm_airdrop :: "'s \<Rightarrow> pubkey \<Rightarrow> u64 \<Rightarrow> 'err + 's"
  svm_latest_blockhash :: "'s \<Rightarrow> 'hash"
  svm_transaction :: "'payer \<Rightarrow> 'ix list \<Rightarrow> 'hash \<Rightarrow> 'tx"
  svm_send :: "'s \<Rightarrow> 'tx \<Rightarrow> 'err + (u64 \<times> string list)"
  svm_fmt_failure :: "'err \<Rightarrow> string"
  svm_fmt_err_field :: "'err \<Rightarrow> string"

record cu_profile =
  compute_units_consumed :: u64
  cu_logs :: "string list"

datatype profile_error = SimulationFailed string

fun fund_accounts ::
  "('s, 'ix, 'payer, 'hash, 'tx, 'err) lite_svm \<Rightarrow> (pubkey \<times> u64) list \<Rightarrow> 's \<Rightarrow> profile_error + 's" where
  "fund_accounts v [] s = Inr s"
| "fund_accounts v ((key, lamports) # rest) s =
     and_then (map_err (SimulationFailed \<circ> svm_fmt_failure v) (svm_airdrop v s key lamports)) (fund_accounts v rest)"

definition profile_instructions ::
  "('s, 'ix, 'payer, 'hash, 'tx, 'err) lite_svm \<Rightarrow> 'ix list \<Rightarrow> 'payer \<Rightarrow> (pubkey \<times> u64) list
     \<Rightarrow> profile_error + cu_profile" where
  "profile_instructions v instructions payer funded_accounts =
     and_then (map_err (SimulationFailed \<circ> svm_fmt_failure v)
       (svm_airdrop v (svm_new v) (svm_pubkey v payer) 10000000000)) (\<lambda>s1.
     and_then (fund_accounts v funded_accounts s1) (\<lambda>s2.
     and_then (map_err (SimulationFailed \<circ> svm_fmt_err_field v)
       (svm_send v s2 (svm_transaction v payer instructions (svm_latest_blockhash v s2)))) (\<lambda>(cu, ls).
     Inr \<lparr> compute_units_consumed = cu, cu_logs = ls \<rparr>)))"

section \<open>What a passing replay shows\<close>

definition raw_bytes :: "(string \<Rightarrow> bytes option) \<Rightarrow> historical_event \<Rightarrow> bytes" where
  "raw_bytes b64 e = (case decode_base64 b64 (obligation_data_base64 e) of Some bs \<Rightarrow> bs | None \<Rightarrow> [])"

definition routed_to_best :: "multi_source_router \<Rightarrow> historical_event \<Rightarrow> bool" where
  "routed_to_best r e \<longleftrightarrow>
     (\<exists>s. route r (ev_debt_mint e) (best_flash_reserve_available_liquidity e) = Some s \<and> reserve s = best_flash_reserve e)"

lemma replay_event_fallback:
  assumes "raw_bytes b64 e = []"
  shows "replay_event b64 up (route r) e h =
    (let found = f64_lt (health_factor_at_breach_slot e) (Fin 1)
     in (\<lparr> er_position_id = ev_position_id e, detected = found,
           routed_ok = (if found then Some (routed_to_best r e) else None), feasibility_checked = False \<rparr>, h))"
  using assms by (auto simp: replay_event_def raw_bytes_def routed_to_best_def Let_def split: option.splits)

text \<open>An adapter that knows no lending market produces no candidate, and the tool's adapter knows none.\<close>

lemma no_market_no_candidate:
  "ka_lending_markets ka = hm_new \<Longrightarrow> fst (on_account_update kl ka u) = None"
  by (auto simp: on_account_update_def handle_obligation_def Let_def hm_new_def hm_get_def split: option.splits)

lemma raw_event_missed:
  assumes "ka_lending_markets ka = hm_new" and "raw_bytes b64 e \<noteq> []"
  shows "\<not> detected (fst (replay_event b64 (on_account_update kl) rt e ka))"
  using assms no_market_no_candidate [OF assms(1)]
  by (auto simp: replay_event_def raw_bytes_def Let_def split_def split: option.splits)

lemma replay_loop_passes_iff:
  assumes "ka_lending_markets ka = hm_new"
  shows "list_all (\<lambda>x. detected x \<and> routed_ok x = Some True) (fst (replay_loop b64 kl r es ka)) \<longleftrightarrow>
    (\<forall>e \<in> set es. raw_bytes b64 e = [] \<and> f64_lt (health_factor_at_breach_slot e) (Fin 1) \<and> routed_to_best r e)"
  using assms
proof (induction es)
  case (Cons e es)
  have p: "ev_protocol e = Kamino" by (cases "ev_protocol e")
  show ?case
  proof (cases "raw_bytes b64 e = []")
    case True
    with Cons show ?thesis by (auto simp: p replay_event_fallback Let_def split_def)
  next
    case False
    with raw_event_missed [OF Cons.prems False] show ?thesis by (auto simp: p Let_def split_def)
  qed
qed simp

lemma length_replay_loop: "length (fst (replay_loop b64 kl r es ka)) = length es"
  by (induction es arbitrary: ka) (simp_all add: Let_def split_def)

text \<open>The tool's loop is the library's \<open>replay_all\<close> on the Kamino adapter.\<close>

lemma replay_loop_eq_replay_all:
  "replay_loop b64 kl r es ka = replay_all b64 (on_account_update kl) (route r) es ka"
proof (induction es arbitrary: ka)
  case (Cons e es)
  then show ?case by (cases "ev_protocol e") (simp add: Let_def split_def)
qed simp

lemma replay_loop_ok: "adapter_inv ka \<Longrightarrow> adapter_inv (snd (replay_loop b64 kl r es ka))"
  unfolding replay_loop_eq_replay_all by (rule health_adapter.replay_all_ok [OF ka.health_adapter_axioms])

lemma replay_report_Success_iff:
  "snd (replay_report f rs) = ExitSuccess \<longleftrightarrow> rs \<noteq> [] \<and> list_all (\<lambda>x. detected x \<and> routed_ok x = Some True) rs"
  by (auto simp: replay_report_def Let_def all_detected_def all_routed_with_sufficient_liquidity_def list_all_iff)

lemma replay_main_Success_iff:
  "snd (replay_main f from_json b64 kl path fs) = ExitSuccess \<longleftrightarrow>
     (\<exists>events. load_events from_json path fs = Inr events \<and> events \<noteq> [] \<and>
        (\<forall>e \<in> set events. raw_bytes b64 e = [] \<and> f64_lt (health_factor_at_breach_slot e) (Fin 1) \<and>
           routed_to_best (populate_router events) e))"
proof (cases "load_events from_json path fs")
  case (Inr events)
  let ?rs = "fst (replay_loop b64 kl (populate_router events) events adapter_new)"
  have "ka_lending_markets adapter_new = hm_new" by (simp add: adapter_new_def)
  note passes = replay_loop_passes_iff [OF this]
  have "?rs = [] \<longleftrightarrow> events = []" by (metis length_0_conv length_replay_loop)
  then show ?thesis
    unfolding replay_main_def Inr sum.case
    by (auto simp: Let_def split_def replay_report_Success_iff passes)
qed (simp add: replay_main_def)

text \<open>A source that is deep enough for a larger amount stays the choice for it.\<close>

lemma route_stable:
  assumes "route r mint a = Some s" and "hm_get (reserves r) (reserve s) = Some i" and "router_wf r"
    and "a \<le> a'" and "a' \<le> available_liquidity i"
  shows "route r mint a' = Some s"
proof -
  let ?P = "\<lambda>(_, i, _). a' \<le> available_liquidity i"
  have "List.map_filter (\<lambda>(key, info). map_option (\<lambda>fee. (key, info, fee)) (ri_fee_bps info))
          (filter (\<lambda>(_, i). eligible r mint a' i) xs) =
        filter ?P (List.map_filter (\<lambda>(key, info). map_option (\<lambda>fee. (key, info, fee)) (ri_fee_bps info))
          (filter (\<lambda>(_, i). eligible r mint a i) xs))" for xs :: "(pubkey \<times> reserve_info) list"
    by (induction xs) (use assms(4) in \<open>auto simp: eligible_def map_filter_simps split: option.splits\<close>)
  then have f: "flash_options r mint a' = filter ?P (flash_options r mint a)"
    unfolding flash_options_def by simp
  obtain key info fee where m: "min_by route_less (flash_options r mint a) = Some (key, info, fee)"
    and s: "s = source_of key fee"
    using assms(1) by (auto simp: route_def)
  from min_by_in_set [OF m] set_flash_options [OF assms(3)] assms(2) have "info = i"
    by (auto simp: s source_of_def)
  with min_by_filter [OF route_less_weak_order m, of ?P] assms(5) show ?thesis
    by (simp add: route_def f s)
qed

lemma populate_router_snoc:
  "populate_router (es @ [e]) = add_reserve (populate_router es) (best_flash_reserve e) KaminoProvider (ev_debt_mint e)
     (best_flash_reserve_available_liquidity e) (Some 0)"
  by (simp add: populate_router_def)

lemma populate_router_wf: "router_wf (populate_router es)"
  by (induction es rule: rev_induct) (auto simp: populate_router_snoc router_wf_ops populate_router_def)

lemma populate_router_infos:
  "hm_get (reserves (populate_router es)) key = Some i \<Longrightarrow> provider i = KaminoProvider \<and> ri_fee_bps i = Some 0"
  by (induction es rule: rev_induct)
     (auto simp: populate_router_snoc add_reserve_def populate_router_def router_new_def split: if_splits)

lemma populate_route_deepest:
  assumes "route (populate_router es) mint a = Some s" and "hm_get (reserves (populate_router es)) key = Some j"
    and "ri_mint j = mint" and "a \<le> available_liquidity j"
  shows "\<exists>i. hm_get (reserves (populate_router es)) (reserve s) = Some i \<and> ri_mint i = mint \<and> a \<le> available_liquidity i \<and>
    available_liquidity j \<le> available_liquidity i"
proof (rule route_SomeE [OF populate_router_wf assms(1)])
  fix i
  assume i: "hm_get (reserves (populate_router es)) (reserve s) = Some i" "eligible (populate_router es) mint a i"
    and best: "\<And>key' info' fee'. hm_get (reserves (populate_router es)) key' = Some info' \<Longrightarrow>
       eligible (populate_router es) mint a info' \<Longrightarrow> ri_fee_bps info' = Some fee' \<Longrightarrow>
       \<not> route_less (key', info', fee') (reserve s, i, fee_bps s)"
  have "\<not> route_less (key, j, 0) (reserve s, i, fee_bps s)"
    using assms(3,4) populate_router_infos [OF assms(2)] by (intro best [OF assms(2)]) (auto simp: eligible_def)
  then have "available_liquidity j \<le> available_liquidity i"
    using populate_router_infos [OF i(1)] populate_router_infos [OF assms(2)] by (auto simp: not_route_less)
  with i show ?thesis by (auto simp: eligible_def)
qed

lemma route_own:
  assumes "route (populate_router es) mint a = Some s"
  obtains i where "hm_get (reserves (populate_router es)) (reserve s) = Some i" and "ri_mint i = mint"
    and "a \<le> available_liquidity i"
  using msr.route_serves [OF populate_router_wf assms] by (auto simp: serves_def eligible_def)

lemma routed_same_mint:
  assumes "routed_to_best (populate_router es) e" and "routed_to_best (populate_router es) e'"
    and "ev_debt_mint e = ev_debt_mint e'"
    and "best_flash_reserve_available_liquidity e \<le> best_flash_reserve_available_liquidity e'"
  shows "best_flash_reserve e = best_flash_reserve e'"
proof -
  let ?R = "populate_router es" and ?m = "ev_debt_mint e'"
  obtain s s' where s: "route ?R ?m (best_flash_reserve_available_liquidity e) = Some s" "reserve s = best_flash_reserve e"
    and s': "route ?R ?m (best_flash_reserve_available_liquidity e') = Some s'" "reserve s' = best_flash_reserve e'"
    using assms(1-3) unfolding routed_to_best_def by auto
  obtain j where j: "hm_get (reserves ?R) (reserve s') = Some j" "ri_mint j = ?m"
    "best_flash_reserve_available_liquidity e' \<le> available_liquidity j"
    by (rule route_own [OF s'(1)])
  from populate_route_deepest [OF s(1) j(1,2) order.trans [OF assms(4) j(3)]] obtain i where
    i: "hm_get (reserves ?R) (reserve s) = Some i" "available_liquidity j \<le> available_liquidity i" by blast
  from route_stable [OF s(1) i(1) populate_router_wf assms(4) order.trans [OF j(3) i(2)]] s'(1) s(2) s'(2)
  show ?thesis by simp
qed

text \<open>
  C15: A replay passes exactly when the fixtures load, are not empty, and every event carries no
  decodable obligation data, has a recorded health factor below one and is routed to its recorded
  reserve.  The adapter has no part in the verdict: it is started without any lending market, so
  an event that carries obligation bytes is always missed, and a pass has exercised none of the
  detection code.
\<close>

theorem replay_pass_never_uses_adapter:
  shows "(snd (replay_main f from_json b64 kl path fs) = ExitSuccess \<longleftrightarrow>
     (\<exists>events. load_events from_json path fs = Inr events \<and> events \<noteq> [] \<and>
        (\<forall>e \<in> set events. decode_base64 b64 (obligation_data_base64 e) \<in> {None, Some []} \<and>
           f64_lt (health_factor_at_breach_slot e) (Fin 1) \<and>
           map_option reserve (route (populate_router events) (ev_debt_mint e)
             (best_flash_reserve_available_liquidity e)) = Some (best_flash_reserve e)))) \<and>
   snd (replay_main f from_json b64 kl path fs) = snd (replay_main f from_json b64 kl' path fs)"
proof -
  have raw: "raw_bytes b64 e = [] \<longleftrightarrow> decode_base64 b64 (obligation_data_base64 e) \<in> {None, Some []}" for e
    by (auto simp: raw_bytes_def split: option.splits)
  have best: "routed_to_best r e \<longleftrightarrow> map_option reserve (route r (ev_debt_mint e)
      (best_flash_reserve_available_liquidity e)) = Some (best_flash_reserve e)" for r e
    by (auto simp: routed_to_best_def)
  have "x = ExitSuccess \<longleftrightarrow> y = ExitSuccess \<Longrightarrow> x = y" for x y by (cases x; cases y) auto
  from this [of "snd (replay_main f from_json b64 kl path fs)" "snd (replay_main f from_json b64 kl' path fs)"]
  show ?thesis unfolding replay_main_Success_iff raw best by blast
qed

text \<open>
  A replay passes only if all its events of one debt mint name the same flash reserve.  The
  router is filled from all events at once and has one answer per mint and amount, the deepest
  reserve, so a fixture file in which two liquidations of the same mint used different reserves
  is reported as badly routed although each was recorded with the best reserve of its time.
\<close>

lemma replay_pass_one_reserve_per_mint:
  assumes "snd (replay_main f from_json b64 kl path fs) = ExitSuccess"
    and "load_events from_json path fs = Inr events" and "e \<in> set events" and "e' \<in> set events"
    and "ev_debt_mint e = ev_debt_mint e'"
  shows "best_flash_reserve e = best_flash_reserve e'"
proof -
  have "routed_to_best (populate_router events) e" "routed_to_best (populate_router events) e'"
    using assms(1-4) by (auto simp: replay_main_Success_iff)
  with routed_same_mint [of events e e'] routed_same_mint [of events e' e] assms(5) show ?thesis
    by (metis linear)
qed

lemma kamino_event_below_one: "f64_lt (health_factor_at_breach_slot kamino_event) (Fin 1)"
proof -
  obtain r where "f64_round (94 / 100) = Fin r" "r \<le> 31 / 32"
    by (rule f64_round_between [of "1 / 2" "94 / 100" "31 / 32"])
       (use f64_round_dyadic [of 1 1] f64_round_dyadic [of 31 5] in simp_all)
  then show ?thesis by (simp add: kamino_event_def f64_lit_def)
qed

lemma exported_file:
  assumes "fs_create_parent fs default_events_path = (Inr (), fs1)" and "writable fs1 default_events_path"
    and "stored_as to_json from_json kamino_event line"
  shows "\<exists>out fs'. export_main fmt_nat to_json fs = (Inr out, fs') \<and>
     files fs' = (files fs1)(default_events_path \<mapsto> line @ [LF]) \<and>
     load_events from_json default_events_path fs' = Inr [kamino_event]"
proof -
  have "strip_cr line = line"
    using assms(3) last_in_set [of line] unfolding strip_cr_def stored_as_def by metis
  then have "lines_of (line @ [LF]) = [line]"
    using lines_of_line [of line "[]"] assms(3) by (simp add: stored_as_def)
  with assms show ?thesis
    by (simp add: export_main_def Let_def fs_write_def fs_append_def default_events_path_def stored_as_def load_events_def
        fs_read_def)
qed

text \<open>
  The exporter and the replay tool fit together.  When the directory can be created and the
  file written, and the serializer writes the event as one line that it reads back, the exporter
  succeeds, touches no other file, and replaying what it wrote passes, whatever the decoders of
  the Kamino program and of base64 do.
\<close>

lemma exported_fixture_replays:
  assumes "fs_create_parent fs default_events_path = (Inr (), fs1)" and "writable fs1 default_events_path"
    and "stored_as to_json from_json kamino_event line"
  shows "\<exists>out fs'. export_main fmt_nat to_json fs = (Inr out, fs') \<and>
     (\<forall>path. path \<noteq> default_events_path \<longrightarrow> files fs' path = files fs path) \<and>
     load_events from_json default_events_path fs' = Inr [kamino_event] \<and>
     snd (replay_main f from_json b64 kl default_events_path fs') = ExitSuccess"
proof -
  have same: "files fs1 = files fs" using fs_create_parent_files [of fs default_events_path] assms(1) by simp
  from exported_file [OF assms, of fmt_nat] obtain out fs' where
    e: "export_main fmt_nat to_json fs = (Inr out, fs')"
      "files fs' = (files fs1)(default_events_path \<mapsto> line @ [LF])"
      "load_events from_json default_events_path fs' = Inr [kamino_event]" by blast
  have "raw_bytes b64 kamino_event = []" by (simp add: raw_bytes_def decode_base64_def kamino_event_def)
  moreover have "routed_to_best (populate_router [kamino_event]) kamino_event"
    by (simp add: routed_to_best_def populate_router_def add_reserve_def router_new_def route_def flash_options_def
        hm_insert_def hm_new_def eligible_def map_filter_simps source_of_def kamino_event_def)
  ultimately have "snd (replay_main f from_json b64 kl default_events_path fs') = ExitSuccess"
    using kamino_event_below_one e(3) by (simp add: replay_main_Success_iff)
  with e same show ?thesis by auto
qed

definition demo_formatters :: "unit replay_formatters" where
  "demo_formatters = \<lparr> rf_nat = (\<lambda>_. ''n''), rf_pubkey = (\<lambda>_. ''k''), rf_error = (\<lambda>_. ''x'') \<rparr>"

lemma exported_fixture_replays_witness:
  "\<exists>out fs'. export_main (\<lambda>_. ''1'') (\<lambda>_. Inr ''e'' :: unit + string) demo_fs = (Inr out, fs') \<and>
     snd (replay_main demo_formatters (\<lambda>_. Inr kamino_event) (\<lambda>_. None) demo_klend default_events_path fs') =
       ExitSuccess"
proof -
  have p: "parent_of default_events_path = Some (False, [''fixtures'', ''tests''])"
    by (simp add: default_events_path_def parent_of_def directory_of_def)
  obtain fs1 where "fs_create_parent demo_fs default_events_path = (Inr (), fs1)" "writable fs1 default_events_path"
    by (simp add: fs_create_parent_def writable_def p demo_fs_def dir_exists_def)
  moreover have "stored_as (\<lambda>_. Inr ''e'' :: unit + string) (\<lambda>_. Inr kamino_event) kamino_event ''e''"
    by (simp add: stored_as_def is_blank_def is_whitespace_def)
  ultimately show ?thesis
    using exported_fixture_replays [of demo_fs fs1 "\<lambda>_. Inr ''e'' :: unit + string" "\<lambda>_. Inr kamino_event" "''e''"
        "\<lambda>_. ''1''" demo_formatters "\<lambda>_. None" demo_klend] by fastforce
qed

text \<open>A file with two liquidations of one mint out of one reserve.\<close>

definition second_event :: historical_event where
  "second_event = kamino_event\<lparr>ev_position_id := replicate 32 13\<rparr>"

definition demo_from_json :: "string \<Rightarrow> unit + historical_event" where
  "demo_from_json line = Inr (if line = ''e'' then kamino_event else second_event)"

definition demo_fixtures :: file_system where
  "demo_fixtures = demo_fs\<lparr>files := [default_events_path \<mapsto> ''e'' @ [LF] @ ''g'' @ [LF]]\<rparr>"

lemma demo_fixtures_load: "load_events demo_from_json default_events_path demo_fixtures = Inr [kamino_event, second_event]"
proof -
  have "lines_of (''e'' @ [LF] @ ''g'' @ [LF]) = [''e'', ''g'']"
    using lines_of_line [of "''e''" "''g'' @ [LF]"] lines_of_line [of "''g''" "[]"]
    by (simp add: strip_cr_def)
  then show ?thesis
    by (simp add: load_events_def demo_fixtures_def demo_from_json_def fs_read_def is_blank_def is_whitespace_def)
qed

lemma demo_fixtures_pass:
  "snd (replay_main demo_formatters demo_from_json (\<lambda>_. None) demo_klend default_events_path demo_fixtures) = ExitSuccess"
proof -
  have "routed_to_best (populate_router [kamino_event, second_event]) kamino_event"
    and "routed_to_best (populate_router [kamino_event, second_event]) second_event"
    by (simp_all add: routed_to_best_def populate_router_def add_reserve_def router_new_def route_def flash_options_def
        hm_insert_def hm_new_def eligible_def map_filter_simps source_of_def second_event_def kamino_event_def)
  then show ?thesis
    using kamino_event_below_one
    by (simp add: replay_main_Success_iff demo_fixtures_load raw_bytes_def decode_base64_def second_event_def kamino_event_def)
qed

lemma replay_pass_one_reserve_per_mint_witness:
  "snd (replay_main demo_formatters demo_from_json (\<lambda>_. None) demo_klend default_events_path demo_fixtures) = ExitSuccess \<and>
   kamino_event \<noteq> second_event \<and> best_flash_reserve kamino_event = best_flash_reserve second_event"
  using demo_fixtures_pass
    replay_pass_one_reserve_per_mint [OF demo_fixtures_pass demo_fixtures_load, of kamino_event second_event]
  by (simp add: second_event_def kamino_event_def)

theorem replay_pass_never_uses_adapter_witness:
  "snd (replay_main demo_formatters demo_from_json (\<lambda>_. None) demo_klend default_events_path demo_fixtures) = ExitSuccess \<and>
   decode_base64 (\<lambda>_. None) (obligation_data_base64 kamino_event) \<in> {None, Some []} \<and>
   decode_base64 (\<lambda>_. None) (obligation_data_base64 second_event) \<in> {None, Some []}"
  using demo_fixtures_pass replay_pass_never_uses_adapter [of demo_formatters demo_from_json "\<lambda>_. None" demo_klend
      default_events_path demo_fixtures] demo_fixtures_load
  by auto

end
