(* ===== verification/Arbitration.thy ===== *)
theory Arbitration
  imports Tips
begin

text \<open>
  \<open>crates/strategy/src/treasury_check.rs\<close> and \<open>arbitration.rs\<close>: the per-slot tip budget and
  the arbitration of one evaluation window.  \<open>arbitrate_loop\<close> is the loop of \<open>arbitrate\<close> with
  its two mutable variables as arguments.  The lemmas follow the fired candidates: their
  reserves are pairwise distinct, each passed every check, and the tips committed, added in
  firing order as the budget adds them, stay within the slot cap.
\<close>

section \<open>Slot budget\<close>

datatype treasury_decision =
    Approved | ExceedsPerTxCap | ExceedsPerSlotBudget | BelowMinimumBalance

record slot_budget =
  committed_usd :: f64

definition slot_budget_new :: slot_budget where
  "slot_budget_new = \<lparr> committed_usd = Fin 0 \<rparr>"

definition budget_check ::
  "slot_budget \<Rightarrow> f64 \<Rightarrow> f64 \<Rightarrow> risk_config \<Rightarrow> treasury_config \<Rightarrow> treasury_decision" where
  "budget_check b tip_usd balance_sol risk tr =
     (if f64_lt balance_sol (min_balance_sol tr) then BelowMinimumBalance
      else if f64_gt tip_usd (max_tip_per_tx_usd risk) then ExceedsPerTxCap
      else if f64_gt (f64_add (committed_usd b) tip_usd) (max_tip_per_slot_usd risk)
        then ExceedsPerSlotBudget
      else Approved)"

definition budget_commit :: "slot_budget \<Rightarrow> f64 \<Rightarrow> slot_budget" where
  "budget_commit b tip_usd = b\<lparr>committed_usd := f64_add (committed_usd b) tip_usd\<rparr>"

section \<open>Arbitration\<close>

datatype arbitration_outcome =
    Fire f64 | DeferredReserveConflict | DeferredBudget treasury_decision | Discarded

record arbitrated_candidate =
  arb_routed :: routed_candidate
  outcome :: arbitration_outcome

abbreviation ev :: "routed_candidate \<Rightarrow> f64" where
  "ev c \<equiv> net_usd (expected c)"

abbreviation source_reserve :: "routed_candidate \<Rightarrow> pubkey" where
  "source_reserve c \<equiv> reserve (flash_source c)"

fun arbitrate_loop ::
  "risk_config \<Rightarrow> treasury_config \<Rightarrow> f64 \<Rightarrow> (routed_candidate \<Rightarrow> f64)
     \<Rightarrow> pubkey list \<Rightarrow> slot_budget \<Rightarrow> routed_candidate list \<Rightarrow> arbitrated_candidate list" where
  "arbitrate_loop risk tr bal tip_for locked budget [] = []"
| "arbitrate_loop risk tr bal tip_for locked budget (c # cs) =
     (if f64_le (ev c) (min_profit_usd risk)
      then \<lparr> arb_routed = c, outcome = Discarded \<rparr> #
             arbitrate_loop risk tr bal tip_for locked budget cs
      else if source_reserve c \<in> set locked
      then \<lparr> arb_routed = c, outcome = DeferredReserveConflict \<rparr> #
             arbitrate_loop risk tr bal tip_for locked budget cs
      else
        let tip_usd = tip_for c;
            decision = budget_check budget tip_usd bal risk tr
        in if decision \<noteq> Approved
           then \<lparr> arb_routed = c, outcome = DeferredBudget decision \<rparr> #
                  arbitrate_loop risk tr bal tip_for locked budget cs
           else \<lparr> arb_routed = c, outcome = Fire tip_usd \<rparr> #
                  arbitrate_loop risk tr bal tip_for (locked @ [source_reserve c])
                    (budget_commit budget tip_usd) cs)"

definition arbitrate ::
  "routed_candidate list \<Rightarrow> risk_config \<Rightarrow> treasury_config \<Rightarrow> f64 \<Rightarrow> (routed_candidate \<Rightarrow> f64)
     \<Rightarrow> arbitrated_candidate list" where
  "arbitrate candidates risk tr bal tip_for =
     arbitrate_loop risk tr bal tip_for [] slot_budget_new
       (sort_by (\<lambda>a b. f64_lt (ev b) (ev a)) candidates)"

section \<open>The fired candidates\<close>

definition fired_tip :: "arbitrated_candidate \<Rightarrow> f64 option" where
  "fired_tip a = (case outcome a of Fire t \<Rightarrow> Some t | _ \<Rightarrow> None)"

lemma fired_tip_eq [simp]:
  "fired_tip a = Some t \<longleftrightarrow> outcome a = Fire t"
  "fired_tip \<lparr> arb_routed = c, outcome = Fire t \<rparr> = Some t"
  "fired_tip \<lparr> arb_routed = c, outcome = DeferredReserveConflict \<rparr> = None"
  "fired_tip \<lparr> arb_routed = c, outcome = DeferredBudget d \<rparr> = None"
  "fired_tip \<lparr> arb_routed = c, outcome = Discarded \<rparr> = None"
  by (auto simp: fired_tip_def split: arbitration_outcome.splits)

definition fired :: "arbitrated_candidate list \<Rightarrow> arbitrated_candidate list" where
  "fired as = filter (\<lambda>a. fired_tip a \<noteq> None) as"

definition fired_tips :: "arbitrated_candidate list \<Rightarrow> f64 list" where
  "fired_tips as = List.map_filter fired_tip as"

lemma fired_simps [simp]:
  "fired [] = []"
  "fired (a # as) = (if fired_tip a \<noteq> None then a # fired as else fired as)"
  by (simp_all add: fired_def)

lemma fired_tips_simps [simp]:
  "fired_tips [] = []"
  "fired_tips (a # as) = (case fired_tip a of None \<Rightarrow> fired_tips as | Some t \<Rightarrow> t # fired_tips as)"
  unfolding fired_tips_def by (simp_all add: List.map_filter_simps)

lemma budget_check_Approved_iff:
  "budget_check b t bal risk tr = Approved \<longleftrightarrow>
     \<not> f64_lt bal (min_balance_sol tr) \<and> \<not> f64_lt (max_tip_per_tx_usd risk) t \<and>
     \<not> f64_lt (max_tip_per_slot_usd risk) (f64_add (committed_usd b) t)"
  by (simp add: budget_check_def)

lemma arbitrate_loop_routed:
  "map arb_routed (arbitrate_loop risk tr bal tip locked b cs) = cs"
  by (induction cs arbitrary: locked b) (auto simp: Let_def)

lemma arbitrate_loop_reserves:
  "distinct locked \<Longrightarrow>
     distinct (locked @ map (\<lambda>a. source_reserve (arb_routed a))
       (fired (arbitrate_loop risk tr bal tip locked b cs)))"
proof (induction cs arbitrary: locked b)
  case Nil
  then show ?case by simp
next
  case (Cons c cs)
  show ?case
  proof (cases "source_reserve c \<in> set locked")
    case True
    then show ?thesis using Cons by (simp add: Let_def)
  next
    case False
    then have "distinct (locked @ [source_reserve c])" using Cons.prems by simp
    from Cons.IH [OF this] Cons.IH [OF Cons.prems] False show ?thesis
      by (simp add: Let_def)
  qed
qed

lemma arbitrate_loop_fire:
  "a \<in> set (arbitrate_loop risk tr bal tip locked b cs) \<Longrightarrow> outcome a = Fire t \<Longrightarrow>
     t = tip (arb_routed a) \<and> \<not> f64_le (ev (arb_routed a)) (min_profit_usd risk) \<and>
     \<not> f64_lt (max_tip_per_tx_usd risk) t \<and> \<not> f64_lt bal (min_balance_sol tr)"
  by (induction cs arbitrary: locked b)
     (auto simp: Let_def budget_check_Approved_iff split: if_splits)

lemma arbitrate_loop_spend:
  assumes "fired_tips (arbitrate_loop risk tr bal tip locked b cs) \<noteq> []"
  shows "\<not> f64_lt (max_tip_per_slot_usd risk)
           (foldl f64_add (committed_usd b) (fired_tips (arbitrate_loop risk tr bal tip locked b cs)))"
  using assms
proof (induction cs arbitrary: locked b)
  case Nil
  then show ?case by simp
next
  case (Cons c cs)
  let ?b = "budget_commit b (tip c)"
  let ?rest = "arbitrate_loop risk tr bal tip (locked @ [source_reserve c]) ?b cs"
  have ok: "\<not> f64_lt (max_tip_per_slot_usd risk)
      (foldl f64_add (f64_add (committed_usd b) (tip c)) (fired_tips ?rest))"
    if "budget_check b (tip c) bal risk tr = Approved"
  proof (cases "fired_tips ?rest = []")
    case True
    then show ?thesis using that by (simp add: budget_check_Approved_iff)
  next
    case False
    then show ?thesis using Cons.IH [of "locked @ [source_reserve c]" ?b] by (simp add: budget_commit_def)
  qed
  show ?case using Cons ok by (auto simp: Let_def split: if_splits)
qed

lemma foldl_add_nonneg:
  "f64_le (Fin 0) z \<Longrightarrow> (\<And>t. t \<in> set ts \<Longrightarrow> f64_le (Fin 0) t) \<Longrightarrow> f64_le (Fin 0) (foldl f64_add z ts)"
  by (induction ts arbitrary: z) (auto simp: f64_add_nonneg)

lemma fired_tips_set:
  "set (fired_tips as) = {t. \<exists>a\<in>set as. outcome a = Fire t}"
  by (induction as) (auto split: option.splits simp: fired_tip_def split: arbitration_outcome.splits)

lemma arbitrate_routed:
  "map arb_routed (arbitrate cs risk tr bal tip) = sort_by (\<lambda>a b. f64_lt (ev b) (ev a)) cs"
  by (simp add: arbitrate_def arbitrate_loop_routed)

section \<open>Properties\<close>

text \<open>
  every candidate gets exactly one outcome, and when no expected value is NaN the
  outcomes come in descending order of expected value, candidates of equal value keeping
  their input order.
\<close>
lemma arbitrate_ranks_by_ev:
  assumes "\<forall>c\<in>set cs. ev c \<noteq> NaN"
  shows "mset (map arb_routed (arbitrate cs risk tr bal tip)) = mset cs \<and>
         sorted_wrt (\<lambda>a b. f64_ge (ev (arb_routed a)) (ev (arb_routed b)))
           (arbitrate cs risk tr bal tip) \<and>
         (\<forall>v. filter (\<lambda>c. ev c = v) (map arb_routed (arbitrate cs risk tr bal tip)) =
              filter (\<lambda>c. ev c = v) cs)"
proof -
  let ?lt = "\<lambda>a b. f64_lt (ev b) (ev a)"
  have "weak_order_on ?lt (set cs)" using assms by (intro f64_weak_order) auto
  then have "sorted_wrt (\<lambda>a b. \<not> ?lt b a) (map arb_routed (arbitrate cs risk tr bal tip))"
    unfolding arbitrate_routed by (rule sorted_sort_by)
  moreover have "ev (arb_routed a) \<noteq> NaN" if "a \<in> set (arbitrate cs risk tr bal tip)" for a
    using that assms arbitrate_routed [of cs risk tr bal tip]
    by (metis image_eqI image_set set_sort_by)
  ultimately have "sorted_wrt (\<lambda>a b. f64_ge (ev (arb_routed a)) (ev (arb_routed b)))
      (arbitrate cs risk tr bal tip)"
    unfolding sorted_wrt_map by (elim sorted_wrt_mono_rel [rotated]) (auto simp: not_f64_lt)
  moreover have "filter (\<lambda>c. ev c = v) (map arb_routed (arbitrate cs risk tr bal tip)) =
      filter (\<lambda>c. ev c = v) cs" for v
    unfolding arbitrate_routed by (rule stable_sort_by) simp
  ultimately show ?thesis by (simp add: arbitrate_routed)
qed

definition demo_candidate :: "u8 \<Rightarrow> rat \<Rightarrow> routed_candidate" where
  "demo_candidate b net =
     \<lparr> candidate = \<lparr> bc_protocol = Kamino, position_id = replicate 32 b,
         collateral_mint = replicate 32 1, debt_mint = replicate 32 2,
         health_factor = f64_lit (9 / 10), close_factor_max_repay = 1000000, bc_slot = 100 \<rparr>,
       repay_amount = 500000,
       flash_source = \<lparr> fs_protocol = Kamino, reserve = replicate 32 b, fee_bps = 5 \<rparr>,
       expected = \<lparr> bonus_usd = Fin 40, est_slippage_usd = Fin 2, flash_fee_usd = Fin 1,
         est_cu_cost_usd = Fin (1 / 2), bid_tip_usd = Fin 10, net_usd = Fin net \<rparr> \<rparr>"

definition demo_treasury :: treasury_config where
  "demo_treasury = \<lparr> wallet_path = ''/tmp/wallet.json'', min_balance_sol = Fin 1, sweep_interval = ''1h'' \<rparr>"

lemma arbitrate_ranks_by_ev_witness:
  "map (\<lambda>a. ev (arb_routed a))
     (arbitrate [demo_candidate 1 10, demo_candidate 2 30, demo_candidate 3 20]
        demo_risk demo_treasury (Fin 5) (\<lambda>_. Fin 10)) = [Fin 30, Fin 20, Fin 10] \<and>
   sorted_wrt (\<lambda>a b. f64_ge (ev (arb_routed a)) (ev (arb_routed b)))
     (arbitrate [demo_candidate 1 10, demo_candidate 2 30, demo_candidate 3 20]
        demo_risk demo_treasury (Fin 5) (\<lambda>_. Fin 10))"
proof -
  let ?cs = "[demo_candidate 1 10, demo_candidate 2 30, demo_candidate 3 20]"
  have h: "\<forall>c\<in>set ?cs. ev c \<noteq> NaN" by (simp add: demo_candidate_def)
  have "map (\<lambda>a. ev (arb_routed a)) (arbitrate ?cs demo_risk demo_treasury (Fin 5) (\<lambda>_. Fin 10)) =
      map ev (sort_by (\<lambda>a b. f64_lt (ev b) (ev a)) ?cs)"
    unfolding arbitrate_routed [symmetric, of ?cs demo_risk demo_treasury "Fin 5" "\<lambda>_. Fin 10"]
    by (simp only: map_map comp_def)
  also have "\<dots> = [Fin 30, Fin 20, Fin 10]" by (simp add: demo_candidate_def)
  finally show ?thesis
    using arbitrate_ranks_by_ev [OF h, of demo_risk demo_treasury "Fin 5" "\<lambda>_. Fin 10"] by blast
qed

text \<open>
  C5: no two candidates fired in one window share a flash-loan source reserve, and every
  fired candidate has an expected value above the minimum profit, carries the tip computed
  for it, within the per-transaction cap, and is fired only while the wallet is not below
  its floor.
\<close>
theorem arbitrate_fires_safely:
  shows "distinct (map (\<lambda>a. source_reserve (arb_routed a)) (fired (arbitrate cs risk tr bal tip))) \<and>
         (\<forall>a t. a \<in> set (arbitrate cs risk tr bal tip) \<and> outcome a = Fire t \<longrightarrow>
            t = tip (arb_routed a) \<and> \<not> f64_le (ev (arb_routed a)) (min_profit_usd risk) \<and>
            \<not> f64_gt t (max_tip_per_tx_usd risk) \<and> \<not> f64_lt bal (min_balance_sol tr))"
proof -
  have "distinct (map (\<lambda>a. source_reserve (arb_routed a)) (fired (arbitrate cs risk tr bal tip)))"
    unfolding arbitrate_def
    using arbitrate_loop_reserves [of "[]"] by simp
  then show ?thesis
    unfolding arbitrate_def using arbitrate_loop_fire by blast
qed

theorem arbitrate_fires_safely_witness:
  "\<exists>a t. a \<in> set (arbitrate [demo_candidate 1 30] demo_risk demo_treasury (Fin 5) (\<lambda>_. Fin 10)) \<and>
     outcome a = Fire t \<and> \<not> f64_gt t (Fin 150)"
proof -
  let ?as = "arbitrate [demo_candidate 1 30] demo_risk demo_treasury (Fin 5) (\<lambda>_. Fin 10)"
  have as: "?as = [\<lparr> arb_routed = demo_candidate 1 30, outcome = Fire (Fin 10) \<rparr>]"
    by (simp add: arbitrate_def demo_candidate_def demo_risk_def demo_treasury_def
        budget_check_def slot_budget_new_def f64_round_numeral Let_def)
  then have "hd ?as \<in> set ?as \<and> outcome (hd ?as) = Fire (Fin 10)" by simp
  with arbitrate_fires_safely [of "[demo_candidate 1 30]" demo_risk demo_treasury "Fin 5" "\<lambda>_. Fin 10"]
  show ?thesis by (auto simp: demo_risk_def)
qed

text \<open>
  C6: when tips are not negative and the slot cap is a number, the tips of the fired
  candidates, summed in firing order with the rounding of the budget, never exceed the
  per-slot cap, however many candidates the window has.
\<close>
theorem arbitrate_respects_slot_budget:
  assumes "\<forall>c\<in>set cs. f64_le (Fin 0) (tip c)"
    and "f64_le (Fin 0) (max_tip_per_slot_usd risk)"
  shows "f64_le (f64_sum (fired_tips (arbitrate cs risk tr bal tip))) (max_tip_per_slot_usd risk)"
proof (cases "fired_tips (arbitrate cs risk tr bal tip) = []")
  case True
  then show ?thesis using assms(2) by (simp add: f64_sum_def)
next
  case False
  let ?ts = "fired_tips (arbitrate cs risk tr bal tip)"
  have "f64_le (Fin 0) t" if "t \<in> set ?ts" for t
  proof -
    from that obtain a where a: "a \<in> set (arbitrate cs risk tr bal tip)" "outcome a = Fire t"
      by (auto simp: fired_tips_set)
    have "arb_routed a \<in> set cs"
      using a(1) arbitrate_routed [of cs risk tr bal tip] by (metis image_eqI image_set set_sort_by)
    moreover have "t = tip (arb_routed a)"
      using a arbitrate_loop_fire unfolding arbitrate_def by blast
    ultimately show ?thesis using assms(1) by simp
  qed
  then have "f64_le (Fin 0) (f64_sum ?ts)"
    unfolding f64_sum_def by (intro foldl_add_nonneg) auto
  moreover have "\<not> f64_lt (max_tip_per_slot_usd risk) (f64_sum ?ts)"
    using False arbitrate_loop_spend [where b = slot_budget_new]
    unfolding arbitrate_def f64_sum_def by (simp add: slot_budget_new_def)
  ultimately show ?thesis using assms(2) by (auto simp: not_f64_lt)
qed

theorem arbitrate_respects_slot_budget_witness:
  "f64_le (f64_sum (fired_tips (arbitrate [demo_candidate 1 30, demo_candidate 2 25]
     demo_risk demo_treasury (Fin 5) (\<lambda>_. Fin 10)))) (Fin 600)"
proof -
  have "\<forall>c\<in>set [demo_candidate 1 30, demo_candidate 2 25]. f64_le (Fin 0) ((\<lambda>_. Fin 10) c)" by simp
  moreover have "f64_le (Fin 0) (max_tip_per_slot_usd demo_risk)" by (simp add: demo_risk_def)
  ultimately have "f64_le (f64_sum (fired_tips (arbitrate [demo_candidate 1 30, demo_candidate 2 25]
     demo_risk demo_treasury (Fin 5) (\<lambda>_. Fin 10)))) (max_tip_per_slot_usd demo_risk)"
    by (rule arbitrate_respects_slot_budget)
  then show ?thesis by (simp add: demo_risk_def)
qed

end
