(* ===== verification/Treasury.thy ===== *)
theory Treasury
  imports Store
begin

text \<open>
  \<open>crates/treasury\<close>: the ledger of realized profit with its slot window and pruning
  (\<open>pnl_ledger.rs\<close>), and the sweep schedule and minimum balance (\<open>sweep.rs\<close>).  The sums are
  the rounded left-to-right sums of doubles.  File access and the JSON serializer are
  parameters; the lemmas show that pruning never changes what the drawdown check reads and
  that a stored ledger is read back unchanged.
\<close>

section \<open>Ledger\<close>

record pnl_entry =
  pe_slot :: u64
  pe_net_usd :: f64

record pnl_ledger =
  pnl_entries :: "pnl_entry list"

definition ledger_new :: pnl_ledger where
  "ledger_new = \<lparr> pnl_entries = [] \<rparr>"

definition ledger_record :: "pnl_ledger \<Rightarrow> u64 \<Rightarrow> f64 \<Rightarrow> pnl_ledger" where
  "ledger_record l slot net = l\<lparr>pnl_entries := pnl_entries l @ [\<lparr> pe_slot = slot, pe_net_usd = net \<rparr>]\<rparr>"

definition windowed_sum :: "pnl_ledger \<Rightarrow> u64 \<Rightarrow> u64 \<Rightarrow> f64" where
  "windowed_sum l current_slot window_slots =
     (let cutoff = saturating_sub current_slot window_slots
      in f64_sum (map pe_net_usd
           (filter (\<lambda>e. pe_slot e \<ge> cutoff \<and> pe_slot e \<le> current_slot) (pnl_entries l))))"

text \<open>The loop pops the front while it is older than the cutoff.\<close>

definition prune_older_than :: "pnl_ledger \<Rightarrow> u64 \<Rightarrow> u64 \<Rightarrow> pnl_ledger" where
  "prune_older_than l current_slot window_slots =
     (let cutoff = saturating_sub current_slot window_slots
      in l\<lparr>pnl_entries := dropWhile (\<lambda>e. pe_slot e < cutoff) (pnl_entries l)\<rparr>)"

definition drawdown_breached :: "f64 \<Rightarrow> f64 \<Rightarrow> bool" where
  "drawdown_breached windowed max_drawdown = f64_le windowed (f64_neg (f64_abs max_drawdown))"

text \<open>
  Snapshot and restore: a serializer error becomes an \<open>io::Error\<close> of kind \<open>InvalidData\<close>.
\<close>

definition ledger_snapshot ::
  "(pnl_entry list \<Rightarrow> 'e + string) \<Rightarrow> pnl_ledger \<Rightarrow> string \<Rightarrow> file_system \<Rightarrow> io_error + file_system" where
  "ledger_snapshot to_json l path fs =
     and_then (map_err (\<lambda>_. InvalidData) (to_json (pnl_entries l))) (\<lambda>json. fs_write fs path json)"

definition ledger_restore ::
  "(string \<Rightarrow> 'e + pnl_entry list) \<Rightarrow> string \<Rightarrow> file_system \<Rightarrow> io_error + pnl_ledger" where
  "ledger_restore from_json path fs =
     and_then (fs_read fs path) (\<lambda>json.
     and_then (map_err (\<lambda>_. InvalidData) (from_json json)) (\<lambda>es. Inr \<lparr> pnl_entries = es \<rparr>))"

definition ledger_len :: "pnl_ledger \<Rightarrow> nat" where
  "ledger_len l = length (pnl_entries l)"

definition ledger_is_empty :: "pnl_ledger \<Rightarrow> bool" where
  "ledger_is_empty l = (pnl_entries l = [])"

section \<open>Sweep\<close>

definition is_below_minimum_balance :: "f64 \<Rightarrow> f64 \<Rightarrow> bool" where
  "is_below_minimum_balance balance minimum = f64_lt balance minimum"

datatype sweep_interval_error = EmptyInterval | Malformed string | UnknownUnit string

text \<open>
  \<open>u64::from_str\<close>: an optional plus sign and at least one digit, without overflow.  The interval
  is split before its last byte, which panics when that byte is inside a character; the model's
  strings are ASCII, where every split is possible.
\<close>

fun digits_value :: "string \<Rightarrow> nat \<Rightarrow> nat option" where
  "digits_value [] acc = Some acc"
| "digits_value (c # cs) acc =
     (if of_char c \<in> {48 .. 57 :: nat} then digits_value cs (10 * acc + (of_char c - 48)) else None)"

definition parse_u64 :: "string \<Rightarrow> u64 option" where
  "parse_u64 s =
     (let ds = (case s of c # cs \<Rightarrow> if c = CHR ''+'' then cs else s | [] \<Rightarrow> [])
      in if ds = [] then None
         else case digits_value ds 0 of
           Some n \<Rightarrow> if n < 2 ^ 64 then Some (of_nat n) else None
         | None \<Rightarrow> None)"

text \<open>The multiplications by the unit wrap; the one by a thousand saturates.\<close>

definition unit_seconds :: "string \<Rightarrow> u64 \<Rightarrow> u64 option" where
  "unit_seconds u v =
     (if u = ''s'' then Some v else if u = ''m'' then Some (v * 60)
      else if u = ''h'' then Some (v * 3600) else if u = ''d'' then Some (v * 86400) else None)"

definition parse_sweep_interval_slots :: "string \<Rightarrow> u64 \<Rightarrow> sweep_interval_error + u64" where
  "parse_sweep_interval_slots interval avg_slot_ms =
     (if interval = [] then Inl EmptyInterval
      else let u = [last interval]
           in and_then (ok_or (Malformed interval) (parse_u64 (butlast interval))) (\<lambda>v.
              and_then (ok_or (UnknownUnit u) (unit_seconds u v)) (\<lambda>seconds.
                Inr (saturating_mul seconds 1000 div max avg_slot_ms 1))))"

definition sweep_due :: "u64 \<Rightarrow> u64 \<Rightarrow> u64 \<Rightarrow> bool" where
  "sweep_due current_slot last_swept_slot interval_slots =
     (saturating_sub current_slot last_swept_slot \<ge> interval_slots)"

section \<open>Properties\<close>

lemma filter_dropWhile: "(\<And>x. P x \<Longrightarrow> \<not> Q x) \<Longrightarrow> filter Q (dropWhile P xs) = filter Q xs"
  by (induction xs) auto

lemma saturating_sub_mono: "(c :: u64) \<le> c' \<Longrightarrow> saturating_sub c w \<le> saturating_sub c' w"
  by (simp add: word_le_nat_alt unat_saturating_sub)

lemma ledger_roundtrip:
  assumes "writable fs path" and "to_json (pnl_entries l) = Inr json" and "from_json json = Inr (pnl_entries l)"
  shows "\<exists>fs'. ledger_snapshot to_json l path fs = Inr fs' \<and> ledger_restore from_json path fs' = Inr l"
  using assms by (simp add: ledger_snapshot_def ledger_restore_def fs_write_def fs_read_def)

text \<open>
  C26: Pruning the ledger at some slot changes no later drawdown reading over the same window:
  the windowed sum at that or any later slot is the one of the unpruned ledger, whatever was
  recorded in between and in whatever slot order, and so is the drawdown decision.  Pruning
  removes only entries older than the window.
\<close>

theorem prune_keeps_windowed_sum:
  assumes "slot \<le> later"
  shows "windowed_sum (foldl (\<lambda>l (s, n). ledger_record l s n) (prune_older_than ledger slot window) recs) later window =
         windowed_sum (foldl (\<lambda>l (s, n). ledger_record l s n) ledger recs) later window \<and>
     (\<forall>e \<in> set (pnl_entries ledger). e \<notin> set (pnl_entries (prune_older_than ledger slot window)) \<longrightarrow>
        unat (pe_slot e) + unat window < unat slot)"
proof
  have fold: "pnl_entries (foldl (\<lambda>l (s, n). ledger_record l s n) l recs) =
      pnl_entries l @ map (\<lambda>(s, n). \<lparr> pe_slot = s, pe_net_usd = n \<rparr>) recs" for l
    by (induction recs arbitrary: l) (auto simp: ledger_record_def)
  have "pe_slot e < saturating_sub slot window \<Longrightarrow> \<not> saturating_sub later window \<le> pe_slot e" for e :: pnl_entry
    using saturating_sub_mono [OF assms, of window] by (meson leD order.trans)
  then show "windowed_sum (foldl (\<lambda>l (s, n). ledger_record l s n) (prune_older_than ledger slot window) recs) later window =
         windowed_sum (foldl (\<lambda>l (s, n). ledger_record l s n) ledger recs) later window"
    unfolding windowed_sum_def fold
    by (simp add: prune_older_than_def Let_def filter_dropWhile)
  show "\<forall>e \<in> set (pnl_entries ledger). e \<notin> set (pnl_entries (prune_older_than ledger slot window)) \<longrightarrow>
        unat (pe_slot e) + unat window < unat slot"
  proof (intro ballI impI)
    fix e
    assume "e \<in> set (pnl_entries ledger)" "e \<notin> set (pnl_entries (prune_older_than ledger slot window))"
    then have "e \<in> set (takeWhile (\<lambda>e. pe_slot e < saturating_sub slot window) (pnl_entries ledger))"
      unfolding prune_older_than_def Let_def
      by (metis (no_types, lifting) Un_iff pnl_ledger.simps(1) pnl_ledger.surjective pnl_ledger.update_convs(1)
          set_append takeWhile_dropWhile_id)
    then have "pe_slot e < saturating_sub slot window" by (rule set_takeWhileD [THEN conjunct2])
    then show "unat (pe_slot e) + unat window < unat slot"
      by (simp add: word_less_nat_alt unat_saturating_sub)
  qed
qed

theorem prune_keeps_windowed_sum_witness:
  "windowed_sum (foldl (\<lambda>l (s, n). ledger_record l s n)
       (prune_older_than \<lparr> pnl_entries = [\<lparr> pe_slot = 1, pe_net_usd = Fin 7 \<rparr>] \<rparr> 10 5) [(12, Fin 3)]) 12 5 = Fin 3"
proof -
  have "(10 :: u64) \<le> 12" by simp
  note eq = prune_keeps_windowed_sum [OF this, of "\<lparr> pnl_entries = [\<lparr> pe_slot = 1, pe_net_usd = Fin 7 \<rparr>] \<rparr>" 5 "[(12, Fin 3)]"]
  show ?thesis
    unfolding eq [THEN conjunct1]
    by (simp add: windowed_sum_def ledger_record_def saturating_sub_def f64_sum_def f64_round_numeral word_le_nat_alt)
qed

end
