(* ===== verification/DexRouter.thy ===== *)
theory DexRouter
  imports Core
begin

text \<open>
  \<open>crates/router/src/dex.rs\<close>: quotes registered per mint pair and the choice among them.  The
  quotes are sorted by the amount received and then by registration order; the lemmas show
  that the winner is the first registered of the best quotes that are deep enough and within
  the price-impact limit.
\<close>

datatype dex_venue = RaydiumClmm | OrcaWhirlpool | Sanctum | Marinade

definition is_direct :: "dex_venue \<Rightarrow> bool" where
  "is_direct v = True"

definition dex_program_id :: "dex_venue \<Rightarrow> string" where
  "dex_program_id v = (case v of
      RaydiumClmm \<Rightarrow> ''CAMMCzo5YL8w4VFF8KVHrK22GGUsp5VTaW7grrKgrWqK''
    | OrcaWhirlpool \<Rightarrow> ''whirLbMiicVdio4qvUfM5KAg6Ct8VwpYzGff3uctyCc''
    | Sanctum \<Rightarrow> ''5ocnV1qiCgaQR8Jb8xWnVbApNzpWCDveWUig21uT3J9z''
    | Marinade \<Rightarrow> ''MarBmsSgKXdrN1egZf5sqe1TMai9K1rChYNDJgjq7aD'')"

record market_quote =
  venue :: dex_venue
  market_address :: pubkey
  available_depth :: u64
  expected_out_amount :: u64
  mq_fee_bps :: u32
  price_impact_bps :: u32

record dex_route_decision =
  selected_venue :: dex_venue
  drd_market_address :: pubkey
  drd_expected_out_amount :: u64
  effective_price :: f64
  considered_venues :: "market_quote list"
  fallback_used :: bool

record dex_router =
  max_price_impact_bps :: u32
  markets :: "(pubkey \<times> pubkey, market_quote list) hashmap"

definition dex_router_new :: "u32 \<Rightarrow> dex_router" where
  "dex_router_new max_impact = \<lparr> max_price_impact_bps = max_impact, markets = hm_new \<rparr>"

definition register_market_quote :: "dex_router \<Rightarrow> pubkey \<Rightarrow> pubkey \<Rightarrow> market_quote \<Rightarrow> dex_router" where
  "register_market_quote d input_mint output_mint q =
     (let key = (input_mint, output_mint);
          old = (case hm_get (markets d) key of Some qs \<Rightarrow> qs | None \<Rightarrow> [])
      in d\<lparr>markets := hm_insert key (old @ [q]) (markets d)\<rparr>)"

definition quote_ok :: "dex_router \<Rightarrow> u64 \<Rightarrow> market_quote \<Rightarrow> bool" where
  "quote_ok d amount_in q \<longleftrightarrow>
     is_direct (venue q) \<and> available_depth q \<ge> amount_in \<and> price_impact_bps q \<le> max_price_impact_bps d"

definition quote_before :: "nat \<times> market_quote \<Rightarrow> nat \<times> market_quote \<Rightarrow> bool" where
  "quote_before = (\<lambda>(i, a) (j, b).
     expected_out_amount b < expected_out_amount a \<or> expected_out_amount a = expected_out_amount b \<and> i < j)"

definition select_route :: "dex_router \<Rightarrow> pubkey \<Rightarrow> pubkey \<Rightarrow> u64 \<Rightarrow> dex_route_decision option" where
  "select_route d input_mint output_mint amount_in =
     (case hm_get (markets d) (input_mint, output_mint) of
        None \<Rightarrow> None
      | Some quotes \<Rightarrow>
          let cands = filter (\<lambda>(_, q). quote_ok d amount_in q) (enumerate 0 quotes)
          in if quotes = [] \<or> cands = [] then None
             else let winner = snd (hd (sort_by quote_before cands))
                  in Some \<lparr> selected_venue = venue winner, drd_market_address = market_address winner,
                       drd_expected_out_amount = expected_out_amount winner,
                       effective_price =
                         (if amount_in > 0 then f64_div (f64_of_word (expected_out_amount winner)) (f64_of_word amount_in)
                          else Fin 0),
                       considered_venues = quotes, fallback_used = False \<rparr>)"

section \<open>The winner\<close>

lemma quote_before_weak_order: "weak_order_on quote_before A"
proof -
  have "quote_before x y \<Longrightarrow> \<not> quote_before y x" for x y
    by (cases x; cases y) (auto simp: quote_before_def)
  moreover have "\<not> quote_before y x \<Longrightarrow> \<not> quote_before z y \<Longrightarrow> \<not> quote_before z x" for x y z
    by (cases x; cases y; cases z) (auto simp: quote_before_def)
  ultimately show ?thesis unfolding weak_order_on_def by blast
qed

lemma winner_spec:
  assumes "cands = filter (\<lambda>(_, q). P q) (enumerate 0 quotes)" and "cands \<noteq> []"
    and "(i, w) = hd (sort_by quote_before cands)"
  shows "i < length quotes" "w = quotes ! i" "P w"
    and "\<And>j. j < length quotes \<Longrightarrow> P (quotes ! j) \<Longrightarrow>
       expected_out_amount (quotes ! j) < expected_out_amount w \<or>
       expected_out_amount (quotes ! j) = expected_out_amount w \<and> i \<le> j"
proof -
  have in_iff: "(j, q) \<in> set cands \<longleftrightarrow> j < length quotes \<and> q = quotes ! j \<and> P q" for j q
    by (auto simp: assms(1) in_set_enumerate_eq)
  have "hd (sort_by quote_before cands) \<in> set cands"
    using assms(2) hd_in_set [of "sort_by quote_before cands"] by simp
  then show "i < length quotes" "w = quotes ! i" "P w" using in_iff [of i w] assms(3) by auto
  fix j
  assume "j < length quotes" "P (quotes ! j)"
  then have "(j, quotes ! j) \<in> set cands" by (simp add: in_iff)
  from hd_sort_by_least [OF quote_before_weak_order assms(2) this] show
    "expected_out_amount (quotes ! j) < expected_out_amount w \<or>
       expected_out_amount (quotes ! j) = expected_out_amount w \<and> i \<le> j"
    unfolding assms(3) [symmetric] by (auto simp: quote_before_def)
qed

text \<open>
  The swap route is the best executable quote: a route is chosen exactly when some quote
  registered for the mint pair is deep enough and within the price-impact limit; the chosen one
  pays at least as much as every such quote, and of several that pay the same the first
  registered wins.  The decision records every quote of the pair.
\<close>

lemma select_route_is_best_quote:
  assumes "hm_get (markets d) (src, dst) = Some quotes"
  shows "case select_route d src dst amount of
      None \<Rightarrow> \<forall>q \<in> set quotes. \<not> (amount \<le> available_depth q \<and> price_impact_bps q \<le> max_price_impact_bps d)
    | Some r \<Rightarrow> considered_venues r = quotes \<and>
        (\<exists>i < length quotes. let w = quotes ! i in
           amount \<le> available_depth w \<and> price_impact_bps w \<le> max_price_impact_bps d \<and>
           selected_venue r = venue w \<and> drd_market_address r = market_address w \<and>
           drd_expected_out_amount r = expected_out_amount w \<and>
           (\<forall>j < length quotes. amount \<le> available_depth (quotes ! j) \<and>
               price_impact_bps (quotes ! j) \<le> max_price_impact_bps d \<longrightarrow>
              expected_out_amount (quotes ! j) < expected_out_amount w \<or>
              expected_out_amount (quotes ! j) = expected_out_amount w \<and> i \<le> j))"
proof -
  define cands where "cands = filter (\<lambda>(_, q). quote_ok d amount q) (enumerate 0 quotes)"
  have none: "cands = [] \<longleftrightarrow> (\<forall>q \<in> set quotes. \<not> quote_ok d amount q)"
  proof -
    have "(\<exists>x \<in> set (enumerate 0 quotes). quote_ok d amount (snd x)) \<longleftrightarrow> (\<exists>q \<in> set quotes. quote_ok d amount q)"
      by (metis (no_types, lifting) image_iff list.set_map map_snd_enumerate)
    then show ?thesis by (auto simp: cands_def filter_empty_conv split_def)
  qed
  show ?thesis
  proof (cases "cands = []")
    case True
    then have "select_route d src dst amount = None"
      by (simp add: select_route_def assms cands_def [symmetric])
    then show ?thesis using True none by (simp add: quote_ok_def is_direct_def)
  next
    case False
    obtain i w where iw: "(i, w) = hd (sort_by quote_before cands)" by (metis surj_pair)
    note spec = winner_spec [OF cands_def False iw]
    have ne: "quotes \<noteq> []" using False by (auto simp: cands_def)
    have w: "snd (hd (sort_by quote_before cands)) = w" by (simp flip: iw)
    have r: "select_route d src dst amount = Some \<lparr> selected_venue = venue w, drd_market_address = market_address w,
        drd_expected_out_amount = expected_out_amount w,
        effective_price = (if amount > 0 then f64_div (f64_of_word (expected_out_amount w)) (f64_of_word amount) else Fin 0),
        considered_venues = quotes, fallback_used = False \<rparr>"
      unfolding select_route_def assms option.case Let_def cands_def [symmetric] using False ne w by simp
    show ?thesis
      unfolding r option.case
      by (intro conjI exI [of _ i]) (use spec in \<open>auto simp: quote_ok_def is_direct_def Let_def\<close>)
  qed
qed

definition demo_quote :: "u64 \<Rightarrow> market_quote" where
  "demo_quote out = \<lparr> venue = OrcaWhirlpool, market_address = replicate 32 6, available_depth = 1000,
     expected_out_amount = out, mq_fee_bps = 1, price_impact_bps = 2 \<rparr>"

definition demo_dex :: dex_router where
  "demo_dex = register_market_quote (register_market_quote (dex_router_new 50)
     (replicate 32 1) (replicate 32 2) (demo_quote 90)) (replicate 32 1) (replicate 32 2) (demo_quote 95)"

lemma select_route_is_best_quote_witness:
  "\<exists>r. select_route demo_dex (replicate 32 1) (replicate 32 2) 100 = Some r \<and>
     considered_venues r = [demo_quote 90, demo_quote 95] \<and> drd_expected_out_amount r = 95"
proof -
  have q: "hm_get (markets demo_dex) (replicate 32 1, replicate 32 2) = Some [demo_quote 90, demo_quote 95]"
    by (simp add: demo_dex_def register_market_quote_def dex_router_new_def Let_def)
  have "price_impact_bps (demo_quote n) \<le> max_price_impact_bps demo_dex" "100 \<le> available_depth (demo_quote n)" for n
    by (simp_all add: demo_dex_def register_market_quote_def dex_router_new_def demo_quote_def Let_def)
  moreover have "expected_out_amount (demo_quote n) = n" for n by (simp add: demo_quote_def)
  ultimately show ?thesis
    using select_route_is_best_quote [OF q, of 100]
    by (auto simp: less_Suc_eq Let_def All_less_Suc2 split: option.splits)
qed

end
