(* ===== verification/SolendObligationProps.thy ===== *)
theory SolendObligationProps
  imports SolendObligation
begin

text \<open>
  The correctness of the obligation and liquidation operations: the bounds of the bonus and of
  a liquidation's amounts, interest on an obligation, and the invariant of its two vectors
  over every sequence of operations.
\<close>

section \<open>Bonus\<close>

lemma dv_from_deca_bps [simp]: "dv (from_deca_bps n) = unat n * (wad div 1000)"
proof -
  have w: "wad * unat n div 1000 = unat n * (wad div 1000)" by (simp add: wad_def)
  have "wad * unat n div 1000 < 2 ^ 192"
    using unat_less_pow [of n] unfolding w by (simp add: wad_def)
  then obtain d where d: "dv d = wad * unat n div 1000" using dm.raw_surj by blast
  then have "try_div_u64 (Decimal_from (ucast n)) 1000 = Inr d"
    by (simp add: try_div_u64_iff unat_ucast_up)
  then show ?thesis using d w by (simp add: from_deca_bps_def)
qed

lemma max_bonus [simp]: "unat MAX_BONUS_PCT = 25"
  by (simp add: MAX_BONUS_PCT_def)

lemma percent_small: "unat (p :: u8) * (wad div 100) \<le> 255 * (wad div 100)"
  using unat_less_pow [of p] by simp

lemma bonus_within_config:
  assumes "validate_reserve_config (res_config r) = Inr v"
  shows "unat (max_liquidation_bonus (res_config r)) * (wad div 100) +
     unat (cfg_protocol_liquidation_fee (res_config r)) * (wad div 1000) \<le> 25 * (wad div 100)"
  using validate_ok(11) [OF assms] by (simp add: wad_def)

lemma unhealthy_bonus:
  assumes cfg: "validate_reserve_config (res_config r) = Inr v"
    and unhealthy: "\<not> borrowed_value ob < unhealthy_borrow_value ob"
    and super: "unhealthy_borrow_value ob \<le> super_unhealthy_borrow_value ob"
  shows "\<exists>b. calculate_bonus r ob = Inr b \<and>
     bonus_protocol_fee b = from_deca_bps (cfg_protocol_liquidation_fee (res_config r)) \<and>
     unat (liquidation_bonus (res_config r)) * (wad div 100) + dv (bonus_protocol_fee b) \<le> dv (total_bonus b) \<and>
     dv (total_bonus b) \<le> unat (max_liquidation_bonus (res_config r)) * (wad div 100) + dv (bonus_protocol_fee b)"
proof -
  let ?c = "res_config r"
  let ?lb = "Decimal_from_percent (liquidation_bonus ?c)"
  let ?mb = "Decimal_from_percent (max_liquidation_bonus ?c)"
  let ?pf = "from_deca_bps (cfg_protocol_liquidation_fee ?c)"
  have lm: "dv ?lb \<le> dv ?mb" using validate_ok(3) [OF cfg] by (simp add: percent_le_iff)
  have cap: "dv ?mb + dv ?pf \<le> 25 * (wad div 100)" using bonus_within_config [OF cfg] by simp
  have big: "25 * (wad div 100) < 2 ^ 192" by (simp add: wad_def)
  show ?thesis
  proof (cases "unhealthy_borrow_value ob = super_unhealthy_borrow_value ob")
    case True
    have "dv ?lb + dv ?pf < 2 ^ 192" using lm cap big by linarith
    then obtain t where t: "try_add ?lb ?pf = Inr t" "dv t = dv ?lb + dv ?pf"
      using dm.add_total by blast
    have "dv t \<le> 25 * (wad div 100)" using t(2) lm cap by linarith
    then have "min t (Decimal_from_percent MAX_BONUS_PCT) = t" by (simp add: min_def dec_le_iff)
    then show ?thesis using True unhealthy t lm
      by (simp add: calculate_bonus_def Let_def)
  next
    case False
    obtain over where over: "try_sub (borrowed_value ob) (unhealthy_borrow_value ob) = Inr over"
      using dm.sub_total [of "unhealthy_borrow_value ob" "borrowed_value ob"] unhealthy
      by (auto simp: dec_less_iff)
    obtain span where span: "try_sub (super_unhealthy_borrow_value ob) (unhealthy_borrow_value ob) = Inr span"
      using dm.sub_total [of "unhealthy_borrow_value ob" "super_unhealthy_borrow_value ob"] super
      by (auto simp: dec_le_iff)
    define weight where
      "weight = min (case try_div over span of Inr w \<Rightarrow> w | Inl _ \<Rightarrow> Decimal_one) Decimal_one"
    have wle: "dv weight \<le> wad" by (simp add: weight_def)
    obtain room where room: "try_sub ?mb ?lb = Inr room" "dv ?mb = dv room + dv ?lb"
      using dm.sub_total [of ?lb ?mb] lm by blast
    have "dv weight * dv room \<le> wad * (255 * (wad div 100))"
      using wle room(2) percent_small [of "max_liquidation_bonus ?c"] by (intro mult_le_mono) simp_all
    also have "\<dots> < 2 ^ 192" by (simp add: wad_def)
    finally obtain x where x: "try_mul weight room = Inr x" using dm.mul_total by blast
    have xle: "dv x \<le> dv room"
    proof -
      have "dv weight * dv room div wad \<le> wad * dv room div wad"
        using wle by (intro div_le_mono mult_le_mono1)
      then show ?thesis using x by (simp add: try_mul_iff)
    qed
    have "dv ?lb + dv x < 2 ^ 192" using xle room(2) cap big by linarith
    then obtain y where y: "try_add ?lb x = Inr y" "dv y = dv ?lb + dv x"
      using dm.add_total by blast
    have "dv y + dv ?pf < 2 ^ 192" using y(2) xle room(2) cap big by linarith
    then obtain t where t: "try_add y ?pf = Inr t" "dv t = dv y + dv ?pf"
      using dm.add_total by blast
    have le: "dv t \<le> 25 * (wad div 100)" using t(2) y(2) xle room(2) cap by linarith
    then have "min t (Decimal_from_percent MAX_BONUS_PCT) = t" by (simp add: min_def dec_le_iff)
    then have "calculate_bonus r ob = Inr \<lparr> total_bonus = t, bonus_protocol_fee = ?pf \<rparr>"
      using False unhealthy over span room(1) x y(1) t(1)
      by (simp add: calculate_bonus_def Let_def flip: weight_def)
    moreover have "dv ?lb + dv ?pf \<le> dv t" "dv t \<le> dv ?mb + dv ?pf"
      using t(2) y(2) xle room(2) by linarith+
    ultimately show ?thesis by simp
  qed
qed

text \<open>
  C35: the liquidation bonus on a validated configuration: an unhealthy obligation always has
  one, at least the base bonus plus the protocol fee, at most the maximum bonus plus the
  protocol fee and so never above 25%; a healthy obligation has none: it is an error, unless
  the obligation is marked closeable, when the bonus is zero.
\<close>
theorem liquidation_bonus_bounds:
  assumes "validate_reserve_config (res_config r) = Inr v"
    and "unhealthy_borrow_value ob \<le> super_unhealthy_borrow_value ob"
  shows "if unhealthy_borrow_value ob \<le> borrowed_value ob then
      \<exists>b. calculate_bonus r ob = Inr b \<and>
        dv (bonus_protocol_fee b) = unat (cfg_protocol_liquidation_fee (res_config r)) * (wad div 1000) \<and>
        unat (liquidation_bonus (res_config r)) * (wad div 100) + dv (bonus_protocol_fee b) \<le> dv (total_bonus b) \<and>
        dv (total_bonus b) \<le> unat (max_liquidation_bonus (res_config r)) * (wad div 100) + dv (bonus_protocol_fee b) \<and>
        total_bonus b \<le> Decimal_from_percent MAX_BONUS_PCT
    else if closeable ob then
      calculate_bonus r ob = Inr \<lparr> total_bonus = Decimal_zero, bonus_protocol_fee = Decimal_zero \<rparr>
    else calculate_bonus r ob = Inl (Custom ObligationHealthy)"
proof (cases "unhealthy_borrow_value ob \<le> borrowed_value ob")
  case True
  then have "\<not> borrowed_value ob < unhealthy_borrow_value ob" by simp
  from unhealthy_bonus [OF assms(1) this assms(2)] obtain b where
    b: "calculate_bonus r ob = Inr b"
      "bonus_protocol_fee b = from_deca_bps (cfg_protocol_liquidation_fee (res_config r))"
      "unat (liquidation_bonus (res_config r)) * (wad div 100) + dv (bonus_protocol_fee b) \<le> dv (total_bonus b)"
      "dv (total_bonus b) \<le> unat (max_liquidation_bonus (res_config r)) * (wad div 100) + dv (bonus_protocol_fee b)"
    by blast
  moreover have "total_bonus b \<le> Decimal_from_percent MAX_BONUS_PCT"
    using bonus_within_config [OF assms(1)] b(2,4) by (simp add: dec_le_iff)
  ultimately show ?thesis using True by auto
next
  case False
  then have "borrowed_value ob < unhealthy_borrow_value ob" by simp
  then show ?thesis using False by (simp add: calculate_bonus_def)
qed

definition demo_obligation :: obligation where
  "demo_obligation = obligation_default\<lparr> borrowed_value := Decimal_from 60,
     unhealthy_borrow_value := Decimal_from 55, super_unhealthy_borrow_value := Decimal_from 65 \<rparr>"

lemma demo_config_valid: "validate_reserve_config (res_config demo_reserve) = Inr ()"
  by (simp add: demo_reserve_def validate_reserve_config_def demo_config_def WAD_def MAX_BONUS_PCT_def
      MAX_PROTOCOL_LIQUIDATION_FEE_DECA_BPS_def MIN_SCALED_PRICE_OFFSET_BPS_def
      MAX_SCALED_PRICE_OFFSET_BPS_def)

theorem liquidation_bonus_bounds_witness:
  "\<exists>b. calculate_bonus demo_reserve demo_obligation = Inr b \<and>
     total_bonus b \<le> Decimal_from_percent MAX_BONUS_PCT"
proof -
  have s: "unhealthy_borrow_value demo_obligation \<le> super_unhealthy_borrow_value demo_obligation"
    and u: "unhealthy_borrow_value demo_obligation \<le> borrowed_value demo_obligation"
    by (simp_all add: demo_obligation_def dec_le_iff)
  from liquidation_bonus_bounds [OF demo_config_valid s] u show ?thesis by auto
qed

section \<open>Liquidation amounts\<close>

lemma try_div_pct: "try_div a b = Inr c \<Longrightarrow> a \<le> b \<Longrightarrow> dv c \<le> wad"
  using dm.quot_le_one [of a b c] by (simp add: dec_le_iff)

lemma try_mul_pct: "try_mul a b = Inr c \<Longrightarrow> dv b \<le> wad \<Longrightarrow> dv c \<le> dv a"
  by (rule dm.mul_fraction_le)

lemma try_ceil_bounds:
  "try_ceil_u64 d = Inr n \<Longrightarrow> dv d \<le> wad * unat n \<and> wad * unat n < dv d + wad"
  by (simp add: try_ceil_u64_iff wad_def) linarith

lemma try_ceil_le: "try_ceil_u64 d = Inr n \<Longrightarrow> dv d \<le> wad * unat m \<Longrightarrow> n \<le> m"
proof -
  assume a: "try_ceil_u64 d = Inr n" "dv d \<le> wad * unat m"
  have "wad * unat n < wad * (unat m + 1)" using try_ceil_bounds [OF a(1)] a(2) by simp
  then have "unat n < unat m + 1" by (simp only: mult_less_cancel1)
  then show ?thesis by (simp add: word_le_nat_alt)
qed

lemma seize_le:
  assumes "try_mul (Decimal_from n) pct = Inr w" and "dv pct \<le> wad" and "try_floor_u64 w = Inr f"
  shows "f \<le> n"
proof -
  have "dv w \<le> wad * unat n" using try_mul_pct [OF assms(1,2)] by simp
  then have "dv w div wad \<le> wad * unat n div wad" by (rule div_le_mono)
  then show ?thesis using assms(3) by (simp add: try_floor_u64_iff word_le_nat_alt)
qed

lemma max_liquidation_le: "max_liquidation_amount ob l = Inr m \<Longrightarrow> dv m \<le> dv (ol_borrowed_amount_wads l)"
proof -
  assume "max_liquidation_amount ob l = Inr m"
  then obtain v pct where
    "try_div (min (min v (ol_market_value l)) (Decimal_from MAX_LIQUIDATABLE_VALUE_AT_ONCE)) (ol_market_value l) = Inr pct"
    and m: "try_mul (ol_borrowed_amount_wads l) pct = Inr m"
    by (auto simp: max_liquidation_amount_def and_then_Inr_iff Let_def)
  then have "dv pct \<le> wad" by (elim try_div_pct) (simp add: min.coboundedI1)
  with m show ?thesis by (rule try_mul_pct)
qed

text \<open>What a liquidation settles and seizes, against a cap on the debt and the deposit.\<close>

definition liquidation_ok ::
  "decimal \<Rightarrow> u64 \<Rightarrow> calculate_liquidation_result \<Rightarrow> bool" where
  "liquidation_ok cap dep res \<longleftrightarrow>
     cl_settle_amount res \<le> cap \<and> dv (cl_settle_amount res) \<le> wad * unat (cl_repay_amount res) \<and>
     wad * unat (cl_repay_amount res) < dv (cl_settle_amount res) + wad \<and>
     cl_withdraw_amount res \<le> dep"

lemma liquidation_okI:
  "try_ceil_u64 s = Inr n \<Longrightarrow> s \<le> cap \<Longrightarrow> w \<le> dep \<Longrightarrow>
     liquidation_ok cap dep \<lparr> cl_settle_amount = s, cl_repay_amount = n, cl_withdraw_amount = w \<rparr>"
  using try_ceil_bounds [of s n] by (simp add: liquidation_ok_def)

lemma liquidation_ok_mono:
  "liquidation_ok cap dep res \<Longrightarrow> dep \<le> dep' \<Longrightarrow> liquidation_ok cap dep' res"
  by (auto simp: liquidation_ok_def)

lemma take_all_ok: "take_all c s = Inr res \<Longrightarrow> s \<le> cap \<Longrightarrow> liquidation_ok cap (deposited_amount c) res"
  by (auto simp: take_all_def and_then_Inr_iff intro: liquidation_okI)

lemma take_all_reduced_ok:
  assumes "take_all_reduced c s lv = Inr res" and "oc_market_value c < lv" and "s \<le> cap"
  shows "liquidation_ok cap (deposited_amount c) res"
proof -
  from assms(1) obtain p s' where p: "try_div (oc_market_value c) lv = Inr p" and
    s': "try_mul s p = Inr s'" and t: "take_all c s' = Inr res"
    by (auto simp: take_all_reduced_def and_then_Inr_iff)
  have "dv p \<le> wad" using try_div_pct [OF p] assms(2) by simp
  then have "s' \<le> cap" using try_mul_pct [OF s'] assms(3) by (simp add: dec_le_iff)
  with t show ?thesis by (rule take_all_ok)
qed

lemma dust_ok:
  assumes "liquidate_dust l c br = Inr res"
  shows "liquidation_ok (ol_borrowed_amount_wads l) (max (deposited_amount c) 1) res"
proof -
  let ?s = "ol_borrowed_amount_wads l"
  from assms obtain lv where lv: "try_mul (ol_market_value l) br = Inr lv"
    by (auto simp: liquidate_dust_def and_then_Inr_iff)
  consider "lv > oc_market_value c" | "lv = oc_market_value c" | "lv < oc_market_value c"
    by (rule linorder_cases)
  then show ?thesis
  proof cases
    case 1
    then have "take_all_reduced c ?s lv = Inr res" using assms lv by (simp add: liquidate_dust_def)
    from take_all_reduced_ok [OF this 1 order.refl] show ?thesis by (rule liquidation_ok_mono) simp
  next
    case 2
    then have "take_all c ?s = Inr res" using assms lv by (simp add: liquidate_dust_def)
    from take_all_ok [OF this order.refl] show ?thesis by (rule liquidation_ok_mono) simp
  next
    case 3
    then obtain p n w f where p: "try_div lv (oc_market_value c) = Inr p" and n: "try_ceil_u64 ?s = Inr n"
      and w: "try_mul (Decimal_from (deposited_amount c)) p = Inr w" "try_floor_u64 w = Inr f"
      and r: "res = \<lparr> cl_settle_amount = ?s, cl_repay_amount = n, cl_withdraw_amount = max f 1 \<rparr>"
      using assms lv by (auto simp: liquidate_dust_def and_then_Inr_iff split: if_splits)
    have "dv p \<le> wad" using try_div_pct [OF p] 3 by simp
    then have "f \<le> deposited_amount c" using seize_le [OF w(1) _ w(2)] by blast
    then show ?thesis unfolding r by (intro liquidation_okI [OF n]) (simp_all add: max.coboundedI1)
  qed
qed

lemma part_ok:
  assumes "liquidate_part ob l c br cap = Inr res"
  shows "\<exists>m. max_liquidation_amount ob l = Inr m \<and>
     liquidation_ok (min m cap) (deposited_amount c) res"
proof -
  from assms obtain m where m: "max_liquidation_amount ob l = Inr m"
    by (auto simp: liquidate_part_def and_then_Inr_iff)
  let ?s = "min m cap"
  from assms m obtain pct v lv where eqs: "try_div ?s (ol_borrowed_amount_wads l) = Inr pct"
    "try_mul (ol_market_value l) pct = Inr v" "try_mul v br = Inr lv"
    by (auto simp: liquidate_part_def and_then_Inr_iff Let_def)
  note def = assms [unfolded liquidate_part_def Let_def m eqs and_then_simps]
  consider "lv > oc_market_value c" | "lv = oc_market_value c" | "lv < oc_market_value c"
    by (rule linorder_cases)
  then have "liquidation_ok ?s (deposited_amount c) res"
  proof cases
    case 1
    then have "take_all_reduced c ?s lv = Inr res" using def eqs by simp
    from take_all_reduced_ok [OF this 1 order.refl] show ?thesis .
  next
    case 2
    then have "take_all c ?s = Inr res" using def eqs by simp
    from take_all_ok [OF this order.refl] show ?thesis .
  next
    case 3
    then have "\<not> oc_market_value c < lv" "lv \<noteq> oc_market_value c" by auto
    then obtain p n w f where p: "try_div lv (oc_market_value c) = Inr p" and n: "try_ceil_u64 ?s = Inr n"
      and w: "try_mul (Decimal_from (deposited_amount c)) p = Inr w" "try_floor_u64 w = Inr f"
      and r: "res = \<lparr> cl_settle_amount = ?s, cl_repay_amount = n, cl_withdraw_amount = f \<rparr>"
      using def by (auto simp: and_then_Inr_iff)
    have "dv p \<le> wad" using try_div_pct [OF p] 3 by simp
    then have "f \<le> deposited_amount c" using seize_le [OF w(1) _ w(2)] by blast
    then show ?thesis unfolding r by (intro liquidation_okI [OF n]) simp_all
  qed
  with m show ?thesis by blast
qed

text \<open>
  C14: the amounts of a liquidation: it settles no more than the debt, the tokens repaid are
  the settled amount rounded up, and it never seizes more collateral than is deposited
  (one unit of an empty deposit apart); on a borrow worth more than one it also stays
  within the close factor's amount and the requested amount.
\<close>
theorem liquidation_amounts_bounded:
  assumes "calculate_liquidation a ob l c b = Inr res"
  shows "cl_settle_amount res \<le> ol_borrowed_amount_wads l \<and>
    dv (cl_settle_amount res) \<le> wad * unat (cl_repay_amount res) \<and>
    wad * unat (cl_repay_amount res) < dv (cl_settle_amount res) + wad \<and>
    cl_withdraw_amount res \<le> max (deposited_amount c) 1 \<and>
    (Decimal_one < ol_market_value l \<longrightarrow>
       cl_withdraw_amount res \<le> deposited_amount c \<and> cl_repay_amount res \<le> a \<and>
       (\<exists>m. max_liquidation_amount ob l = Inr m \<and> cl_settle_amount res \<le> m))"
proof (cases "ol_market_value l \<le> Decimal_one")
  case True
  then obtain br where "liquidate_dust l c br = Inr res"
    using assms by (auto simp: calculate_liquidation_def and_then_Inr_iff split: if_splits)
  moreover have "\<not> Decimal_one < ol_market_value l" using True by simp
  ultimately show ?thesis using dust_ok by (simp add: liquidation_ok_def)
next
  case False
  define cap where "cap = (if a = u64_MAX then ol_borrowed_amount_wads l
    else min (Decimal_from a) (ol_borrowed_amount_wads l))"
  obtain br where "liquidate_part ob l c br cap = Inr res"
    using assms False by (auto simp: calculate_liquidation_def and_then_Inr_iff Let_def cap_def split: if_splits)
  from part_ok [OF this] obtain m where m: "max_liquidation_amount ob l = Inr m"
    and ok: "liquidation_ok (min m cap) (deposited_amount c) res" by blast
  let ?s = "cl_settle_amount res"
  have le: "?s \<le> m" "?s \<le> cap" and dep: "cl_withdraw_amount res \<le> deposited_amount c"
    and ceil: "dv ?s \<le> wad * unat (cl_repay_amount res)" "wad * unat (cl_repay_amount res) < dv ?s + wad"
    using ok by (simp_all add: liquidation_ok_def)
  have owed: "?s \<le> ol_borrowed_amount_wads l" using le(1) max_liquidation_le [OF m] by (simp add: dec_le_iff)
  have "cl_repay_amount res \<le> a"
  proof (cases "a = u64_MAX")
    case False
    then have "dv ?s \<le> wad * unat a" using le(2) by (simp add: cap_def dec_le_iff)
    then have "wad * unat (cl_repay_amount res) < wad * (unat a + 1)" using ceil(2) by simp
    then have "unat (cl_repay_amount res) < unat a + 1" by (simp only: mult_less_cancel1)
    then show ?thesis by (simp add: word_le_nat_alt)
  qed simp
  then show ?thesis
    using le dep ceil owed m by (simp add: max.coboundedI1)
qed

definition demo_borrow :: obligation_liquidity where
  "demo_borrow = \<lparr> borrow_reserve = replicate 32 1, ol_cumulative_borrow_rate_wads = Decimal_one,
     ol_borrowed_amount_wads = Decimal_from 100, ol_market_value = Decimal_from 50 \<rparr>"

definition demo_deposit :: obligation_collateral where
  "demo_deposit = \<lparr> deposit_reserve = replicate 32 2, deposited_amount = 1000,
     oc_market_value = Decimal_from 80, oc_attributed_borrow_value = Decimal_zero \<rparr>"

definition demo_bonus :: bonus where
  "demo_bonus = \<lparr> total_bonus = Decimal_from_percent 5, bonus_protocol_fee = Decimal_zero \<rparr>"

lemma demo_liquidation:
  "calculate_liquidation 10 demo_obligation demo_borrow demo_deposit demo_bonus =
     Inr \<lparr> cl_settle_amount = Decimal 10000000000000000000, cl_repay_amount = 10, cl_withdraw_amount = 65 \<rparr>"
proof -
  have m: "max_liquidation_amount demo_obligation demo_borrow = Inr (Decimal 24000000000000000000)"
    by (simp add: max_liquidation_amount_def demo_obligation_def demo_borrow_def Let_def wad_eval
        LIQUIDATION_CLOSE_FACTOR_def MAX_LIQUIDATABLE_VALUE_AT_ONCE_def min_def less_eq_decimal_def)
  have d: "ol_borrowed_amount_wads demo_borrow = Decimal 100000000000000000000"
    "ol_market_value demo_borrow = Decimal 50000000000000000000"
    "oc_market_value demo_deposit = Decimal 80000000000000000000" "deposited_amount demo_deposit = 1000"
    "total_bonus demo_bonus = Decimal 50000000000000000"
    by (simp_all add: demo_borrow_def demo_deposit_def demo_bonus_def wad_eval Decimal_from_percent_def)
  show ?thesis
    by (simp add: calculate_liquidation_def liquidate_part_def m d Let_def wad_eval less_eq_decimal_def
        less_decimal_def min_def Decimal_from_percent_def MAX_BONUS_PCT_def try_ceil_u64_def try_floor_u64_def)
qed

theorem liquidation_amounts_bounded_witness:
  "\<exists>res. calculate_liquidation 10 demo_obligation demo_borrow demo_deposit demo_bonus = Inr res \<and>
     cl_settle_amount res \<le> ol_borrowed_amount_wads demo_borrow"
  using liquidation_amounts_bounded [OF demo_liquidation] demo_liquidation by blast

section \<open>The vectors of an obligation\<close>

definition ob_inv :: "obligation \<Rightarrow> bool" where
  "ob_inv ob \<longleftrightarrow> distinct (map deposit_reserve (deposits ob)) \<and>
     distinct (map borrow_reserve (borrows ob)) \<and>
     length (deposits ob) + length (borrows ob) \<le> MAX_OBLIGATION_RESERVES"

inductive ob_step :: "obligation \<Rightarrow> obligation \<Rightarrow> bool" where
  add_collateral: "find_or_add_collateral_to_deposits ob res = Inr (i, ob') \<Longrightarrow> ob_step ob ob'"
| add_liquidity: "find_or_add_liquidity_to_borrows ob res cum = Inr (i, ob') \<Longrightarrow> ob_step ob ob'"
| deposit: "i < length (deposits ob) \<Longrightarrow> oc_deposit (deposits ob ! i) n = Inr c \<Longrightarrow>
    ob_step ob (ob\<lparr>deposits := (deposits ob)[i := c]\<rparr>)"
| borrow: "i < length (borrows ob) \<Longrightarrow> ol_borrow (borrows ob ! i) d = Inr l \<Longrightarrow>
    ob_step ob (ob\<lparr>borrows := (borrows ob)[i := l]\<rparr>)"
| accrue: "i < length (borrows ob) \<Longrightarrow> ol_accrue_interest (borrows ob ! i) d = Inr l \<Longrightarrow>
    ob_step ob (ob\<lparr>borrows := (borrows ob)[i := l]\<rparr>)"
| repay: "ob_repay ob d i = Inr (Inr ob') \<Longrightarrow> ob_step ob ob'"
| withdraw: "ob_withdraw ob n i = Inr (Inr ob') \<Longrightarrow> ob_step ob ob'"

lemma find_index_by_None: "find_index_by P xs = None \<longleftrightarrow> (\<forall>x\<in>set xs. \<not> P x)"
  by (force simp: find_index_by_def find_None_iff in_set_conv_nth)

lemma find_index_by_Some: "find_index_by P xs = Some i \<Longrightarrow> i < length xs \<and> P (xs ! i)"
  by (auto simp: find_index_by_def find_Some_iff)

lemma map_vec_remove: "map f (vec_remove i xs) = vec_remove i (map f xs)"
  by (simp add: vec_remove_def take_map drop_map)

lemma distinct_vec_remove: "distinct xs \<Longrightarrow> distinct (vec_remove i xs)"
  unfolding vec_remove_def
  by (metis distinct_append distinct_drop distinct_take id_take_nth_drop set_drop_subset_set_drop
      set_take_disj_set_drop_if_distinct le_SucI order_refl)

lemma length_vec_remove: "i < length xs \<Longrightarrow> Suc (length (vec_remove i xs)) = length xs"
  by (simp add: vec_remove_def)

lemma map_update_same: "i < length xs \<Longrightarrow> f y = f (xs ! i) \<Longrightarrow> map f (xs[i := y]) = map f xs"
  by (simp add: map_update list_update_same_conv)

lemma entry_reserves:
  "oc_deposit c n = Inr c' \<Longrightarrow> deposit_reserve c' = deposit_reserve c"
  "oc_withdraw c n = Inr c' \<Longrightarrow> deposit_reserve c' = deposit_reserve c"
  "ol_borrow l d = Inr l' \<Longrightarrow> borrow_reserve l' = borrow_reserve l"
  "ol_repay l d = Inr l' \<Longrightarrow> borrow_reserve l' = borrow_reserve l"
  "ol_accrue_interest l d = Inr l' \<Longrightarrow> borrow_reserve l' = borrow_reserve l"
  by (auto simp: oc_deposit_def oc_withdraw_def ol_borrow_def ol_repay_def ol_accrue_interest_def
      and_then_Inr_iff split: if_splits)

lemma ob_inv_update_deposit:
  "ob_inv ob \<Longrightarrow> i < length (deposits ob) \<Longrightarrow> deposit_reserve c = deposit_reserve (deposits ob ! i) \<Longrightarrow>
     ob_inv (ob\<lparr>deposits := (deposits ob)[i := c]\<rparr>)"
  by (simp add: ob_inv_def map_update_same)

lemma ob_inv_update_borrow:
  "ob_inv ob \<Longrightarrow> i < length (borrows ob) \<Longrightarrow> borrow_reserve l = borrow_reserve (borrows ob ! i) \<Longrightarrow>
     ob_inv (ob\<lparr>borrows := (borrows ob)[i := l]\<rparr>)"
  by (simp add: ob_inv_def map_update_same)

lemma ob_inv_remove:
  "ob_inv ob \<Longrightarrow> i < length (deposits ob) \<Longrightarrow> ob_inv (ob\<lparr>deposits := vec_remove i (deposits ob)\<rparr>)"
  "ob_inv ob \<Longrightarrow> i < length (borrows ob) \<Longrightarrow> ob_inv (ob\<lparr>borrows := vec_remove i (borrows ob)\<rparr>)"
  using length_vec_remove [of i "deposits ob"] length_vec_remove [of i "borrows ob"]
  by (simp_all add: ob_inv_def map_vec_remove distinct_vec_remove)

lemma find_or_add_collateral_Inr:
  assumes "find_or_add_collateral_to_deposits ob res = Inr (i, ob')"
  shows "i < length (deposits ob') \<and> deposit_reserve (deposits ob' ! i) = res \<and> borrows ob' = borrows ob"
    and "ob_inv ob \<Longrightarrow> ob_inv ob'"
proof -
  consider "find_collateral_index_in_deposits ob res = Some i" "ob' = ob"
    | "find_collateral_index_in_deposits ob res = None"
      "length (deposits ob) + length (borrows ob) < MAX_OBLIGATION_RESERVES" "i = length (deposits ob)"
      "ob' = ob\<lparr>deposits := deposits ob @ [obligation_collateral_new res]\<rparr>"
    using assms by (auto simp: find_or_add_collateral_to_deposits_def split: option.splits if_splits)
  then show "i < length (deposits ob') \<and> deposit_reserve (deposits ob' ! i) = res \<and> borrows ob' = borrows ob"
    and "ob_inv ob \<Longrightarrow> ob_inv ob'"
    by (cases; force simp: find_collateral_index_in_deposits_def find_index_by_None
        obligation_collateral_new_def ob_inv_def dest: find_index_by_Some)+
qed

lemma find_or_add_liquidity_Inr:
  assumes "find_or_add_liquidity_to_borrows ob res cum = Inr (i, ob')"
  shows "i < length (borrows ob') \<and> borrow_reserve (borrows ob' ! i) = res \<and> deposits ob' = deposits ob"
    and "ob_inv ob \<Longrightarrow> ob_inv ob'"
proof -
  consider "find_liquidity_index_in_borrows ob res = Some i" "ob' = ob"
    | "find_liquidity_index_in_borrows ob res = None"
      "length (deposits ob) + length (borrows ob) < MAX_OBLIGATION_RESERVES" "i = length (borrows ob)"
      "ob' = ob\<lparr>borrows := borrows ob @ [obligation_liquidity_new res cum]\<rparr>"
    using assms by (auto simp: find_or_add_liquidity_to_borrows_def split: option.splits if_splits)
  then show "i < length (borrows ob') \<and> borrow_reserve (borrows ob' ! i) = res \<and> deposits ob' = deposits ob"
    and "ob_inv ob \<Longrightarrow> ob_inv ob'"
    by (cases; force simp: find_liquidity_index_in_borrows_def find_index_by_None
        obligation_liquidity_new_def ob_inv_def dest: find_index_by_Some)+
qed

lemma ob_repay_inv: "ob_repay ob d i = Inr (Inr ob') \<Longrightarrow> ob_inv ob \<Longrightarrow> ob_inv ob'"
  by (auto simp: ob_repay_def and_then_Inr_iff ob_inv_remove ob_inv_update_borrow entry_reserves
      split: if_splits)

lemma ob_withdraw_inv: "ob_withdraw ob n i = Inr (Inr ob') \<Longrightarrow> ob_inv ob \<Longrightarrow> ob_inv ob'"
  by (auto simp: ob_withdraw_def and_then_Inr_iff ob_inv_remove ob_inv_update_deposit entry_reserves
      split: if_splits)

lemma ob_step_inv: "ob_step ob ob' \<Longrightarrow> ob_inv ob \<Longrightarrow> ob_inv ob'"
  by (induction rule: ob_step.induct)
     (auto intro: find_or_add_collateral_Inr find_or_add_liquidity_Inr ob_repay_inv ob_withdraw_inv
        ob_inv_update_deposit ob_inv_update_borrow simp: entry_reserves)

text \<open>When an entry is found or refused: a full obligation refuses exactly the reserves it has no entry for.\<close>

lemma find_or_add_full_iff:
  "find_or_add_collateral_to_deposits ob res = Inl (Custom ObligationReserveLimit) \<longleftrightarrow>
     10 \<le> length (deposits ob) + length (borrows ob) \<and> res \<notin> deposit_reserve ` set (deposits ob)"
  "find_or_add_liquidity_to_borrows ob res cum = Inl (Custom ObligationReserveLimit) \<longleftrightarrow>
     10 \<le> length (deposits ob) + length (borrows ob) \<and> res \<notin> borrow_reserve ` set (borrows ob)"
  by (force simp: find_or_add_collateral_to_deposits_def find_or_add_liquidity_to_borrows_def
      find_collateral_index_in_deposits_def find_liquidity_index_in_borrows_def MAX_OBLIGATION_RESERVES_def
      find_index_by_None dest: find_index_by_Some split: option.splits)+

text \<open>
  C36: an obligation opened without entries keeps, through any sequence of adding,
  depositing, borrowing, accruing, repaying and withdrawing, at most ten deposits and
  borrows together, no two deposits of one reserve and no two borrows of one reserve; one reserve
  may have both a deposit and a borrow.  A new entry is refused with the reserve limit error exactly
  when there are ten entries and none of its list is for the reserve.
\<close>
theorem obligation_reserves_unique_and_bounded:
  assumes "ob_step\<^sup>*\<^sup>* (obligation_new p) ob" and "iop_deposits p = []" and "iop_borrows p = []"
  shows "distinct (map deposit_reserve (deposits ob)) \<and> distinct (map borrow_reserve (borrows ob)) \<and>
     length (deposits ob) + length (borrows ob) \<le> 10 \<and>
     (find_or_add_collateral_to_deposits ob res = Inl (Custom ObligationReserveLimit) \<longleftrightarrow>
        length (deposits ob) + length (borrows ob) = 10 \<and> res \<notin> deposit_reserve ` set (deposits ob)) \<and>
     (find_or_add_liquidity_to_borrows ob res cum = Inl (Custom ObligationReserveLimit) \<longleftrightarrow>
        length (deposits ob) + length (borrows ob) = 10 \<and> res \<notin> borrow_reserve ` set (borrows ob))"
proof -
  have "ob_inv (obligation_new p)"
    by (simp add: ob_inv_def obligation_new_def obligation_init_def assms(2,3))
  with assms(1) have "ob_inv ob" by (induction rule: rtranclp_induct) (auto intro: ob_step_inv)
  then show ?thesis unfolding find_or_add_full_iff by (auto simp: ob_inv_def MAX_OBLIGATION_RESERVES_def)
qed

definition demo_open :: init_obligation_params where
  "demo_open = \<lparr> iop_current_slot = 7, iop_lending_market = replicate 32 3, iop_owner = replicate 32 4,
     iop_deposits = [], iop_borrows = [] \<rparr>"

text \<open>An obligation that deposits into and borrows from one and the same reserve is reached.\<close>

theorem obligation_reserves_unique_and_bounded_witness:
  "\<exists>ob. ob_step\<^sup>*\<^sup>* (obligation_new demo_open) ob \<and> map deposit_reserve (deposits ob) = [replicate 32 1] \<and>
     map borrow_reserve (borrows ob) = [replicate 32 1] \<and>
     find_or_add_collateral_to_deposits ob (replicate 32 2) \<noteq> Inl (Custom ObligationReserveLimit)"
proof -
  let ?c = "obligation_collateral_new (replicate 32 1)" and ?l = "obligation_liquidity_new (replicate 32 1) Decimal_one"
  let ?ob1 = "(obligation_new demo_open)\<lparr>deposits := [?c]\<rparr>"
  let ?ob = "?ob1\<lparr>borrows := [?l]\<rparr>"
  have e: "deposits (obligation_new demo_open) = []" "borrows (obligation_new demo_open) = []"
    by (simp_all add: obligation_new_def obligation_init_def demo_open_def)
  have "find_or_add_collateral_to_deposits (obligation_new demo_open) (replicate 32 1) = Inr (0, ?ob1)"
    and "find_or_add_liquidity_to_borrows ?ob1 (replicate 32 1) Decimal_one = Inr (0, ?ob)"
    by (simp_all add: find_or_add_collateral_to_deposits_def find_collateral_index_in_deposits_def
        find_or_add_liquidity_to_borrows_def find_liquidity_index_in_borrows_def
        find_index_by_def MAX_OBLIGATION_RESERVES_def e)
  then have "ob_step (obligation_new demo_open) ?ob1" "ob_step ?ob1 ?ob" by (auto intro: ob_step.intros)
  then have r: "ob_step\<^sup>*\<^sup>* (obligation_new demo_open) ?ob" by (meson converse_rtranclp_into_rtranclp r_into_rtranclp)
  have "iop_deposits demo_open = []" "iop_borrows demo_open = []" by (simp_all add: demo_open_def)
  from obligation_reserves_unique_and_bounded [OF r this, of "replicate 32 2"] r show ?thesis
    by (intro exI [of _ ?ob]) (simp add: obligation_collateral_new_def obligation_liquidity_new_def)
qed

text \<open>
  Interest on an obligation's borrow: a cumulative rate below the recorded one is
  refused; otherwise the debt never falls, the recorded rate becomes the given one, and an
  unchanged rate changes nothing.
\<close>
lemma obligation_interest_monotone:
  "(cum < ol_cumulative_borrow_rate_wads l \<longleftrightarrow> ol_accrue_interest l cum = Inl (Custom NegativeInterestRate)) \<and>
   (ol_accrue_interest l cum = Inr l' \<longrightarrow>
      ol_borrowed_amount_wads l \<le> ol_borrowed_amount_wads l' \<and> ol_cumulative_borrow_rate_wads l' = cum \<and>
      (cum = ol_cumulative_borrow_rate_wads l \<longrightarrow> l' = l))"
proof -
  let ?old = "ol_cumulative_borrow_rate_wads l"
  have "ol_accrue_interest l cum = Inl (Custom NegativeInterestRate) \<longleftrightarrow> cum < ?old"
    by (auto simp: ol_accrue_interest_def and_then_Inl_iff try_mul_rate_def Rate_try_from_def
        to_scaled_val_def try_narrow_def dest!: try_errors split: if_splits)
  moreover have "ol_borrowed_amount_wads l \<le> ol_borrowed_amount_wads l'"
    if acc: "ol_accrue_interest l cum = Inr l'" "cum \<noteq> ?old"
  proof -
    from acc have lt: "?old < cum" by (auto simp: ol_accrue_interest_def split: if_splits)
    from acc obtain q r b where q: "try_div cum ?old = Inr q" "Rate_try_from q = Inr r"
      "try_mul (ol_borrowed_amount_wads l) (Decimal_from_Rate r) = Inr b"
      "l' = l\<lparr>ol_borrowed_amount_wads := b, ol_cumulative_borrow_rate_wads := cum\<rparr>"
      by (auto simp: ol_accrue_interest_def and_then_Inr_iff try_mul_rate_def split: if_splits)
    have "wad \<le> dv q" using dm.quot_ge_one [OF q(1)] lt by (simp add: dec_less_iff)
    then have "wad \<le> dv (Decimal_from_Rate r)" using q(2) by (simp add: Rate_try_from_iff)
    from dm.mul_factor_ge [OF q(3) this] show ?thesis by (simp add: q(4) dec_le_iff)
  qed
  moreover have "ol_cumulative_borrow_rate_wads l' = cum \<and> (cum = ?old \<longrightarrow> l' = l)"
    if "ol_accrue_interest l cum = Inr l'"
    using that by (auto simp: ol_accrue_interest_def and_then_Inr_iff split: if_splits)
  ultimately show ?thesis by (metis order_refl)
qed

lemma obligation_interest_monotone_witness:
  "ol_accrue_interest demo_borrow Decimal_zero = Inl (Custom NegativeInterestRate) \<and>
   (\<exists>l'. ol_accrue_interest demo_borrow (Decimal 1500000000000000000) = Inr l' \<and>
      ol_borrowed_amount_wads demo_borrow \<le> ol_borrowed_amount_wads l')"
proof -
  have "\<exists>l'. ol_accrue_interest demo_borrow (Decimal 1500000000000000000) = Inr l'"
    by (simp add: ol_accrue_interest_def demo_borrow_def wad_eval less_decimal_def)
  then obtain l' where l': "ol_accrue_interest demo_borrow (Decimal 1500000000000000000) = Inr l'" by blast
  have "Decimal_zero < ol_cumulative_borrow_rate_wads demo_borrow"
    by (simp add: demo_borrow_def dec_less_iff)
  then show ?thesis
    using l' obligation_interest_monotone [of Decimal_zero demo_borrow l']
      obligation_interest_monotone [of "Decimal 1500000000000000000" demo_borrow l'] by blast
qed

end
