(* ===== verification/SolendObligationCodec.thy ===== *)
theory SolendObligationCodec
  imports SolendMarket SolendObligationProps
begin

text \<open>
  The byte layout of \<open>Obligation\<close> (\<open>impl Pack for Obligation\<close> of
  \<open>patches/solend-sdk/src/state/obligation.rs\<close>): 17 fixed fields and a flat area of 1096 bytes
  that holds the deposits (88 bytes each) and then the borrows (112 bytes each).  The loops
  cut the flat area entry by entry and panic when it is exhausted.
\<close>

definition OBLIGATION_COLLATERAL_LEN :: nat where "OBLIGATION_COLLATERAL_LEN = 88"
definition OBLIGATION_LIQUIDITY_LEN :: nat where "OBLIGATION_LIQUIDITY_LEN = 112"
definition OBLIGATION_LEN :: nat where "OBLIGATION_LEN = 1300"

definition flat_len :: nat where
  "flat_len = OBLIGATION_COLLATERAL_LEN + OBLIGATION_LIQUIDITY_LEN * (MAX_OBLIGATION_RESERVES - 1)"

definition obligation_sizes :: "nat list" where
  "obligation_sizes = [1, 8, 1, 32, 32, 16, 16, 16, 16, 16, 1, 16, 16, 1, 14, 1, 1, flat_len]"

section \<open>Entries\<close>

definition pack_collateral :: "obligation_collateral \<Rightarrow> bytes \<Rightarrow> panic + bytes" where
  "pack_collateral c old =
     and_then (pack_decimal (oc_market_value c)) (\<lambda>mv.
     and_then (pack_decimal (oc_attributed_borrow_value c)) (\<lambda>abv.
       Inr (concat [deposit_reserve c, to_le_bytes (deposited_amount c), mv, abv,
              array_refs [32, 8, 16, 16, 16] old ! 4])))"

definition unpack_collateral :: "bytes \<Rightarrow> obligation_collateral" where
  "unpack_collateral src =
     (let f = array_refs [32, 8, 16, 16, 16] src
      in \<lparr> deposit_reserve = f ! 0, deposited_amount = from_le_bytes (f ! 1),
           oc_market_value = unpack_decimal (f ! 2), oc_attributed_borrow_value = unpack_decimal (f ! 3) \<rparr>)"

definition pack_liquidity :: "obligation_liquidity \<Rightarrow> bytes \<Rightarrow> panic + bytes" where
  "pack_liquidity l old =
     and_then (pack_decimal (ol_cumulative_borrow_rate_wads l)) (\<lambda>cum.
     and_then (pack_decimal (ol_borrowed_amount_wads l)) (\<lambda>b.
     and_then (pack_decimal (ol_market_value l)) (\<lambda>mv.
       Inr (concat [borrow_reserve l, cum, b, mv, array_refs [32, 16, 16, 16, 32] old ! 4]))))"

definition unpack_liquidity_entry :: "bytes \<Rightarrow> obligation_liquidity" where
  "unpack_liquidity_entry src =
     (let f = array_refs [32, 16, 16, 16, 32] src
      in \<lparr> borrow_reserve = f ! 0, ol_cumulative_borrow_rate_wads = unpack_decimal (f ! 1),
           ol_borrowed_amount_wads = unpack_decimal (f ! 2), ol_market_value = unpack_decimal (f ! 3) \<rparr>)"

text \<open>
  The loops over the flat area.  The rest of the area after the entries is returned, so that the
  borrows continue where the deposits end.
\<close>

fun pack_entries ::
  "nat \<Rightarrow> ('a \<Rightarrow> bytes \<Rightarrow> panic + bytes) \<Rightarrow> 'a list \<Rightarrow> bytes \<Rightarrow> panic + (bytes \<times> bytes)" where
  "pack_entries n pk [] flat = Inr ([], flat)"
| "pack_entries n pk (x # xs) flat =
     and_then (array_ref n flat) (\<lambda>old.
     and_then (pk x old) (\<lambda>new.
     and_then (pack_entries n pk xs (drop n flat)) (\<lambda>(out, rest). Inr (new @ out, rest))))"

fun unpack_entries :: "nat \<Rightarrow> (bytes \<Rightarrow> 'a) \<Rightarrow> nat \<Rightarrow> bytes \<Rightarrow> panic + ('a list \<times> bytes)" where
  "unpack_entries n up 0 flat = Inr ([], flat)"
| "unpack_entries n up (Suc k) flat =
     and_then (array_ref n flat) (\<lambda>src.
     and_then (unpack_entries n up k (drop n flat)) (\<lambda>(xs, rest). Inr (up src # xs, rest)))"

section \<open>Obligation\<close>

text \<open>\<open>u8::try_from(len).unwrap()\<close>\<close>

definition u8_len :: "nat \<Rightarrow> panic + u8" where
  "u8_len n = (if n < 256 then Inr (of_nat n) else Inl Panic)"

definition obligation_fields ::
  "obligation \<Rightarrow> bytes \<Rightarrow> bytes \<Rightarrow> bytes \<Rightarrow> bytes \<Rightarrow> bytes \<Rightarrow> bytes \<Rightarrow> bytes \<Rightarrow> bytes \<Rightarrow> u8 \<Rightarrow> u8 \<Rightarrow> bytes
     \<Rightarrow> bytes list" where
  "obligation_fields ob dv_bs bv bvub abv ubv subv uwbv pad dn bn flat = [
     to_le_bytes (ob_version ob), to_le_bytes (lu_slot (ob_last_update ob)),
     pack_bool (lu_stale (ob_last_update ob)), ob_lending_market ob, ob_owner ob,
     dv_bs, bv, abv, ubv, bvub, pack_bool (borrowing_isolated_asset ob), subv, uwbv,
     pack_bool (closeable ob), pad, to_le_bytes dn, to_le_bytes bn, flat]"

definition obligation_pack :: "obligation \<Rightarrow> bytes \<Rightarrow> panic + bytes" where
  "obligation_pack ob dst =
     and_then (array_ref OBLIGATION_LEN dst) (\<lambda>old.
     let f = array_refs obligation_sizes old
     in and_then (pack_decimal (deposited_value ob)) (\<lambda>dv_bs.
        and_then (pack_decimal (borrowed_value ob)) (\<lambda>bv.
        and_then (pack_decimal (borrowed_value_upper_bound ob)) (\<lambda>bvub.
        and_then (pack_decimal (allowed_borrow_value ob)) (\<lambda>abv.
        and_then (pack_decimal (unhealthy_borrow_value ob)) (\<lambda>ubv.
        and_then (pack_decimal (super_unhealthy_borrow_value ob)) (\<lambda>subv.
        and_then (pack_decimal (unweighted_borrowed_value ob)) (\<lambda>uwbv.
        and_then (u8_len (length (deposits ob))) (\<lambda>dn.
        and_then (u8_len (length (borrows ob))) (\<lambda>bn.
        and_then (pack_entries OBLIGATION_COLLATERAL_LEN pack_collateral (deposits ob) (f ! 17)) (\<lambda>(ds, rest).
        and_then (pack_entries OBLIGATION_LIQUIDITY_LEN pack_liquidity (borrows ob) rest) (\<lambda>(bs, rest').
          Inr (concat (obligation_fields ob dv_bs bv bvub abv ubv subv uwbv (f ! 14) dn bn (ds @ bs @ rest'))
            @ drop OBLIGATION_LEN dst)))))))))))))"

definition obligation_unpack :: "bytes \<Rightarrow> panic + (program_error + obligation)" where
  "obligation_unpack src =
     and_then (array_ref OBLIGATION_LEN src) (\<lambda>input.
     let f = array_refs obligation_sizes input;
         version = from_le_bytes (f ! 0) :: u8
     in if version > PROGRAM_VERSION then Inr (Inl InvalidAccountData)
        else
          and_then (unpack_entries OBLIGATION_COLLATERAL_LEN unpack_collateral
              (unat (from_le_bytes (f ! 15) :: u8)) (f ! 17)) (\<lambda>(ds, rest).
          and_then (unpack_entries OBLIGATION_LIQUIDITY_LEN unpack_liquidity_entry
              (unat (from_le_bytes (f ! 16) :: u8)) rest) (\<lambda>(bs, _).
            Inr (and_then (unpack_bool (f ! 2)) (\<lambda>stale.
              and_then (unpack_bool (f ! 10)) (\<lambda>isolated.
              and_then (unpack_bool (f ! 13)) (\<lambda>close.
                Inr \<lparr> ob_version = version,
                      ob_last_update = \<lparr> lu_slot = from_le_bytes (f ! 1), lu_stale = stale \<rparr>,
                      ob_lending_market = f ! 3, ob_owner = f ! 4, deposits = ds, borrows = bs,
                      deposited_value = unpack_decimal (f ! 5), borrowed_value = unpack_decimal (f ! 6),
                      unweighted_borrowed_value = unpack_decimal (f ! 12),
                      borrowed_value_upper_bound = unpack_decimal (f ! 9),
                      allowed_borrow_value = unpack_decimal (f ! 7),
                      unhealthy_borrow_value = unpack_decimal (f ! 8),
                      super_unhealthy_borrow_value = unpack_decimal (f ! 11),
                      borrowing_isolated_asset = isolated, closeable = close \<rparr>)))))))"

section \<open>Entries round-trip\<close>

definition collateral_valid :: "obligation_collateral \<Rightarrow> bool" where
  "collateral_valid c \<longleftrightarrow> length (deposit_reserve c) = 32 \<and> fits (oc_market_value c) \<and>
     fits (oc_attributed_borrow_value c)"

definition liquidity_entry_valid :: "obligation_liquidity \<Rightarrow> bool" where
  "liquidity_entry_valid l \<longleftrightarrow> length (borrow_reserve l) = 32 \<and>
     fits (ol_cumulative_borrow_rate_wads l) \<and> fits (ol_borrowed_amount_wads l) \<and> fits (ol_market_value l)"

lemma nth_array_refs_length:
  "sum_list ns = length bs \<Longrightarrow> k < length ns \<Longrightarrow> length (array_refs ns bs ! k) = ns ! k"
  using lengths_array_refs [of ns bs] by (metis length_array_refs nth_map order_refl)

lemma collateral_roundtrip:
  assumes "collateral_valid c" and "length old = OBLIGATION_COLLATERAL_LEN"
  shows "\<exists>new. pack_collateral c old = Inr new \<and> length new = OBLIGATION_COLLATERAL_LEN \<and>
           unpack_collateral new = c"
proof -
  obtain mv abv where d: "pack_decimal (oc_market_value c) = Inr mv"
    "pack_decimal (oc_attributed_borrow_value c) = Inr abv"
    using assms(1) by (auto simp: collateral_valid_def dest!: pack_decimal_ok)
  let ?pad = "array_refs [32, 8, 16, 16, 16] old ! 4"
  let ?fs = "[deposit_reserve c, to_le_bytes (deposited_amount c), mv, abv, ?pad]"
  have "length ?pad = 16"
    using nth_array_refs_length [of "[32, 8, 16, 16, 16]" old 4] assms(2)
    by (simp add: OBLIGATION_COLLATERAL_LEN_def)
  then have len: "map length ?fs = [32, 8, 16, 16, 16]"
    using assms d by (simp add: collateral_valid_def pack_decimal_Inr(1))
  have "unpack_collateral (concat ?fs) = c"
    unfolding unpack_collateral_def array_refs_concat' [OF len] Let_def
    using d by (simp add: pack_decimal_Inr(2))
  then show ?thesis
    using d length_concat_fields [OF len]
    by (simp add: pack_collateral_def OBLIGATION_COLLATERAL_LEN_def del: concat.simps)
qed

lemma liquidity_roundtrip:
  assumes "liquidity_entry_valid l" and "length old = OBLIGATION_LIQUIDITY_LEN"
  shows "\<exists>new. pack_liquidity l old = Inr new \<and> length new = OBLIGATION_LIQUIDITY_LEN \<and>
           unpack_liquidity_entry new = l"
proof -
  obtain cum b mv where d: "pack_decimal (ol_cumulative_borrow_rate_wads l) = Inr cum"
    "pack_decimal (ol_borrowed_amount_wads l) = Inr b" "pack_decimal (ol_market_value l) = Inr mv"
    using assms(1) by (auto simp: liquidity_entry_valid_def dest!: pack_decimal_ok)
  let ?pad = "array_refs [32, 16, 16, 16, 32] old ! 4"
  let ?fs = "[borrow_reserve l, cum, b, mv, ?pad]"
  have "length ?pad = 32"
    using nth_array_refs_length [of "[32, 16, 16, 16, 32]" old 4] assms(2)
    by (simp add: OBLIGATION_LIQUIDITY_LEN_def)
  then have len: "map length ?fs = [32, 16, 16, 16, 32]"
    using assms d by (simp add: liquidity_entry_valid_def pack_decimal_Inr(1))
  have "unpack_liquidity_entry (concat ?fs) = l"
    unfolding unpack_liquidity_entry_def array_refs_concat' [OF len] Let_def
    using d by (simp add: pack_decimal_Inr(2))
  then show ?thesis
    using d length_concat_fields [OF len]
    by (simp add: pack_liquidity_def OBLIGATION_LIQUIDITY_LEN_def del: concat.simps)
qed

lemma entries_roundtrip:
  assumes entry: "\<And>x old. P x \<Longrightarrow> length old = n \<Longrightarrow>
      \<exists>new. pk x old = Inr new \<and> length new = n \<and> up new = x"
    and "list_all P xs" and "n * length xs \<le> length flat"
  shows "\<exists>out. pack_entries n pk xs flat = Inr (out, drop (n * length xs) flat) \<and>
     length out = n * length xs \<and>
     (\<forall>rest. unpack_entries n up (length xs) (out @ rest) = Inr (xs, rest))"
  using assms(2,3)
proof (induction xs arbitrary: flat)
  case Nil
  then show ?case by simp
next
  case (Cons x xs)
  have l: "n \<le> length flat" using Cons.prems(2) by simp
  then have "length (take n flat) = n" by simp
  then obtain new where new: "pk x (take n flat) = Inr new" "length new = n" "up new = x"
    using entry [of x "take n flat"] Cons.prems(1) by auto
  have "list_all P xs" "n * length xs \<le> length (drop n flat)" using Cons.prems by auto
  from Cons.IH [OF this] obtain out where
    out: "pack_entries n pk xs (drop n flat) = Inr (out, drop (n * length xs) (drop n flat))"
      "length out = n * length xs" "\<forall>rest. unpack_entries n up (length xs) (out @ rest) = Inr (xs, rest)"
    by blast
  show ?case
    using l new out by (intro exI [of _ "new @ out"]) (simp add: array_ref_def add.commute)
qed

section \<open>The obligation round-trips\<close>

definition obligation_valid :: "obligation \<Rightarrow> bool" where
  "obligation_valid ob \<longleftrightarrow>
     ob_version ob \<le> PROGRAM_VERSION \<and> length (ob_lending_market ob) = 32 \<and> length (ob_owner ob) = 32 \<and>
     list_all collateral_valid (deposits ob) \<and> list_all liquidity_entry_valid (borrows ob) \<and>
     length (deposits ob) < 256 \<and> length (borrows ob) < 256 \<and>
     OBLIGATION_COLLATERAL_LEN * length (deposits ob) + OBLIGATION_LIQUIDITY_LEN * length (borrows ob) \<le> flat_len \<and>
     fits (deposited_value ob) \<and> fits (borrowed_value ob) \<and> fits (unweighted_borrowed_value ob) \<and>
     fits (borrowed_value_upper_bound ob) \<and> fits (allowed_borrow_value ob) \<and>
     fits (unhealthy_borrow_value ob) \<and> fits (super_unhealthy_borrow_value ob)"

lemma obligation_sizes_sum: "sum_list obligation_sizes = OBLIGATION_LEN"
  by (simp add: obligation_sizes_def OBLIGATION_LEN_def flat_len_def OBLIGATION_COLLATERAL_LEN_def
      OBLIGATION_LIQUIDITY_LEN_def MAX_OBLIGATION_RESERVES_def)

lemma obligation_store_load:
  assumes v: "obligation_valid ob" and l: "OBLIGATION_LEN \<le> length dst"
  shows "\<exists>out. obligation_pack ob dst = Inr out \<and> length out = length dst \<and> obligation_unpack out = Inr (Inr ob)"
proof -
  let ?old = "take OBLIGATION_LEN dst"
  let ?f = "array_refs obligation_sizes ?old"
  have old: "array_ref OBLIGATION_LEN dst = Inr ?old" using l by (simp add: array_ref_def)
  have fl: "length (?f ! 17) = flat_len" and pl: "length (?f ! 14) = 14"
    using length_array_ref_nth [OF old obligation_sizes_sum, of 17]
      length_array_ref_nth [OF old obligation_sizes_sum, of 14] by (simp_all add: obligation_sizes_def)
  obtain b1 b2 b3 b4 b5 b6 b7 where d:
    "pack_decimal (deposited_value ob) = Inr b1" "pack_decimal (borrowed_value ob) = Inr b2"
    "pack_decimal (borrowed_value_upper_bound ob) = Inr b3" "pack_decimal (allowed_borrow_value ob) = Inr b4"
    "pack_decimal (unhealthy_borrow_value ob) = Inr b5" "pack_decimal (super_unhealthy_borrow_value ob) = Inr b6"
    "pack_decimal (unweighted_borrowed_value ob) = Inr b7"
    using v by (auto simp: obligation_valid_def dest!: pack_decimal_ok)
  let ?nd = "OBLIGATION_COLLATERAL_LEN * length (deposits ob)"
  let ?nb = "OBLIGATION_LIQUIDITY_LEN * length (borrows ob)"
  have le1: "?nd \<le> length (?f ! 17)" and le2: "?nb \<le> length (drop ?nd (?f ! 17))"
    using v fl unfolding obligation_valid_def length_drop by linarith+
  obtain ds where ds: "pack_entries OBLIGATION_COLLATERAL_LEN pack_collateral (deposits ob) (?f ! 17) =
      Inr (ds, drop ?nd (?f ! 17))" "length ds = ?nd"
    "\<forall>rest. unpack_entries OBLIGATION_COLLATERAL_LEN unpack_collateral (length (deposits ob)) (ds @ rest) =
       Inr (deposits ob, rest)"
    using entries_roundtrip [where P = collateral_valid and n = OBLIGATION_COLLATERAL_LEN
        and pk = pack_collateral and up = unpack_collateral, OF collateral_roundtrip _ le1] v
    unfolding obligation_valid_def by blast
  obtain bs where bs: "pack_entries OBLIGATION_LIQUIDITY_LEN pack_liquidity (borrows ob) (drop ?nd (?f ! 17)) =
      Inr (bs, drop ?nb (drop ?nd (?f ! 17)))" "length bs = ?nb"
    "\<forall>rest. unpack_entries OBLIGATION_LIQUIDITY_LEN unpack_liquidity_entry (length (borrows ob)) (bs @ rest) =
       Inr (borrows ob, rest)"
    using entries_roundtrip [where P = liquidity_entry_valid and n = OBLIGATION_LIQUIDITY_LEN
        and pk = pack_liquidity and up = unpack_liquidity_entry, OF liquidity_roundtrip _ le2] v
    unfolding obligation_valid_def by blast
  let ?flat = "ds @ bs @ drop ?nb (drop ?nd (?f ! 17))"
  let ?fs = "obligation_fields ob b1 b2 b3 b4 b5 b6 b7 (?f ! 14) (of_nat (length (deposits ob)))
    (of_nat (length (borrows ob))) ?flat"
  have "length ?flat = flat_len" using ds(2) bs(2) fl v by (simp add: obligation_valid_def)
  then have len: "map length ?fs = obligation_sizes"
    using v pl d by (simp add: obligation_fields_def obligation_sizes_def obligation_valid_def pack_decimal_Inr(1))
  have pack: "obligation_pack ob dst = Inr (concat ?fs @ drop OBLIGATION_LEN dst)"
    using old d ds(1) bs(1) v
    by (simp add: obligation_pack_def Let_def u8_len_def obligation_valid_def del: concat_append)
  have cnt: "unat (of_nat (length (deposits ob)) :: u8) = length (deposits ob)"
    "unat (of_nat (length (borrows ob)) :: u8) = length (borrows ob)"
    using v by (simp_all add: obligation_valid_def unat_of_nat take_bit_nat_eq_self)
  have "obligation_unpack (concat ?fs @ drop OBLIGATION_LEN dst) = Inr (Inr ob)"
    unfolding obligation_unpack_def Let_def
    by (subst read_fields [OF len obligation_sizes_sum])
       (use v in \<open>simp add: obligation_fields_def cnt ds(3) bs(3) d pack_decimal_Inr(2) obligation_valid_def not_less\<close>)
  moreover have "length (concat ?fs @ drop OBLIGATION_LEN dst) = length dst"
    using length_concat_fields [OF len] obligation_sizes_sum l by simp
  ultimately show ?thesis using pack by blast
qed

interpretation obligation_codec: account_codec OBLIGATION_LEN obligation_valid obligation_pack obligation_unpack
proof unfold_locales
  fix a and dst :: bytes
  assume "obligation_valid a" "OBLIGATION_LEN \<le> length dst"
  then show "\<exists>out. obligation_pack a dst = Inr out" using obligation_store_load by blast
next
  fix a and dst out :: bytes
  assume v: "obligation_valid a" and p: "obligation_pack a dst = Inr out"
  have "OBLIGATION_LEN \<le> length dst"
    using p by (auto simp: obligation_pack_def array_ref_def split: if_splits)
  with obligation_store_load [OF v] p show "length out = length dst" "obligation_unpack out = Inr (Inr a)"
    by fastforce+
next
  fix src :: bytes
  assume "length src < OBLIGATION_LEN"
  then show "obligation_unpack src = Inl Panic" by (simp add: obligation_unpack_def array_ref_def)
qed

section \<open>Every obligation the program keeps can be stored\<close>

definition obligation_wf :: "obligation \<Rightarrow> bool" where
  "obligation_wf ob \<longleftrightarrow>
     ob_version ob \<le> PROGRAM_VERSION \<and> length (ob_lending_market ob) = 32 \<and> length (ob_owner ob) = 32 \<and>
     list_all collateral_valid (deposits ob) \<and> list_all liquidity_entry_valid (borrows ob) \<and>
     fits (deposited_value ob) \<and> fits (borrowed_value ob) \<and> fits (unweighted_borrowed_value ob) \<and>
     fits (borrowed_value_upper_bound ob) \<and> fits (allowed_borrow_value ob) \<and>
     fits (unhealthy_borrow_value ob) \<and> fits (super_unhealthy_borrow_value ob)"

lemmas layout_lengths = OBLIGATION_COLLATERAL_LEN_def OBLIGATION_LIQUIDITY_LEN_def
  MAX_OBLIGATION_RESERVES_def flat_len_def

lemma obligation_wf_valid:
  "obligation_wf ob \<Longrightarrow> length (deposits ob) + length (borrows ob) \<le> MAX_OBLIGATION_RESERVES \<Longrightarrow>
     deposits ob \<noteq> [] \<or> length (borrows ob) < MAX_OBLIGATION_RESERVES \<Longrightarrow> obligation_valid ob"
  by (cases "deposits ob") (auto simp: obligation_wf_def obligation_valid_def layout_lengths)

lemma and_then_panic [simp]: "and_then m (\<lambda>_. Inl Panic) = Inl Panic"
  by (cases m) (simp_all, metis panic.exhaust)

lemma pack_entries_exhausted:
  "length flat < n * length xs \<Longrightarrow> pack_entries n pk xs flat = Inl Panic"
proof (induction xs arbitrary: flat)
  case Nil
  then show ?case by simp
next
  case (Cons x xs)
  show ?case
  proof (cases "length flat < n")
    case True
    then show ?thesis by (simp add: array_ref_def)
  next
    case False
    then have "length (drop n flat) < n * length xs" using Cons.prems by simp
    from Cons.IH [OF this] show ?thesis by simp
  qed
qed

definition stored_obligation :: obligation where
  "stored_obligation = obligation_default
     \<lparr> ob_version := PROGRAM_VERSION, ob_lending_market := replicate 32 7, ob_owner := replicate 32 9,
       deposits := [\<lparr> deposit_reserve = replicate 32 1, deposited_amount = 5,
          oc_market_value = Decimal 3, oc_attributed_borrow_value = Decimal 0 \<rparr>],
       borrows := [\<lparr> borrow_reserve = replicate 32 2, ol_cumulative_borrow_rate_wads = Decimal 1,
          ol_borrowed_amount_wads = Decimal 4, ol_market_value = Decimal 2 \<rparr>] \<rparr>"

text \<open>
  C39: Storing an obligation and loading it back gives the same obligation.  Every obligation
  whose decimals fit the 16-byte fields and that holds at most ten reserves, not all of them
  borrows, is written into any buffer of at least 1300 bytes without changing the buffer's
  length, and reading the buffer returns it.
\<close>

theorem obligation_pack_roundtrip:
  assumes "obligation_wf ob"
    and "length (deposits ob) + length (borrows ob) \<le> MAX_OBLIGATION_RESERVES"
    and "deposits ob \<noteq> [] \<or> length (borrows ob) < MAX_OBLIGATION_RESERVES"
    and "OBLIGATION_LEN \<le> length dst"
  shows "\<exists>out. obligation_pack ob dst = Inr out \<and> length out = length dst \<and>
           obligation_unpack out = Inr (Inr ob)"
  using obligation_store_load [OF obligation_wf_valid] assms by blast

theorem obligation_pack_roundtrip_witness:
  "\<exists>out. obligation_pack stored_obligation (replicate 1300 0) = Inr out \<and> length out = 1300 \<and>
     obligation_unpack out = Inr (Inr stored_obligation)"
proof -
  have "obligation_wf stored_obligation"
    by (simp add: obligation_wf_def stored_obligation_def obligation_default_def collateral_valid_def
        liquidity_entry_valid_def fits_def PROGRAM_VERSION_def)
  from obligation_pack_roundtrip [OF this, of "replicate 1300 0"] show ?thesis
    by (simp add: stored_obligation_def layout_lengths OBLIGATION_LEN_def)
qed

text \<open>
  C40: The account has no room for ten borrows: the flat area holds one deposit and nine borrows,
  so writing an obligation with ten borrows and no deposit panics on every buffer, although ten
  reserves is within the program's limit.
\<close>

theorem full_borrow_obligation_panics:
  assumes "deposits ob = []" and "length (borrows ob) = MAX_OBLIGATION_RESERVES"
  shows "obligation_pack ob dst = Inl Panic"
proof (cases "OBLIGATION_LEN \<le> length dst")
  case True
  then have old: "array_ref OBLIGATION_LEN dst = Inr (take OBLIGATION_LEN dst)"
    by (simp add: array_ref_def)
  have "length (array_refs obligation_sizes (take OBLIGATION_LEN dst) ! 17) = flat_len"
    using length_array_ref_nth [OF old obligation_sizes_sum, of 17] by (simp add: obligation_sizes_def)
  with assms(2) have "pack_entries OBLIGATION_LIQUIDITY_LEN pack_liquidity (borrows ob)
      (array_refs obligation_sizes (take OBLIGATION_LEN dst) ! 17) = Inl Panic"
    by (intro pack_entries_exhausted) (simp add: layout_lengths)
  then show ?thesis using assms(1) by (simp add: obligation_pack_def old Let_def)
next
  case False
  then show ?thesis by (simp add: obligation_pack_def array_ref_def)
qed

theorem full_borrow_obligation_panics_witness:
  "obligation_pack (obligation_default\<lparr> borrows := replicate 10 (hd (borrows stored_obligation)) \<rparr>)
     (replicate 1300 0) = Inl Panic"
  by (rule full_borrow_obligation_panics) (simp_all add: obligation_default_def MAX_OBLIGATION_RESERVES_def)

end
