(* ===== verification/SolendDisplay.thy ===== *)
theory SolendDisplay
  imports SolendMath
begin

text \<open>
  What the SDK prints and what it returns to the runtime: the textual form of decimals and rates
  (\<open>math/decimal.rs\<close>, \<open>math/rate.rs\<close>) and the numeric code of a lending error (\<open>error.rs\<close>).
\<close>

section \<open>Decimal digits\<close>

text \<open>\<open>to_string\<close> of an unsigned integer.\<close>

definition digit_char :: "nat \<Rightarrow> char" where
  "digit_char d = char_of (48 + d)"

fun to_string :: "nat \<Rightarrow> string" where
  "to_string n = (if n < 10 then [digit_char n] else to_string (n div 10) @ [digit_char (n mod 10)])"

declare to_string.simps [simp del]

definition decimal_value :: "string \<Rightarrow> nat" where
  "decimal_value s = foldl (\<lambda>v c. 10 * v + (of_char c - 48)) 0 s"

section \<open>Display\<close>

text \<open>
  \<open>Display::fmt\<close> of \<open>Decimal\<close> and of \<open>Rate\<close>: the point is inserted before the last \<open>SCALE\<close> digits,
  after padding with zeros when there are no more digits than that.
\<close>

definition fmt_scaled :: "nat \<Rightarrow> string" where
  "fmt_scaled raw =
     (let scaled_val = to_string raw
      in if length scaled_val \<le> SCALE
         then ''0.'' @ (replicate (SCALE - length scaled_val) (CHR ''0'') @ scaled_val)
         else take (length scaled_val - SCALE) scaled_val @ [CHR ''.''] @ drop (length scaled_val - SCALE) scaled_val)"

definition Decimal_fmt :: "decimal \<Rightarrow> string" where
  "Decimal_fmt d = fmt_scaled (unat (dec_raw d))"

definition Rate_fmt :: "rate \<Rightarrow> string" where
  "Rate_fmt r = fmt_scaled (unat (rate_raw r))"

lemma of_digit_char: "d < 10 \<Longrightarrow> (of_char (digit_char d) :: nat) = 48 + d"
  by (simp add: digit_char_def)

lemma to_string_chars: "c \<in> set (to_string n) \<Longrightarrow> (of_char c :: nat) \<in> {48..57}"
proof (induction n rule: to_string.induct)
  case (1 n)
  then show ?case by (cases "n < 10") (auto simp: to_string.simps [of n] of_digit_char)
qed

lemma decimal_value_append: "decimal_value (s @ [c]) = 10 * decimal_value s + (of_char c - 48)"
  by (simp add: decimal_value_def)

lemma decimal_value_to_string: "decimal_value (to_string n) = n"
proof (induction n rule: to_string.induct)
  case (1 n)
  show ?case
  proof (cases "n < 10")
    case True
    then show ?thesis by (simp add: to_string.simps [of n] decimal_value_def of_digit_char)
  next
    case False
    with 1 have "decimal_value (to_string (n div 10)) = n div 10" by simp
    with False show ?thesis by (simp add: to_string.simps [of n] decimal_value_append of_digit_char)
  qed
qed

lemma decimal_value_zeros: "decimal_value (replicate k (CHR ''0'') @ s) = decimal_value s"
proof -
  have "foldl (\<lambda>v c. 10 * v + (of_char c - 48)) 0 (replicate k (CHR ''0'')) = (0 :: nat)" by (induction k) auto
  then show ?thesis by (simp add: decimal_value_def)
qed

text \<open>
  The printed form is exact: it has one point, eighteen digits after it, at least one before it,
  and its digits are those of the scaled value.
\<close>

lemma fmt_scaled_exact:
  "\<exists>whole frac. fmt_scaled n = whole @ [CHR ''.''] @ frac \<and> whole \<noteq> [] \<and> length frac = SCALE \<and>
     CHR ''.'' \<notin> set (whole @ frac) \<and> decimal_value (whole @ frac) = n"
proof -
  let ?s = "to_string n"
  have dot: "CHR ''.'' \<notin> set ?s" using to_string_chars [of "CHR ''.''" n] by auto
  show ?thesis
  proof (cases "length ?s \<le> SCALE")
    case True
    let ?frac = "replicate (SCALE - length ?s) (CHR ''0'') @ ?s"
    have "fmt_scaled n = ''0'' @ [CHR ''.''] @ ?frac" using True by (simp add: fmt_scaled_def Let_def)
    moreover have "decimal_value (''0'' @ ?frac) = n"
      using decimal_value_zeros [of "Suc (SCALE - length ?s)" ?s] by (simp add: decimal_value_to_string)
    moreover have "length ?frac = SCALE" using True by simp
    ultimately show ?thesis
      using dot by (intro exI [of _ "''0''"] exI [of _ ?frac]) auto
  next
    case False
    let ?k = "length ?s - SCALE"
    have "fmt_scaled n = take ?k ?s @ [CHR ''.''] @ drop ?k ?s" using False by (simp add: fmt_scaled_def Let_def)
    moreover have "take ?k ?s \<noteq> []" "length (drop ?k ?s) = SCALE" using False by auto
    ultimately show ?thesis
      using dot by (intro exI [of _ "take ?k ?s"] exI [of _ "drop ?k ?s"]) (simp add: decimal_value_to_string)
  qed
qed

definition without_point :: "string \<Rightarrow> string" where
  "without_point s = filter (\<lambda>c. c \<noteq> CHR ''.'') s"

lemma fmt_scaled_read_back: "decimal_value (without_point (fmt_scaled n)) = n"
proof -
  obtain whole frac where f: "fmt_scaled n = whole @ [CHR ''.''] @ frac" and p: "CHR ''.'' \<notin> set (whole @ frac)"
    and v: "decimal_value (whole @ frac) = n"
    using fmt_scaled_exact [of n] by blast
  have "without_point s = s" if "CHR ''.'' \<notin> set s" for s
    using that unfolding without_point_def by (induction s) auto
  then have "without_point (fmt_scaled n) = whole @ frac" using f p by (simp add: without_point_def)
  with v show ?thesis by simp
qed

lemma Decimal_fmt_injective: "Decimal_fmt d = Decimal_fmt e \<Longrightarrow> d = e"
  by (cases d; cases e) (metis Decimal_fmt_def decimal.sel fmt_scaled_read_back word_unat_eq_iff)

section \<open>Error codes\<close>

text \<open>\<open>ProgramError::Custom(e as u32)\<close>: the position of the error in the enumeration.\<close>

definition lending_errors :: "lending_error list" where
  "lending_errors = [
     InstructionUnpackError, AlreadyInitialized, NotRentExempt, InvalidMarketAuthority, InvalidMarketOwner,
     InvalidAccountOwner, InvalidTokenOwner, InvalidTokenAccount, InvalidTokenMint, InvalidTokenProgram,
     InvalidAmount, InvalidConfig, InvalidSigner, InvalidAccountInput, MathOverflow,
     TokenInitializeMintFailed, TokenInitializeAccountFailed, TokenTransferFailed, TokenMintToFailed, TokenBurnFailed,
     InsufficientLiquidity, ReserveCollateralDisabled, ReserveStale, WithdrawTooSmall, WithdrawTooLarge,
     BorrowTooSmall, BorrowTooLarge, RepayTooSmall, LiquidationTooSmall, ObligationHealthy,
     ObligationStale, ObligationReserveLimit, InvalidObligationOwner, ObligationDepositsEmpty, ObligationBorrowsEmpty,
     ObligationDepositsZero, ObligationBorrowsZero, InvalidObligationCollateral, InvalidObligationLiquidity,
     ObligationCollateralEmpty,
     ObligationLiquidityEmpty, NegativeInterestRate, InvalidOracleConfig, InvalidFlashLoanReceiverProgram,
     NotEnoughLiquidityAfterFlashLoan,
     NullOracleConfig, InsufficientProtocolFeesToRedeem, FlashBorrowCpi, NoFlashRepayFound, InvalidFlashRepay,
     FlashRepayCpi, MultipleFlashBorrows, FlashLoansDisabled, DeprecatedInstruction, OutflowRateLimitExceeded,
     NotWhitelistedLiquidator, IsolatedTierAssetViolation, BorrowAttributionLimitExceeded,
     BorrowAttributionLimitNotExceeded]"

definition lending_error_code :: "lending_error \<Rightarrow> u32" where
  "lending_error_code e = of_nat (length (takeWhile (\<lambda>x. x \<noteq> e) lending_errors))"

lemma lending_errors_complete: "e \<in> set lending_errors"
  by (cases e) (simp_all add: lending_errors_def)

text \<open>A code determines its error, so keeping the error itself in \<open>Custom\<close> loses nothing.\<close>

lemma lending_error_code_injective: "lending_error_code e = lending_error_code f \<Longrightarrow> e = f"
proof -
  let ?i = "\<lambda>e. length (takeWhile (\<lambda>x. x \<noteq> e) lending_errors)"
  have at: "?i e < 59 \<and> lending_errors ! ?i e = e" for e
  proof -
    have "\<exists>x \<in> set lending_errors. \<not> x \<noteq> e" using lending_errors_complete by blast
    then have "takeWhile (\<lambda>x. x \<noteq> e) lending_errors \<noteq> lending_errors" by (metis set_takeWhileD)
    then have "?i e < length lending_errors"
      by (metis length_takeWhile_le nat_less_le takeWhile_eq_take take_all_iff order_refl)
    moreover from this have "\<not> lending_errors ! ?i e \<noteq> e" by (rule nth_length_takeWhile)
    ultimately show ?thesis by (simp add: lending_errors_def)
  qed
  have "unat (lending_error_code e) = ?i e" for e
    using at [of e] by (simp add: lending_error_code_def unat_of_nat)
  then show "lending_error_code e = lending_error_code f \<Longrightarrow> e = f" using at by metis
qed

text \<open>The numbers that the comments in the enumeration announce.\<close>

lemma lending_error_code_marks:
  "map lending_error_code [InstructionUnpackError, InvalidAccountOwner, InvalidAmount, TokenInitializeMintFailed,
     InsufficientLiquidity, BorrowTooSmall, ObligationStale, ObligationDepositsZero, ObligationLiquidityEmpty,
     NullOracleConfig, FlashRepayCpi, NotWhitelistedLiquidator] = map of_nat [0, 5, 10, 15, 20, 25, 30, 35, 40, 45, 50, 55]"
  by (simp add: lending_error_code_def lending_errors_def)

end
