(* ===== verification/SolendTests.thy ===== *)
theory SolendTests
  imports SolendObligationProps SolendDisplay
begin

text \<open>
  The unit tests and the test tables of \<open>state/reserve.rs\<close> as executable definitions.  A test is a
  closed predicate over the modelled operations, and evaluating it to true shows that the model
  computes the values that the authors of the code expect of it.
\<close>

section \<open>Unit tests of the reserve\<close>

abbreviation LAMPORTS_PER_SOL :: u64 where "LAMPORTS_PER_SOL \<equiv> 1000000000"

definition borrow_fee_calculation_min_host :: bool where
  "borrow_fee_calculation_min_host =
     (let fs = \<lparr> borrow_fee_wad = 10000000000000000, flash_loan_fee_wad = 0, host_fee_percentage = 20 \<rparr>
      in calculate_borrow_fees fs (Decimal_from 2) Exclusive = Inl (Custom BorrowTooSmall) \<and>
         calculate_borrow_fees fs Decimal_one Exclusive = Inl (Custom BorrowTooSmall) \<and>
         calculate_borrow_fees fs Decimal_zero Exclusive = Inr (0, 0))"

definition borrow_fee_calculation_min_no_host :: bool where
  "borrow_fee_calculation_min_no_host =
     (let fs = \<lparr> borrow_fee_wad = 10000000000000000, flash_loan_fee_wad = 0, host_fee_percentage = 0 \<rparr>
      in calculate_borrow_fees fs (Decimal_from 2) Exclusive = Inr (1, 0) \<and>
         calculate_borrow_fees fs Decimal_one Exclusive = Inl (Custom BorrowTooSmall) \<and>
         calculate_borrow_fees fs Decimal_zero Exclusive = Inr (0, 0))"

definition borrow_fee_calculation_host :: bool where
  "borrow_fee_calculation_host =
     (let fs = \<lparr> borrow_fee_wad = 10000000000000000, flash_loan_fee_wad = 0, host_fee_percentage = 20 \<rparr>
      in calculate_borrow_fees fs (Decimal_from 1000) Exclusive = Inr (10, 2))"

definition borrow_fee_calculation_no_host :: bool where
  "borrow_fee_calculation_no_host =
     (let fs = \<lparr> borrow_fee_wad = 10000000000000000, flash_loan_fee_wad = 0, host_fee_percentage = 0 \<rparr>
      in calculate_borrow_fees fs (Decimal_from 1000) Exclusive = Inr (10, 0))"

definition protocol_liquidation_fee_test :: bool where
  "protocol_liquidation_fee_test \<longleftrightarrow>
     calculate_protocol_liquidation_fee 105
       \<lparr> total_bonus = Decimal_from_percent 5, bonus_protocol_fee = Decimal_from_percent 1 \<rparr> = Inr 1 \<and>
     calculate_protocol_liquidation_fee 105
       \<lparr> total_bonus = Decimal_from_percent 5, bonus_protocol_fee = Decimal_from_percent 2 \<rparr> = Inr 2 \<and>
     calculate_protocol_liquidation_fee 10000
       \<lparr> total_bonus = Decimal_from_percent 5, bonus_protocol_fee = Decimal_from_percent 0 \<rparr> = Inr 1 \<and>
     calculate_protocol_liquidation_fee 10000
       \<lparr> total_bonus = Decimal_from_percent 1, bonus_protocol_fee = Decimal_from_percent 1 \<rparr> = Inr 100"

definition priced_reserve :: "decimal option \<Rightarrow> solend_reserve" where
  "priced_reserve extra = reserve_default\<lparr>liquidity := reserve_liquidity_default
     \<lparr>mint_decimals := 9, market_price := Decimal_from 25, smoothed_market_price := Decimal_from 50,
      extra_market_price := extra\<rparr>\<rparr>"

definition price_test :: bool where
  "price_test \<longleftrightarrow>
     price_upper_bound (priced_reserve None) = Decimal_from 50 \<and>
     price_lower_bound (priced_reserve None) = Decimal_from 25 \<and>
     price_upper_bound (priced_reserve (Some (Decimal_from 75))) = Decimal_from 75 \<and>
     price_lower_bound (priced_reserve (Some (Decimal_from 10))) = Decimal_from 10"

definition market_value_test :: bool where
  "market_value_test \<longleftrightarrow>
     market_value (priced_reserve None) (Decimal_from 1) = try_div_u64 (Decimal_from 25) 1000000000 \<and>
     market_value (priced_reserve None) (Decimal_from (10 * LAMPORTS_PER_SOL)) = Inr (Decimal_from 250) \<and>
     market_value_lower_bound (priced_reserve None) (Decimal_from (10 * LAMPORTS_PER_SOL)) = Inr (Decimal_from 250) \<and>
     market_value_upper_bound (priced_reserve None) (Decimal_from (10 * LAMPORTS_PER_SOL)) = Inr (Decimal_from 500) \<and>
     market_value_upper_bound (priced_reserve (Some (Decimal_from 100))) (Decimal_from (10 * LAMPORTS_PER_SOL)) =
       Inr (Decimal_from 1000) \<and>
     market_value_lower_bound (priced_reserve (Some (Decimal_from 10))) (Decimal_from (10 * LAMPORTS_PER_SOL)) =
       Inr (Decimal_from 100) \<and>
     market_value (priced_reserve (Some (Decimal_from 10))) (Decimal_from 1) = try_div_u64 (Decimal_from 25) 1000000000"

definition usd_to_liquidity_test :: bool where
  "usd_to_liquidity_test \<longleftrightarrow>
     usd_to_liquidity_amount_lower_bound (priced_reserve None) (Decimal_from 100) =
       Inr (Decimal_from (2 * LAMPORTS_PER_SOL))"

text \<open>What evaluates the fixed-point operations, the prices and the fees at numerals.\<close>

lemmas test_eval = wad_eval less_rate_def less_decimal_def less_eq_decimal_def less_eq_rate_def max_def min_def
  try_round_u64_def try_ceil_u64_def try_floor_u64_def Decimal_half_wad_def HALF_WAD_def
  Decimal_from_percent_def Decimal_from_u128_def from_deca_bps_def from_bps_def Let_def

lemmas fee_eval = calculate_borrow_fees_def calculate_fees_def test_eval

lemmas price_eval = price_upper_bound_def price_lower_bound_def market_value_def market_value_lower_bound_def
  market_value_upper_bound_def value_at_def usd_to_liquidity_amount_lower_bound_def test_eval

lemma checked_pow_nine [simp]:
  "checked_pow (10 :: u128) 9 = Some 1000000000" "checked_pow (10 :: u64) 9 = Some 1000000000"
proof -
  have nine: "(9 :: nat) = Suc (Suc (Suc (Suc (Suc (Suc (Suc (Suc (Suc 0))))))))" by simp
  show "checked_pow (10 :: u128) 9 = Some 1000000000" "checked_pow (10 :: u64) 9 = Some 1000000000"
    by (simp_all only: nine checked_pow.simps checked_mul_def bind.bind_lunit) simp_all
qed

lemma u64_numeral_le_one [simp]: "numeral n \<le> (1 :: u64) \<longleftrightarrow> take_bit 64 (numeral n) \<le> (1 :: nat)"
  by (simp add: word_le_nat_alt)

lemma borrow_fee_calculation_min_host_passes: "borrow_fee_calculation_min_host"
  by (simp add: borrow_fee_calculation_min_host_def fee_eval)

lemma borrow_fee_calculation_min_no_host_passes: "borrow_fee_calculation_min_no_host"
  by (simp add: borrow_fee_calculation_min_no_host_def fee_eval)

lemma borrow_fee_calculation_host_passes: "borrow_fee_calculation_host"
  by (simp add: borrow_fee_calculation_host_def fee_eval)

lemma borrow_fee_calculation_no_host_passes: "borrow_fee_calculation_no_host"
  by (simp add: borrow_fee_calculation_no_host_def fee_eval)

lemma protocol_liquidation_fee_test_passes: "protocol_liquidation_fee_test"
  by (simp add: protocol_liquidation_fee_test_def calculate_protocol_liquidation_fee_def MAX_BONUS_PCT_def test_eval)

lemma price_test_passes: "price_test"
  by (simp add: price_test_def priced_reserve_def price_eval)

lemma market_value_test_passes: "market_value_test"
  by (simp add: market_value_test_def priced_reserve_def price_eval)

lemma usd_to_liquidity_test_passes: "usd_to_liquidity_test"
  by (simp add: usd_to_liquidity_test_def priced_reserve_def price_eval)

section \<open>Tables of test cases\<close>

subsection \<open>Configuration\<close>

definition reserve_config_test_cases :: "(reserve_config \<times> (program_error + unit)) list" where
  "reserve_config_test_cases = [
     (reserve_config_default\<lparr>res_type := Isolated, loan_to_value_ratio_pct := 1\<rparr>, Inl (Custom InvalidConfig)),
     (reserve_config_default\<lparr>res_type := Isolated, liquidation_threshold := 1\<rparr>, Inl (Custom InvalidConfig)),
     (reserve_config_default\<lparr>res_type := Isolated, loan_to_value_ratio_pct := 0, liquidation_threshold := 0\<rparr>, Inr ()),
     (reserve_config_default\<lparr>liquidation_threshold := 85, max_liquidation_threshold := 75\<rparr>, Inl (Custom InvalidConfig)),
     (reserve_config_default\<lparr>max_liquidation_bonus := 5, liquidation_bonus := 10\<rparr>, Inl (Custom InvalidConfig)),
     (reserve_config_default\<lparr>max_liquidation_bonus := 20, cfg_protocol_liquidation_fee := 50\<rparr>, Inr ()),
     (reserve_config_default\<lparr>max_liquidation_bonus := 20, cfg_protocol_liquidation_fee := 60\<rparr>, Inl (Custom InvalidConfig)),
     (reserve_config_default\<lparr>cfg_protocol_liquidation_fee := 51\<rparr>, Inl (Custom InvalidConfig)),
     (reserve_config_default\<lparr>scaled_price_offset_bps := 5001\<rparr>, Inl (Custom InvalidConfig)),
     (reserve_config_default\<lparr>scaled_price_offset_bps := 1999, attributed_borrow_limit_open := 50,
        attributed_borrow_limit_close := 51\<rparr>, Inr ()),
     (reserve_config_default\<lparr>scaled_price_offset_bps := - 2001\<rparr>, Inl (Custom InvalidConfig)),
     (reserve_config_default\<lparr>scaled_price_offset_bps := - 1999\<rparr>, Inr ()),
     (reserve_config_default\<lparr>attributed_borrow_limit_open := 51, attributed_borrow_limit_close := 50\<rparr>,
        Inl (Custom InvalidConfig))]"

definition test_validate_reserve_config :: "reserve_config \<times> (program_error + unit) \<Rightarrow> bool" where
  "test_validate_reserve_config = (\<lambda>(cfg, result). validate_reserve_config cfg = result)"

lemma reserve_config_tests: "list_all test_validate_reserve_config reserve_config_test_cases"
  by code_simp

subsection \<open>Liquidation bonus\<close>

record liquidation_bonus_test_case =
  lbt_borrowed_value :: decimal
  lbt_unhealthy_borrow_value :: decimal
  lbt_super_unhealthy_borrow_value :: decimal
  lbt_closeable :: bool
  lbt_liquidation_bonus :: u8
  lbt_max_liquidation_bonus :: u8
  lbt_protocol_liquidation_fee :: u8
  lbt_result :: "program_error + bonus"

definition bonus_case ::
  "u64 \<Rightarrow> u64 \<Rightarrow> u64 \<Rightarrow> bool \<Rightarrow> u8 \<Rightarrow> u8 \<Rightarrow> u8 \<Rightarrow> program_error + bonus \<Rightarrow> liquidation_bonus_test_case" where
  "bonus_case b u s cl lb mb pf result =
     \<lparr> lbt_borrowed_value = Decimal_from b, lbt_unhealthy_borrow_value = Decimal_from u,
       lbt_super_unhealthy_borrow_value = Decimal_from s, lbt_closeable = cl, lbt_liquidation_bonus = lb,
       lbt_max_liquidation_bonus = mb, lbt_protocol_liquidation_fee = pf, lbt_result = result \<rparr>"

definition percent_bonus :: "u8 \<Rightarrow> u8 \<Rightarrow> bonus" where
  "percent_bonus t p = \<lparr> total_bonus = Decimal_from_percent t, bonus_protocol_fee = Decimal_from_percent p \<rparr>"

definition calculate_bonus_test_cases :: "liquidation_bonus_test_case list" where
  "calculate_bonus_test_cases = [
     bonus_case 100 101 150 False 10 20 10 (Inl (Custom ObligationHealthy)),
     bonus_case 100 101 150 True 10 20 10 (Inr \<lparr> total_bonus = Decimal_zero, bonus_protocol_fee = Decimal_zero \<rparr>),
     bonus_case 100 100 150 True 10 20 10 (Inr (percent_bonus 11 1)),
     bonus_case 100 100 150 False 10 20 10 (Inr (percent_bonus 11 1)),
     bonus_case 100 50 150 False 10 20 10 (Inr (percent_bonus 16 1)),
     bonus_case 100 50 100 False 10 20 10 (Inr (percent_bonus 21 1)),
     bonus_case 200 50 100 False 10 20 10 (Inr (percent_bonus 21 1)),
     bonus_case 60 50 50 False 10 20 10 (Inr (percent_bonus 11 1)),
     bonus_case 60 40 60 False 10 30 10 (Inr (percent_bonus 25 1)),
     bonus_case 60 40 60 False 30 30 30 (Inr (percent_bonus 25 3))]"

definition calculate_bonus_test :: "liquidation_bonus_test_case \<Rightarrow> bool" where
  "calculate_bonus_test t =
     (let r = reserve_default\<lparr>res_config := reserve_config_default
            \<lparr>liquidation_bonus := lbt_liquidation_bonus t, max_liquidation_bonus := lbt_max_liquidation_bonus t,
             cfg_protocol_liquidation_fee := lbt_protocol_liquidation_fee t\<rparr>\<rparr>;
          ob = obligation_default\<lparr>borrowed_value := lbt_borrowed_value t,
            unhealthy_borrow_value := lbt_unhealthy_borrow_value t,
            super_unhealthy_borrow_value := lbt_super_unhealthy_borrow_value t, closeable := lbt_closeable t\<rparr>
      in calculate_bonus r ob = lbt_result t)"

lemmas bonus_eval = calculate_bonus_test_def bonus_case_def percent_bonus_def calculate_bonus_def
  MAX_BONUS_PCT_def test_eval

lemma calculate_bonus_tests: "list_all calculate_bonus_test calculate_bonus_test_cases"
  unfolding calculate_bonus_test_cases_def list.pred_inject
  by (intro conjI TrueI) (simp_all add: bonus_eval)

subsection \<open>Liquidation amounts\<close>

record liquidation_test_case =
  lt_deposit_amount :: u64
  lt_deposit_market_value :: decimal
  lt_borrow_amount :: u64
  lt_borrow_market_value :: decimal
  lt_bonus :: bonus
  lt_liquidation_result :: calculate_liquidation_result

text \<open>The products with the close factor that the table computes in \<open>u64\<close>.\<close>

definition closed_share :: u64 where "closed_share = 8000 * ucast LIQUIDATION_CLOSE_FACTOR div 100"
definition seized_share :: u64 where "seized_share = (8000 * ucast LIQUIDATION_CLOSE_FACTOR) * 105 div 10000"

definition calculate_liquidation_test_cases :: "liquidation_test_case list" where
  "calculate_liquidation_test_cases =
     (let close_factor = Decimal_from_Rate (Rate_from_percent LIQUIDATION_CLOSE_FACTOR);
          liq_bonus = Decimal_from_Rate (projr (Rate_try_add (Rate_from_percent 5) Rate_one));
          closed = projr (try_mul close_factor (Decimal_from 800));
          seized = projr (try_mul (projr (try_mul close_factor liq_bonus)) (Decimal_from 800))
      in [
     \<lparr> lt_deposit_amount = 1000, lt_deposit_market_value = Decimal_from 100,
       lt_borrow_amount = 800, lt_borrow_market_value = Decimal_from 80, lt_bonus = percent_bonus 5 1,
       lt_liquidation_result = \<lparr> cl_settle_amount = closed, cl_repay_amount = projr (try_ceil_u64 closed),
         cl_withdraw_amount = projr (try_floor_u64 seized) \<rparr> \<rparr>,
     \<lparr> lt_deposit_amount = seized_share, lt_deposit_market_value = Decimal_from seized_share,
       lt_borrow_amount = 8000, lt_borrow_market_value = Decimal_from 8000, lt_bonus = percent_bonus 5 1,
       lt_liquidation_result = \<lparr> cl_settle_amount = Decimal_from closed_share, cl_repay_amount = closed_share,
         cl_withdraw_amount = seized_share \<rparr> \<rparr>,
     \<lparr> lt_deposit_amount = seized_share div 2, lt_deposit_market_value = Decimal_from (seized_share div 2),
       lt_borrow_amount = 8000, lt_borrow_market_value = Decimal_from 8000, lt_bonus = percent_bonus 5 1,
       lt_liquidation_result = \<lparr> cl_settle_amount = Decimal_from (closed_share div 2),
         cl_repay_amount = closed_share div 2, cl_withdraw_amount = seized_share div 2 \<rparr> \<rparr>,
     \<lparr> lt_deposit_amount = 100, lt_deposit_market_value = Decimal_from 1,
       lt_borrow_amount = 100, lt_borrow_market_value = Decimal_from_percent 50, lt_bonus = percent_bonus 5 1,
       lt_liquidation_result = \<lparr> cl_settle_amount = Decimal_from 100, cl_repay_amount = 100,
         cl_withdraw_amount = 52 \<rparr> \<rparr>,
     \<lparr> lt_deposit_amount = 1000, lt_deposit_market_value = Decimal_from_percent 105,
       lt_borrow_amount = 1, lt_borrow_market_value = Decimal_from 1, lt_bonus = percent_bonus 5 1,
       lt_liquidation_result = \<lparr> cl_settle_amount = Decimal_from 1, cl_repay_amount = 1,
         cl_withdraw_amount = 1000 \<rparr> \<rparr>,
     \<lparr> lt_deposit_amount = 10, lt_deposit_market_value = from_bps 5250,
       lt_borrow_amount = 10, lt_borrow_market_value = Decimal_one, lt_bonus = percent_bonus 5 1,
       lt_liquidation_result = \<lparr> cl_settle_amount = Decimal_from 5, cl_repay_amount = 5,
         cl_withdraw_amount = 10 \<rparr> \<rparr>,
     \<lparr> lt_deposit_amount = 1, lt_deposit_market_value = Decimal_from 10,
       lt_borrow_amount = 1, lt_borrow_market_value = Decimal_one, lt_bonus = percent_bonus 5 1,
       lt_liquidation_result = \<lparr> cl_settle_amount = Decimal_from 1, cl_repay_amount = 1,
         cl_withdraw_amount = 1 \<rparr> \<rparr>,
     \<lparr> lt_deposit_amount = 100, lt_deposit_market_value = Decimal_from 100,
       lt_borrow_amount = 100, lt_borrow_market_value = Decimal_from 100,
       lt_bonus = \<lparr> total_bonus = Decimal_zero, bonus_protocol_fee = Decimal_zero \<rparr>,
       lt_liquidation_result = \<lparr> cl_settle_amount = Decimal_from 20, cl_repay_amount = 20,
         cl_withdraw_amount = 20 \<rparr> \<rparr>])"

text \<open>The two reserve keys come from \<open>Pubkey::new_unique\<close>: the test holds for any.\<close>

definition calculate_liquidation_test :: "pubkey \<Rightarrow> pubkey \<Rightarrow> liquidation_test_case \<Rightarrow> bool" where
  "calculate_liquidation_test dkey bkey t =
     (let c = \<lparr> deposit_reserve = dkey, deposited_amount = lt_deposit_amount t,
                oc_market_value = lt_deposit_market_value t, oc_attributed_borrow_value = lt_borrow_market_value t \<rparr>;
          l = \<lparr> borrow_reserve = bkey, ol_cumulative_borrow_rate_wads = Decimal_one,
                ol_borrowed_amount_wads = Decimal_from (lt_borrow_amount t),
                ol_market_value = lt_borrow_market_value t \<rparr>;
          ob = obligation_default\<lparr>deposits := [c], borrows := [l], borrowed_value := lt_borrow_market_value t,
                unhealthy_borrow_value := lt_borrow_market_value t,
                super_unhealthy_borrow_value := lt_borrow_market_value t\<rparr>
      in calculate_liquidation u64_MAX ob l c (lt_bonus t) = Inr (lt_liquidation_result t))"

lemmas liquidation_eval = calculate_liquidation_test_def calculate_liquidation_def liquidate_dust_def
  liquidate_part_def take_all_def take_all_reduced_def max_liquidation_amount_def percent_bonus_def
  MAX_BONUS_PCT_def LIQUIDATION_CLOSE_FACTOR_def MAX_LIQUIDATABLE_VALUE_AT_ONCE_def closed_share_def
  seized_share_def obligation_default_def test_eval

lemma calculate_liquidation_tests:
  "list_all (calculate_liquidation_test dkey bkey) calculate_liquidation_test_cases"
  unfolding calculate_liquidation_test_cases_def Let_def list.pred_inject
  by (intro conjI TrueI) (simp_all add: liquidation_eval)

subsection \<open>Borrow amounts\<close>

record calculate_borrow_test_case =
  cbt_borrow_amount :: u64
  cbt_remaining_borrow_value :: decimal
  cbt_remaining_reserve_capacity :: decimal
  cbt_market_price :: decimal
  cbt_smoothed_market_price :: decimal
  cbt_extra_market_price :: "decimal option"
  cbt_decimal :: u8
  cbt_added_borrow_weight_bps :: u64
  cbt_borrow_fee_wad :: u64
  cbt_host_fee :: u8
  cbt_result :: "program_error + calculate_borrow_result"

definition calculate_borrow_test_cases :: "calculate_borrow_test_case list" where
  "calculate_borrow_test_cases = [
     \<lparr> cbt_borrow_amount = LAMPORTS_PER_SOL, cbt_remaining_borrow_value = Decimal_from 10,
       cbt_remaining_reserve_capacity = Decimal_from (LAMPORTS_PER_SOL * 10), cbt_market_price = Decimal_from 1,
       cbt_smoothed_market_price = Decimal_from 1, cbt_extra_market_price = None, cbt_decimal = 9,
       cbt_added_borrow_weight_bps = 0, cbt_borrow_fee_wad = 10000000000000000, cbt_host_fee = 20,
       cbt_result = Inr \<lparr> cb_borrow_amount = Decimal_from (LAMPORTS_PER_SOL * 101 div 100), cb_receive_amount = LAMPORTS_PER_SOL,
         cb_borrow_fee = LAMPORTS_PER_SOL div 100, cb_host_fee = LAMPORTS_PER_SOL div 100 div 100 * 20 \<rparr> \<rparr>,
     \<lparr> cbt_borrow_amount = u64_MAX, cbt_remaining_borrow_value = Decimal_from 10,
       cbt_remaining_reserve_capacity = Decimal_from (LAMPORTS_PER_SOL * 101 div 100), cbt_market_price = Decimal_from 1,
       cbt_smoothed_market_price = Decimal_from 1, cbt_extra_market_price = None, cbt_decimal = 9,
       cbt_added_borrow_weight_bps = 0, cbt_borrow_fee_wad = 10000000000000000, cbt_host_fee = 20,
       cbt_result = Inr \<lparr> cb_borrow_amount = Decimal_from (LAMPORTS_PER_SOL * 101 div 100), cb_receive_amount = LAMPORTS_PER_SOL,
         cb_borrow_fee = LAMPORTS_PER_SOL div 100, cb_host_fee = LAMPORTS_PER_SOL div 100 div 100 * 20 \<rparr> \<rparr>,
     \<lparr> cbt_borrow_amount = LAMPORTS_PER_SOL div 2, cbt_remaining_borrow_value = Decimal_from 1,
       cbt_remaining_reserve_capacity = Decimal_from LAMPORTS_PER_SOL, cbt_market_price = Decimal_from 1,
       cbt_smoothed_market_price = Decimal_from 1, cbt_extra_market_price = None, cbt_decimal = 9,
       cbt_added_borrow_weight_bps = 10000, cbt_borrow_fee_wad = 0, cbt_host_fee = 0,
       cbt_result = Inr \<lparr> cb_borrow_amount = Decimal_from (LAMPORTS_PER_SOL div 2), cb_receive_amount = LAMPORTS_PER_SOL div 2,
         cb_borrow_fee = 0, cb_host_fee = 0 \<rparr> \<rparr>,
     \<lparr> cbt_borrow_amount = u64_MAX, cbt_remaining_borrow_value = Decimal_from 1,
       cbt_remaining_reserve_capacity = Decimal_from LAMPORTS_PER_SOL, cbt_market_price = Decimal_from 1,
       cbt_smoothed_market_price = Decimal_from 1, cbt_extra_market_price = None, cbt_decimal = 9,
       cbt_added_borrow_weight_bps = 10000, cbt_borrow_fee_wad = 0, cbt_host_fee = 0,
       cbt_result = Inr \<lparr> cb_borrow_amount = Decimal_from (LAMPORTS_PER_SOL div 2), cb_receive_amount = LAMPORTS_PER_SOL div 2,
         cb_borrow_fee = 0, cb_host_fee = 0 \<rparr> \<rparr>,
     \<lparr> cbt_borrow_amount = u64_MAX, cbt_remaining_borrow_value = Decimal_from 100,
       cbt_remaining_reserve_capacity = Decimal_from (100 * LAMPORTS_PER_SOL), cbt_market_price = Decimal_from 10,
       cbt_smoothed_market_price = Decimal_from 20, cbt_extra_market_price = None, cbt_decimal = 9,
       cbt_added_borrow_weight_bps = 0, cbt_borrow_fee_wad = 0, cbt_host_fee = 0,
       cbt_result = Inr \<lparr> cb_borrow_amount = Decimal_from (5 * LAMPORTS_PER_SOL), cb_receive_amount = 5 * LAMPORTS_PER_SOL,
         cb_borrow_fee = 0, cb_host_fee = 0 \<rparr> \<rparr>,
     \<lparr> cbt_borrow_amount = u64_MAX, cbt_remaining_borrow_value = Decimal_from 100,
       cbt_remaining_reserve_capacity = Decimal_from (100 * LAMPORTS_PER_SOL), cbt_market_price = Decimal_from 20,
       cbt_smoothed_market_price = Decimal_from 10, cbt_extra_market_price = None, cbt_decimal = 9,
       cbt_added_borrow_weight_bps = 0, cbt_borrow_fee_wad = 0, cbt_host_fee = 0,
       cbt_result = Inr \<lparr> cb_borrow_amount = Decimal_from (5 * LAMPORTS_PER_SOL), cb_receive_amount = 5 * LAMPORTS_PER_SOL,
         cb_borrow_fee = 0, cb_host_fee = 0 \<rparr> \<rparr>,
     \<lparr> cbt_borrow_amount = 7 * LAMPORTS_PER_SOL, cbt_remaining_borrow_value = Decimal_from 100,
       cbt_remaining_reserve_capacity = Decimal_from (100 * LAMPORTS_PER_SOL), cbt_market_price = Decimal_from 10,
       cbt_smoothed_market_price = Decimal_from 20, cbt_extra_market_price = None, cbt_decimal = 9,
       cbt_added_borrow_weight_bps = 0, cbt_borrow_fee_wad = 0, cbt_host_fee = 0,
       cbt_result = Inl (Custom BorrowTooLarge) \<rparr>,
     \<lparr> cbt_borrow_amount = 7 * LAMPORTS_PER_SOL, cbt_remaining_borrow_value = Decimal_from 100,
       cbt_remaining_reserve_capacity = Decimal_from (100 * LAMPORTS_PER_SOL), cbt_market_price = Decimal_from 10,
       cbt_smoothed_market_price = Decimal_from 10, cbt_extra_market_price = Some (Decimal_from 20), cbt_decimal = 9,
       cbt_added_borrow_weight_bps = 0, cbt_borrow_fee_wad = 0, cbt_host_fee = 0,
       cbt_result = Inl (Custom BorrowTooLarge) \<rparr>]"

text \<open>
  The available amount of the test's reserve is the scaled capacity cut down to 64 bits
  (\<open>as u64\<close>), not the capacity itself.
\<close>

definition calculate_borrow_test :: "calculate_borrow_test_case \<Rightarrow> bool" where
  "calculate_borrow_test t =
     (let r = reserve_default
            \<lparr>res_config := reserve_config_default
               \<lparr>added_borrow_weight_bps := cbt_added_borrow_weight_bps t,
                fees := \<lparr> borrow_fee_wad = cbt_borrow_fee_wad t, flash_loan_fee_wad = 0,
                          host_fee_percentage = cbt_host_fee t \<rparr>\<rparr>,
             liquidity := reserve_liquidity_default
               \<lparr>mint_decimals := cbt_decimal t, market_price := cbt_market_price t,
                smoothed_market_price := cbt_smoothed_market_price t,
                extra_market_price := cbt_extra_market_price t,
                available_amount := ucast (projr (to_scaled_val (cbt_remaining_reserve_capacity t)))\<rparr>\<rparr>
      in calculate_borrow r (cbt_borrow_amount t) (cbt_remaining_borrow_value t)
           (cbt_remaining_reserve_capacity t) = cbt_result t)"

lemmas borrow_eval = calculate_borrow_test_def calculate_borrow_def borrow_weight_def
  calculate_borrow_fees_def calculate_fees_def price_eval

lemma calculate_borrow_tests: "list_all calculate_borrow_test calculate_borrow_test_cases"
  unfolding calculate_borrow_test_cases_def list.pred_inject
  by (intro conjI TrueI) (simp_all add: borrow_eval)

end
