(* ===== verification/SolendStateTests.thy ===== *)
theory SolendStateTests
  imports SolendTests
begin

text \<open>
  The unit tests of \<open>math/decimal.rs\<close>, \<open>math/rate.rs\<close>, \<open>state/obligation.rs\<close> and
  \<open>state/rate_limiter.rs\<close>, and the table of \<open>max_withdraw_amount\<close>, as executable definitions that
  evaluate to true on the model.
\<close>

section \<open>Decimal\<close>

definition exp10 :: "nat \<Rightarrow> 192 word" where "exp10 n = 10 ^ n"

text \<open>The 64-bit limbs of a 192-bit integer, least significant first.\<close>

definition limbs :: "192 word \<Rightarrow> u64 list" where
  "limbs w = [ucast w, ucast (drop_bit 64 w), ucast (drop_bit 128 w)]"

definition test_scaler :: bool where "test_scaler \<longleftrightarrow> exp10 SCALE = Decimal_wad"

definition test_u192 :: bool where
  "test_u192 \<longleftrightarrow> limbs 1 = [1, 0, 0] \<and> limbs Decimal_wad = [WAD, 0, 0] \<and>
     limbs (dec_raw (Decimal_from 100)) = [7766279631452241920, 5, 0]"

definition test_from_percent :: bool where
  "test_from_percent \<longleftrightarrow> try_div (Decimal_from 20) (Decimal_from 100) = Inr (Decimal_from_percent 20)"

definition test_from_deca_bps :: bool where
  "test_from_deca_bps \<longleftrightarrow> from_deca_bps 250 = Decimal_from_percent 25"

definition test_from_bps :: bool where
  "test_from_bps \<longleftrightarrow> from_bps 190000 = Decimal_from 19"

definition test_to_scaled_val :: bool where
  "test_to_scaled_val \<longleftrightarrow>
     to_scaled_val (Decimal (ucast (- 1 :: u128))) = Inr (- 1) \<and>
     to_scaled_val (projr (try_add (Decimal (ucast (- 1 :: u128))) (Decimal 1))) = Inl (Custom MathOverflow)"

definition test_round_floor_ceil_u64 :: bool where
  "test_round_floor_ceil_u64 =
     (let val0 = Decimal_one;
          val1 = projr (try_add val0 (from_scaled_val (ucast HALF_WAD - 1)));
          val2 = projr (try_add val1 (from_scaled_val 1))
      in try_round_u64 val0 = Inr 1 \<and> try_floor_u64 val0 = Inr 1 \<and> try_ceil_u64 val0 = Inr 1 \<and>
         try_round_u64 val1 = Inr 1 \<and> try_floor_u64 val1 = Inr 1 \<and> try_ceil_u64 val1 = Inr 2 \<and>
         try_round_u64 val2 = Inr 2 \<and> try_floor_u64 val2 = Inr 1 \<and> try_ceil_u64 val2 = Inr 2)"

definition Decimal_test_display :: bool where
  "Decimal_test_display \<longleftrightarrow> Decimal_fmt (Decimal_from 1) = ''1.000000000000000000'' \<and>
     Decimal_fmt (from_scaled_val 1) = ''0.000000000000000001''"

definition test_saturating_sub :: bool where
  "test_saturating_sub \<longleftrightarrow> Decimal_saturating_sub (Decimal_from 1) (Decimal_from 2) = Decimal_zero \<and>
     Decimal_saturating_sub (Decimal_from 2) (Decimal_from 1) = Decimal_one"

lemma decimal_representation_tests: "test_scaler" "test_u192"
  by (simp_all add: test_scaler_def exp10_def SCALE_def test_u192_def limbs_def wad_eval)

text \<open>The largest \<open>u64\<close> and \<open>u128\<close> as 192-bit integers.\<close>

lemma ucast_max [simp]:
  "(ucast u64_MAX :: 192 word) = 18446744073709551615"
  "(ucast (- 1 :: u128) :: 192 word) = 340282366920938463463374607431768211455"
  "(340282366920938463463374607431768211455 :: u128) = - 1"
  by (simp_all add: word_uint_eq_iff unsigned_ucast_eq unsigned_minus_1_eq_mask mask_eq_exp_minus_1)

lemma decimal_conversion_tests:
  "test_from_percent" "test_from_deca_bps" "test_from_bps" "test_to_scaled_val" "test_saturating_sub"
  by (simp_all add: test_from_percent_def test_from_deca_bps_def test_from_bps_def test_to_scaled_val_def
      test_saturating_sub_def Decimal_saturating_sub_def saturating_sub_def test_eval)

lemma decimal_rounding_tests: "test_round_floor_ceil_u64"
  by (simp add: test_round_floor_ceil_u64_def from_scaled_val_def test_eval)

lemma decimal_display_tests: "Decimal_test_display"
  by (simp add: Decimal_test_display_def Decimal_fmt_def fmt_scaled_def from_scaled_val_def
      to_string.simps digit_char_def char_of_def SCALE_def wad_eval bit_Suc_0_iff)
     (simp add: numeral_eq_Suc)

section \<open>Rate\<close>

definition test_scaled_val :: bool where
  "test_scaled_val \<longleftrightarrow> Rate_to_scaled_val (Rate_from_percent 50) = ucast HALF_WAD"

definition checked_pow_test :: bool where
  "checked_pow_test \<longleftrightarrow> try_pow Rate_one u64_MAX = Inr Rate_one \<and>
     try_pow (Rate_from_percent 200) 7 = Rate_try_from (Decimal_from 128)"

definition Rate_test_display :: bool where
  "Rate_test_display \<longleftrightarrow> Rate_fmt (projr (Rate_try_div_u64 Rate_one 3)) = ''0.333333333333333333''"

definition test_basic_arithmetic :: bool where
  "test_basic_arithmetic \<longleftrightarrow>
     Rate_try_add Rate_one Rate_one = Inr (Rate_from_scaled_val (2 * WAD)) \<and>
     Rate_try_sub Rate_one Rate_one = Inr Rate_zero \<and>
     Rate_try_mul (Rate_from_percent 240) (Rate_from_percent 50) = Inr (Rate_from_percent 120) \<and>
     Rate_try_mul_u64 (Rate_from_percent 240) 10 = Rate_try_from (Decimal_from 24) \<and>
     Rate_try_div (Rate_from_percent 240) (Rate_from_percent 60) = Inr (Rate_from_scaled_val (4 * WAD))"

text \<open>One to any power is one: the loop only multiplies one by one.\<close>

lemma one_times_one: "Rate_try_mul Rate_one Rate_one = Inr Rate_one"
  by (simp add: wad_eval)

lemma try_pow_loop_one: "try_pow_loop e Rate_one Rate_one = Inr Rate_one"
proof (induction "unat e" arbitrary: e rule: less_induct)
  case less
  show ?case
  proof (cases "e > 0")
    case True
    then have "unat (e div 2) < unat e" by (simp add: unat_div word_less_nat_alt)
    with less True show ?thesis by (simp add: try_pow_loop.simps [of e] Let_def one_times_one)
  qed (simp add: try_pow_loop.simps [of e])
qed

lemma try_pow_one: "try_pow Rate_one e = Inr Rate_one"
  using try_pow_loop_one [of e] by (simp add: try_pow_def flip: Rate_one_def)

lemma rate_pow_tests: "checked_pow_test"
  by (simp add: checked_pow_test_def try_pow_one)
     (simp add: try_pow_def try_pow_loop.simps wad_eval Let_def)

lemma rate_arithmetic_tests: "test_scaled_val" "test_basic_arithmetic"
  by (simp_all add: test_scaled_val_def test_basic_arithmetic_def Rate_try_mul_u64_def test_eval)

lemma rate_display_tests: "Rate_test_display"
  by (simp add: Rate_test_display_def Rate_fmt_def fmt_scaled_def to_string.simps digit_char_def
      char_of_def SCALE_def wad_eval bit_Suc_0_iff)

section \<open>Obligation\<close>

definition MAX_COMPOUNDED_INTEREST :: u64 where "MAX_COMPOUNDED_INTEREST = 100"

definition obligation_accrue_interest_failure :: bool where
  "obligation_accrue_interest_failure \<longleftrightarrow>
     ol_accrue_interest (obligation_liquidity_default\<lparr>ol_cumulative_borrow_rate_wads := Decimal_zero\<rparr>) Decimal_one
       = Inl (Custom MathOverflow) \<and>
     ol_accrue_interest (obligation_liquidity_default\<lparr>ol_cumulative_borrow_rate_wads := Decimal_from 2\<rparr>) Decimal_one
       = Inl (Custom NegativeInterestRate) \<and>
     ol_accrue_interest (obligation_liquidity_default\<lparr>ol_cumulative_borrow_rate_wads := Decimal_one,
         ol_borrowed_amount_wads := Decimal_from u64_MAX\<rparr>) (Decimal_from (10 * MAX_COMPOUNDED_INTEREST))
       = Inl (Custom MathOverflow)"

text \<open>The obligation and the expectation of the three tests of \<open>max_liquidation_amount\<close>.\<close>

definition max_liquidation_is :: "u64 \<Rightarrow> u64 \<Rightarrow> u64 \<Rightarrow> program_error + decimal \<Rightarrow> bool" where
  "max_liquidation_is borrowed worth whole want =
     (let l = obligation_liquidity_default\<lparr>ol_borrowed_amount_wads := Decimal_from borrowed,
                ol_market_value := Decimal_from worth\<rparr>;
          ob = obligation_default\<lparr>deposited_value := Decimal_from whole, borrowed_value := Decimal_from whole,
                borrows := [l]\<rparr>
      in max_liquidation_amount ob l = want)"

definition max_liquidation_amount_normal :: bool where
  "max_liquidation_amount_normal \<longleftrightarrow> max_liquidation_is 50 100 100
     (try_div_u64 (projr (try_mul (Decimal_from 50) (Decimal_from (ucast LIQUIDATION_CLOSE_FACTOR)))) 100)"

definition max_liquidation_amount_low_liquidity :: bool where
  "max_liquidation_amount_low_liquidity \<longleftrightarrow> max_liquidation_is 100 1 100 (Inr (Decimal_from 100))"

definition max_liquidation_amount_big_whale :: bool where
  "max_liquidation_amount_big_whale \<longleftrightarrow> max_liquidation_is 1000000000 1000000000 1000000000
     (Inr (Decimal_from MAX_LIQUIDATABLE_VALUE_AT_ONCE))"

lemma obligation_accrue_tests: "obligation_accrue_interest_failure"
  by (simp add: obligation_accrue_interest_failure_def ol_accrue_interest_def obligation_liquidity_default_def
      MAX_COMPOUNDED_INTEREST_def test_eval)

lemma max_liquidation_tests:
  "max_liquidation_amount_normal" "max_liquidation_amount_low_liquidity" "max_liquidation_amount_big_whale"
  by (simp_all add: max_liquidation_amount_normal_def max_liquidation_amount_low_liquidity_def
      max_liquidation_amount_big_whale_def max_liquidation_is_def max_liquidation_amount_def
      obligation_default_def LIQUIDATION_CLOSE_FACTOR_def MAX_LIQUIDATABLE_VALUE_AT_ONCE_def test_eval)

subsection \<open>Withdrawal table\<close>

record max_withdraw_amount_test_case =
  mw_obligation :: obligation
  mw_reserve :: solend_reserve
  mw_expected :: u64

definition mw_collateral :: "u64 \<Rightarrow> obligation_collateral" where
  "mw_collateral sol = obligation_collateral_default\<lparr>deposited_amount := sol * LAMPORTS_PER_SOL\<rparr>"

definition mw_borrow :: obligation_liquidity where
  "mw_borrow = obligation_liquidity_default\<lparr>ol_borrowed_amount_wads := Decimal_from 10\<rparr>"

definition mw_half_ltv :: solend_reserve where
  "mw_half_ltv = reserve_default\<lparr>res_config := reserve_config_default\<lparr>loan_to_value_ratio_pct := 50\<rparr>\<rparr>"

definition mw_priced :: "decimal \<Rightarrow> decimal option \<Rightarrow> solend_reserve" where
  "mw_priced smoothed extra = mw_half_ltv
     \<lparr>liquidity := reserve_liquidity_default\<lparr>available_amount := 100 * LAMPORTS_PER_SOL,
        borrowed_amount_wads := Decimal_zero, market_price := Decimal_from 10, smoothed_market_price := smoothed,
        extra_market_price := extra, mint_decimals := 9\<rparr>,
      collateral := reserve_collateral_default\<lparr>mint_total_supply := 50 * LAMPORTS_PER_SOL\<rparr>\<rparr>"

definition max_withdraw_amount_test_cases :: "max_withdraw_amount_test_case list" where
  "max_withdraw_amount_test_cases = [
     \<lparr> mw_obligation = obligation_default\<lparr>deposits := [mw_collateral 20], borrows := [mw_borrow],
         deposited_value := Decimal_from 100, borrowed_value_upper_bound := Decimal_from 50,
         allowed_borrow_value := Decimal_from 50\<rparr>,
       mw_reserve = mw_half_ltv, mw_expected = 0 \<rparr>,
     \<lparr> mw_obligation = obligation_default\<lparr>deposits := [mw_collateral 20], borrows := [mw_borrow],
         allowed_borrow_value := Decimal_from 100, borrowed_value_upper_bound := Decimal_from 50\<rparr>,
       mw_reserve = mw_priced (Decimal_from 5) None, mw_expected = 10 * LAMPORTS_PER_SOL \<rparr>,
     \<lparr> mw_obligation = obligation_default\<lparr>deposits := [mw_collateral 20], borrows := [mw_borrow],
         allowed_borrow_value := Decimal_from 100, borrowed_value_upper_bound := Decimal_from 50\<rparr>,
       mw_reserve = mw_priced (Decimal_from 10) (Some (Decimal_from 5)), mw_expected = 10 * LAMPORTS_PER_SOL \<rparr>,
     \<lparr> mw_obligation = obligation_default\<lparr>deposits := [mw_collateral 2], borrows := [mw_borrow],
         allowed_borrow_value := Decimal_from 100, borrowed_value_upper_bound := Decimal_from 50\<rparr>,
       mw_reserve = mw_priced (Decimal_from 5) None, mw_expected = 2 * LAMPORTS_PER_SOL \<rparr>,
     \<lparr> mw_obligation = obligation_default\<lparr>deposits := [mw_collateral 100], allowed_borrow_value := Decimal_from 100\<rparr>,
       mw_reserve = mw_half_ltv, mw_expected = 100 * LAMPORTS_PER_SOL \<rparr>,
     \<lparr> mw_obligation = obligation_default\<lparr>deposits := [mw_collateral 100], borrows := [mw_borrow],
         allowed_borrow_value := Decimal_from 100, borrowed_value_upper_bound := Decimal_from 50\<rparr>,
       mw_reserve = reserve_default, mw_expected = 100 * LAMPORTS_PER_SOL \<rparr>,
     \<lparr> mw_obligation = obligation_default\<lparr>deposits := [mw_collateral 100], borrows := [mw_borrow],
         allowed_borrow_value := Decimal_from 100, borrowed_value_upper_bound := Decimal_from 100\<rparr>,
       mw_reserve = reserve_default, mw_expected = 0 \<rparr>]"

definition max_withdraw_amount_test :: "max_withdraw_amount_test_case \<Rightarrow> bool" where
  "max_withdraw_amount_test t \<longleftrightarrow>
     max_withdraw_amount (mw_obligation t) (deposits (mw_obligation t) ! 0) (mw_reserve t) = Inr (mw_expected t)"

lemmas withdraw_eval = obligation_default_def max_withdraw_amount_test_def max_withdraw_amount_def mw_collateral_def mw_borrow_def
  mw_priced_def mw_half_ltv_def loan_to_value_ratio_def collateral_exchange_rate_def exchange_rate_def
  total_supply_def decimal_liquidity_to_collateral_def reserve_default_def reserve_config_default_def
  reserve_liquidity_default_def price_eval

lemma max_withdraw_amount_tests: "list_all max_withdraw_amount_test max_withdraw_amount_test_cases"
  unfolding max_withdraw_amount_test_cases_def list.pred_inject
  by (intro conjI TrueI) (simp_all add: withdraw_eval)

section \<open>Rate limiter\<close>

text \<open>
  The test drives one limiter through a sequence of calls.  A step is a call with the result it
  must have; the next step sees the limiter that the call leaves behind, also after an error.
\<close>

datatype limiter_step = Updates u64 u64 "program_error + unit" | Remains u64 "program_error + decimal"

fun limiter_steps :: "rate_limiter \<Rightarrow> limiter_step list \<Rightarrow> rate_limiter option" where
  "limiter_steps rl [] = Some rl"
| "limiter_steps rl (Updates slot qty result # steps) =
     (case rl_update rl slot (Decimal_from qty) of
        (out, rl') \<Rightarrow> if out = result then limiter_steps rl' steps else None)"
| "limiter_steps rl (Remains slot result # steps) =
     (case remaining_outflow rl slot of
        (out, rl') \<Rightarrow> if out = result then limiter_steps rl' steps else None)"

definition limiter_exceeded :: "program_error + unit" where
  "limiter_exceeded = Inl (Custom OutflowRateLimitExceeded)"

definition no_previous_window :: "limiter_step list" where
  "no_previous_window =
     [Updates 9 1 (Inl (Custom InvalidAccountInput)), Updates 10 101 limiter_exceeded,
      Remains 10 (Inr (Decimal_from 100)), Updates 10 100 (Inr ()), Remains 10 (Inr (Decimal_from 0))] @
     concat (map (\<lambda>i. [Updates i 1 limiter_exceeded, Remains i (Inr (Decimal_from 0))])
       [11, 12, 13, 14, 15, 16, 17, 18, 19])"

definition previous_window_at :: "u64 \<Rightarrow> limiter_step list" where
  "previous_window_at i =
     [Updates i 11 limiter_exceeded, Remains i (Inr (Decimal_from 10)), Updates i 10 (Inr ()),
      Remains i (Inr (Decimal_from 0)), Updates i 1 limiter_exceeded]"

definition previous_window_counts :: "limiter_step list" where
  "previous_window_counts = concat (map previous_window_at [20, 21, 22, 23, 24, 25, 26, 27, 28, 29])"

definition previous_window_dropped :: "limiter_step list" where
  "previous_window_dropped =
     [Remains 100 (Inr (Decimal_from 100)), Updates 100 10 (Inr ())] @
     concat (map (\<lambda>i. [Remains i (Inr (Decimal_from (100 - 10 * (i - 100)))), Updates i 10 (Inr ()),
         Remains i (Inr (Decimal_from (90 - 10 * (i - 100))))])
       [101, 102, 103, 104, 105, 106, 107, 108])"

definition test_rate_limiter :: bool where
  "test_rate_limiter \<longleftrightarrow>
     limiter_steps (rate_limiter_new \<lparr> window_duration = 10, max_outflow = 100 \<rparr> 10)
       (no_previous_window @ previous_window_counts @ previous_window_dropped) \<noteq> None"

lemma limiter_steps_append:
  "limiter_steps rl (xs @ ys) = Option.bind (limiter_steps rl xs) (\<lambda>rl'. limiter_steps rl' ys)"
  by (induction rl xs rule: limiter_steps.induct) (auto split: prod.splits)

text \<open>
  All quantities of the run are whole tokens, so the limiter computes with whole tokens: the
  outflow that a window of ten slots still counts from the previous one is exact.
\<close>

definition ten_slot_limiter :: "u64 \<Rightarrow> u64 \<Rightarrow> u64 \<Rightarrow> rate_limiter" where
  "ten_slot_limiter prev start cur = \<lparr> rl_config = \<lparr> window_duration = 10, max_outflow = 100 \<rparr>,
     prev_qty = Decimal_from prev, window_start = start, cur_qty = Decimal_from cur \<rparr>"

lemma Decimal_from_compare:
  "Decimal_from a < Decimal_from b \<longleftrightarrow> a < b" "Decimal_from a = Decimal_from b \<longleftrightarrow> a = b"
  "Decimal_zero = Decimal_from 0"
  using wad_pos by (simp_all add: dec_less_iff dec_eq_iff word_less_nat_alt word_unat_eq_iff del: wad_pos)

lemma Decimal_from_add:
  assumes "unat a + unat b < 2 ^ 64"
  shows "try_add (Decimal_from a) (Decimal_from b) = Inr (Decimal_from (a + b))"
proof -
  have "unat (a + b) = unat a + unat b" using assms by (simp add: unat_word_ariths)
  then show ?thesis by (simp add: try_add_iff distrib_left)
qed

lemma Decimal_from_sub:
  assumes "b \<le> a"
  shows "try_sub (Decimal_from a) (Decimal_from b) = Inr (Decimal_from (a - b))"
proof -
  have "unat a = unat (a - b) + unat b" using assms by (simp add: unat_sub word_le_nat_alt)
  then show ?thesis by (simp add: try_sub_iff flip: distrib_left)
qed

lemma ten_slot_outflow:
  assumes j: "s - start = j" "j \<le> 9" and "m \<le> 100"
  shows "current_outflow (ten_slot_limiter (10 * m) start cur) s =
    try_add (Decimal_from ((9 - j) * m)) (Decimal_from cur)"
proof -
  have uj: "unat j \<le> 9" and m: "unat m \<le> 100" using assms by (simp_all add: word_le_nat_alt)
  have "unat (j + 1) = unat j + 1" using uj by (simp add: unat_word_ariths)
  then have le: "j + 1 \<le> 10" using uj by (simp add: word_le_nat_alt)
  have "10 - (j + 1) = 9 - j" by simp
  then have w: "try_sub (Decimal_from 10) (Decimal_from (j + 1)) = Inr (Decimal_from (9 - j))"
    using Decimal_from_sub [OF le] by simp
  have k: "unat (9 - j) = 9 - unat j" using j(2) by (simp add: unat_sub)
  have "wad div 10 * (9 - unat j) \<le> wad div 10 * 9" by simp
  also have "\<dots> < 2 ^ 192" by (simp add: wad_def)
  finally obtain q where q: "dv q = wad div 10 * (9 - unat j)" using dm.raw_surj by blast
  have div: "try_div_u64 (Decimal_from (9 - j)) 10 = Inr q" by (simp add: try_div_u64_iff k q wad_def)
  have km: "unat ((9 - j) * m) = (9 - unat j) * unat m"
    using m mult_le_mono [of "9 - unat j" 9 "unat m" 100] by (simp add: unat_word_ariths k)
  have m10: "unat (10 * m) = 10 * unat m" using m by (simp add: unat_word_ariths)
  have "wad div 10 * (9 - unat j) * (wad * (10 * unat m)) = (wad * ((9 - unat j) * unat m)) * wad"
    by (simp add: wad_def)
  moreover have "wad * ((9 - unat j) * unat m) * wad \<le> wad * (9 * 100) * wad"
    using m by (intro mult_le_mono) simp_all
  then have "wad * ((9 - unat j) * unat m) * wad < 2 ^ 192" by (simp add: wad_def)
  ultimately have "try_mul q (Decimal_from (10 * m)) = Inr (Decimal_from ((9 - j) * m))"
    by (simp only: try_mul_iff q dv_Decimal_from m10 km) simp
  then show ?thesis using w div j(1) by (simp add: current_outflow_def ten_slot_limiter_def Let_def)
qed

text \<open>One call on the limiter of the test, within the current window.\<close>

lemma ten_slot_calls:
  assumes j: "s - start = j" "j \<le> 9" and win: "start \<le> s" "s div 10 * 10 < start + 10" and "m \<le> 100"
    and cur: "cur \<le> 100" "qty \<le> 200"
  shows "rl_update (ten_slot_limiter (10 * m) start cur) s (Decimal_from qty) =
      (if 100 < (9 - j) * m + cur + qty then (limiter_exceeded, ten_slot_limiter (10 * m) start cur)
       else (Inr (), ten_slot_limiter (10 * m) start (cur + qty)))"
    and "remaining_outflow (ten_slot_limiter (10 * m) start cur) s =
      (if 100 < (9 - j) * m + cur then (Inr (Decimal_from 0), ten_slot_limiter (10 * m) start cur)
       else (Inr (Decimal_from (100 - ((9 - j) * m + cur))), ten_slot_limiter (10 * m) start cur))"
proof -
  have roll: "rl_roll (ten_slot_limiter (10 * m) start cur) s = Inr (ten_slot_limiter (10 * m) start cur)"
    using win by (simp add: rl_roll_def ten_slot_limiter_def Let_def)
  have fields: "window_duration (rl_config (ten_slot_limiter (10 * m) start cur)) = 10"
    "max_outflow (rl_config (ten_slot_limiter (10 * m) start cur)) = 100"
    "cur_qty (ten_slot_limiter (10 * m) start cur) = Decimal_from cur"
    "(ten_slot_limiter (10 * m) start cur)\<lparr>cur_qty := Decimal_from (cur + qty)\<rparr> = ten_slot_limiter (10 * m) start (cur + qty)"
    by (simp_all add: ten_slot_limiter_def)
  have b: "unat j \<le> 9" "unat m \<le> 100" "unat cur \<le> 100" "unat qty \<le> 200"
    using assms by (simp_all add: word_le_nat_alt)
  have k: "unat ((9 - j) * m) \<le> 900"
    using b mult_le_mono [of "9 - unat j" 9 "unat m" 100] j(2) by (simp add: unat_word_ariths unat_sub)
  have c1: "current_outflow (ten_slot_limiter (10 * m) start cur) s = Inr (Decimal_from ((9 - j) * m + cur))"
    using ten_slot_outflow [OF j \<open>m \<le> 100\<close>] Decimal_from_add [of "(9 - j) * m" cur] k b by simp
  have u: "unat ((9 - j) * m + cur) \<le> 1000" using k b by (simp add: unat_word_ariths)
  have c2: "try_add (Decimal_from ((9 - j) * m + cur)) (Decimal_from qty) = Inr (Decimal_from ((9 - j) * m + cur + qty))"
    "try_add (Decimal_from cur) (Decimal_from qty) = Inr (Decimal_from (cur + qty))"
    using u b by (auto intro: Decimal_from_add)
  show "rl_update (ten_slot_limiter (10 * m) start cur) s (Decimal_from qty) =
      (if 100 < (9 - j) * m + cur + qty then (limiter_exceeded, ten_slot_limiter (10 * m) start cur)
       else (Inr (), ten_slot_limiter (10 * m) start (cur + qty)))"
    by (simp add: rl_update_def roll fields c1 c2 Decimal_from_compare limiter_exceeded_def del: add.assoc)
  show "remaining_outflow (ten_slot_limiter (10 * m) start cur) s =
      (if 100 < (9 - j) * m + cur then (Inr (Decimal_from 0), ten_slot_limiter (10 * m) start cur)
       else (Inr (Decimal_from (100 - ((9 - j) * m + cur))), ten_slot_limiter (10 * m) start cur))"
    by (auto simp: remaining_outflow_def roll fields c1 Decimal_from_compare Decimal_from_sub not_less)
qed

lemmas first_window_calls = ten_slot_calls(1) [OF refl, where m = 0 and start = 10, simplified]
  ten_slot_calls(2) [OF refl, where m = 0 and start = 10 and qty = 0, simplified]

lemmas second_window_calls = ten_slot_calls(1) [OF refl, where m = 10 and start = 20, simplified]
  ten_slot_calls(2) [OF refl, where m = 10 and start = 20 and qty = 0, simplified]

lemmas late_window_calls = ten_slot_calls(1) [OF refl, where m = 0 and start = 100, simplified]
  ten_slot_calls(2) [OF refl, where m = 0 and start = 100 and qty = 0, simplified]

lemma limiter_rolls:
  "rl_update (ten_slot_limiter 0 10 0) 9 q = (Inl (Custom InvalidAccountInput), ten_slot_limiter 0 10 0)"
  "rl_update (ten_slot_limiter 0 10 100) 20 q = rl_update (ten_slot_limiter 100 20 0) 20 q"
  "remaining_outflow (ten_slot_limiter 100 20 100) 100 = remaining_outflow (ten_slot_limiter 0 100 0) 100"
  by (simp_all add: rl_update_def remaining_outflow_def rl_roll_def ten_slot_limiter_def Decimal_from_compare)

lemma no_previous_window_run:
  "limiter_steps (ten_slot_limiter 0 10 0) no_previous_window = Some (ten_slot_limiter 0 10 100)"
  by (simp add: no_previous_window_def limiter_rolls first_window_calls)

lemma previous_window_counts_run:
  "limiter_steps (ten_slot_limiter 0 10 100) previous_window_counts = Some (ten_slot_limiter 100 20 100)"
  by (simp add: previous_window_counts_def previous_window_at_def limiter_rolls second_window_calls)

lemma previous_window_dropped_run:
  "limiter_steps (ten_slot_limiter 100 20 100) previous_window_dropped = Some (ten_slot_limiter 0 100 90)"
  by (simp add: previous_window_dropped_def limiter_rolls late_window_calls)

lemma rate_limiter_tests: "test_rate_limiter"
proof -
  have "rate_limiter_new \<lparr> window_duration = 10, max_outflow = 100 \<rparr> 10 = ten_slot_limiter 0 10 0"
    by (simp add: rate_limiter_new_def ten_slot_limiter_def Decimal_from_compare)
  then show ?thesis
    by (simp add: test_rate_limiter_def limiter_steps_append no_previous_window_run
        previous_window_counts_run previous_window_dropped_run)
qed

end
