(* ===== verification/SolendPropertyTests.thy ===== *)
theory SolendPropertyTests
  imports SolendStateTests
begin

text \<open>
  The property tests of \<open>state/reserve.rs\<close> and \<open>state/obligation.rs\<close>.  A test is a predicate on the
  values that its generators produce, false when an assertion of the body fails or a question mark
  returns an error.  Where the test harness samples the generators, the lemmas here cover them: they
  prove the predicate for all values in range, or name values in range for which it is false.
\<close>

section \<open>Repaying\<close>

definition owing :: "u128 \<Rightarrow> obligation" where
  "owing borrowed = obligation_default
     \<lparr>borrows := [obligation_liquidity_default\<lparr>ol_borrowed_amount_wads := from_scaled_val borrowed\<rparr>]\<rparr>"

definition MAX_BORROWED :: u128 where "MAX_BORROWED = ucast u64_MAX * ucast WAD"

text \<open>The pairs (repay, borrowed) of the two generators, from the amount that they draw.\<close>

definition repay_partial_amounts :: "u64 \<Rightarrow> u128 \<Rightarrow> u128 \<Rightarrow> bool" where
  "repay_partial_amounts amount repaid borrowed \<longleftrightarrow>
     1 \<le> amount \<and> repaid = ucast WAD * ucast amount \<and>
     ucast WAD * ucast amount + 1 \<le> borrowed \<and> borrowed \<le> MAX_BORROWED"

definition repay_full_amounts :: "u64 \<Rightarrow> u128 \<Rightarrow> u128 \<Rightarrow> bool" where
  "repay_full_amounts amount repaid borrowed \<longleftrightarrow>
     1 \<le> amount \<and> repaid = ucast WAD * ucast amount \<and> borrowed = repaid"

definition repay_partial :: "u128 \<Rightarrow> u128 \<Rightarrow> bool" where
  "repay_partial repaid borrowed =
     (case ob_repay (owing borrowed) (from_scaled_val repaid) 0 of
        Inr (Inr ob) \<Rightarrow>
          ol_borrowed_amount_wads (borrows ob ! 0) < from_scaled_val borrowed \<and>
          ol_borrowed_amount_wads (borrows ob ! 0) > Decimal_zero
      | _ \<Rightarrow> False)"

definition repay_full :: "u128 \<Rightarrow> u128 \<Rightarrow> bool" where
  "repay_full repaid borrowed =
     (case ob_repay (owing borrowed) (from_scaled_val repaid) 0 of
        Inr (Inr ob) \<Rightarrow> length (borrows ob) = 0
      | _ \<Rightarrow> False)"

lemma unat_wad_times: "unat (ucast WAD * ucast (n :: u64) :: u128) = wad * unat n"
proof -
  have "wad * unat n < 2 ^ 60 * 2 ^ 64"
    using unat_less_pow [of n] by (intro mult_strict_mono) (auto simp: wad_def)
  then show ?thesis by (simp add: unat_word_ariths unat_ucast_up WAD_def wad_def)
qed

lemma repay_partial_holds:
  assumes "repay_partial_amounts amount repaid borrowed"
  shows "repay_partial repaid borrowed"
proof -
  have r: "unat repaid = wad * unat amount" and pos: "0 < unat amount"
    using assms by (auto simp: repay_partial_amounts_def unat_wad_times word_le_nat_alt)
  have "wad * unat amount + 1 < 2 ^ 128"
    using unat_less_pow [of amount] by (simp add: wad_def)
  then have lt: "unat repaid < unat borrowed"
    using assms r by (simp add: repay_partial_amounts_def word_le_nat_alt unat_word_ariths unat_wad_times)
  then obtain b where b: "try_sub (from_scaled_val borrowed) (from_scaled_val repaid) = Inr b"
    "unat borrowed = dv b + unat repaid"
    using dm.sub_total [of "from_scaled_val repaid" "from_scaled_val borrowed"] by auto
  have "0 < unat repaid" using r pos by simp
  with b lt show ?thesis
    by (auto simp: repay_partial_def ob_repay_def owing_def ol_repay_def dec_eq_iff dec_less_iff)
qed

lemma repay_full_holds:
  "repay_full_amounts amount repaid borrowed \<Longrightarrow> repay_full repaid borrowed"
  by (simp add: repay_full_amounts_def repay_full_def ob_repay_def owing_def vec_remove_def)

section \<open>Utilization and the borrow rate\<close>

definition MAX_LIQUIDITY :: u64 where "MAX_LIQUIDITY = u64_MAX div 5"

text \<open>The liquidity that both tests build from the drawn total and the borrowed share of it.\<close>

definition test_liquidity :: "u64 \<Rightarrow> u64 \<Rightarrow> program_error + reserve_liquidity" where
  "test_liquidity total_liquidity borrowed_percent =
     and_then (try_mul_rate (Decimal_from total_liquidity) (Rate_from_scaled_val borrowed_percent)) (\<lambda>borrowed.
     and_then (try_round_u64 borrowed) (\<lambda>n.
       Inr (reserve_liquidity_default\<lparr>borrowed_amount_wads := borrowed,
              available_amount := total_liquidity - n\<rparr>)))"

definition current_utilization_rate :: "u64 \<Rightarrow> u64 \<Rightarrow> bool" where
  "current_utilization_rate total_liquidity borrowed_percent =
     (case and_then (test_liquidity total_liquidity borrowed_percent) utilization_rate of
        Inr current_rate \<Rightarrow> current_rate \<le> Rate_one
      | Inl _ \<Rightarrow> False)"

definition utilizations :: "u8 \<Rightarrow> u8 \<Rightarrow> bool" where
  "utilizations opt mx \<longleftrightarrow> opt \<le> mx \<and> mx \<le> 100"

definition borrow_rates :: "u8 \<Rightarrow> u8 \<Rightarrow> u8 \<Rightarrow> u64 \<Rightarrow> bool" where
  "borrow_rates lo opt hi super \<longleftrightarrow> lo \<le> opt \<and> opt \<le> hi \<and> ucast hi \<le> super"

definition rate_test_config :: "u8 \<Rightarrow> u8 \<Rightarrow> u8 \<Rightarrow> u8 \<Rightarrow> u8 \<Rightarrow> u64 \<Rightarrow> reserve_config" where
  "rate_test_config uo um lo opt hi super = reserve_config_default
     \<lparr>optimal_utilization_rate := uo, max_utilization_rate := um, min_borrow_rate := lo,
      optimal_borrow_rate := opt, max_borrow_rate := hi, super_max_borrow_rate := super\<rparr>"

definition current_borrow_rate_test :: "u64 \<Rightarrow> u64 \<Rightarrow> u8 \<Rightarrow> u8 \<Rightarrow> u8 \<Rightarrow> u8 \<Rightarrow> u8 \<Rightarrow> u64 \<Rightarrow> bool" where
  "current_borrow_rate_test total_liquidity borrowed_percent uo um lo opt hi super =
     (case test_liquidity total_liquidity borrowed_percent of
        Inl _ \<Rightarrow> False
      | Inr l \<Rightarrow>
          (case (current_borrow_rate (reserve_default\<lparr>liquidity := l,
                   res_config := rate_test_config uo um lo opt hi super\<rparr>), utilization_rate l) of
             (Inr rt, Inr current_rate) \<Rightarrow>
               rt \<ge> Rate_from_percent lo \<and> rt \<le> Rate_from_percent_u64 super \<and>
               (if current_rate \<le> Rate_from_percent uo then rt \<le> Rate_from_percent opt
                else if current_rate \<le> Rate_from_percent um
                then rt \<ge> Rate_from_percent opt \<and> rt \<le> Rate_from_percent hi
                else rt \<ge> Rate_from_percent hi \<and> rt \<le> Rate_from_percent_u64 super)
           | _ \<Rightarrow> False))"

lemma utilization_total:
  assumes "accumulated_protocol_fees_wads l = Decimal_zero" and small: "dv (borrowed_amount_wads l) \<le> 2 ^ 125"
  shows "\<exists>u. utilization_rate l = Inr u"
proof -
  let ?b = "borrowed_amount_wads l" and ?a = "available_amount l"
  have a: "wad * unat ?a < wad * 2 ^ 64" using unat_less_pow [of ?a] by simp
  then have fit: "dv ?b + wad * unat ?a < 2 ^ 192" "dv ?b * wad < 2 ^ 192"
    using small by (simp_all add: wad_def)
  obtain s where s: "total_supply l = Inr s" "dv s = dv ?b + wad * unat ?a"
    using dm.add_total [of "Decimal_from ?a" ?b] fit(1) assms(1)
    by (auto simp: total_supply_def try_sub_iff add.commute and_then_Inr_iff)
  obtain d where d: "try_add ?b (Decimal_from ?a) = Inr d" "dv d = dv s"
    using dm.add_total [of ?b "Decimal_from ?a"] fit(1) s(2) by auto
  show ?thesis
  proof (cases "?b = Decimal_zero")
    case False
    then have nz: "dv d \<noteq> 0" using s d by (simp add: dec_eq_iff)
    have "dv ?b \<le> dv d" using s d by simp
    then have le: "dv ?b * wad div dv d \<le> wad"
      using div_le_mono [OF mult_le_mono1, of "dv ?b" "dv d" wad "dv d"] nz by (metis nonzero_mult_div_cancel_left)
    obtain q where q: "try_div ?b d = Inr q" "dv q = dv ?b * wad div dv d"
      using nz fit(2) le dm.raw_surj [of "dv ?b * wad div dv d"] by (auto simp: try_div_iff wad_def)
    obtain u where "Rate_try_from q = Inr u"
      using le q(2) rm.raw_surj [of "dv q"] by (auto simp: Rate_try_from_iff wad_def)
    then show ?thesis using s d q by (auto simp: utilization_rate_def)
  qed (simp add: utilization_rate_def s)
qed

text \<open>A part of a token amount can be computed, and rounds to at most the amount.\<close>

lemma part_total:
  assumes "dv a \<le> wad * unat (n :: u64)" and "rv r \<le> wad"
  shows "\<exists>c. try_mul_rate a r = Inr c \<and> dv c = dv a * rv r div wad \<and> dv c \<le> dv a"
proof -
  have "wad * unat n \<le> wad * 2 ^ 64" using unat_less_pow [of n] by simp
  then have "dv a * rv r \<le> wad * 2 ^ 64 * wad" using assms by (intro mult_le_mono) (blast intro: order.trans)+
  also have "\<dots> < 2 ^ 192" by (simp add: wad_def)
  finally obtain c where c: "try_mul_rate a r = Inr c"
    using dm.mul_total [of a "Decimal_from_Rate r"] by (auto simp: try_mul_rate_def)
  then show ?thesis
    using dm.mul_fraction_le [of a "Decimal_from_Rate r" c] assms(2)
    by (auto simp: try_mul_rate_def try_mul_iff)
qed

lemma round_total:
  assumes "dv a \<le> wad * unat (n :: u64)"
  shows "\<exists>m. try_round_u64 a = Inr m \<and> m \<le> n"
proof -
  have "(wad div 2 + dv a) div wad \<le> (wad - 1 + wad * unat n) div wad"
    using assms by (intro div_le_mono) (simp add: wad_def)
  also have "\<dots> = unat n" by (simp add: div_mult_self2 wad_def)
  finally have le: "(wad div 2 + dv a) div wad \<le> unat n" .
  define m :: u64 where "m = of_nat ((wad div 2 + dv a) div wad)"
  have "unat m = (wad div 2 + dv a) div wad"
    using le unat_less_pow [of n] by (simp add: m_def unat_of_nat take_bit_nat_eq_self)
  moreover have "wad * unat n < wad * 2 ^ 64" using unat_less_pow [of n] by simp
  then have "wad div 2 + dv a < 2 ^ 192" using assms by (simp add: wad_def)
  ultimately show ?thesis using le by (auto simp: try_round_u64_iff word_le_nat_alt)
qed

lemma test_liquidity_total:
  assumes "borrowed_percent \<le> WAD"
  shows "\<exists>l u. test_liquidity total_liquidity borrowed_percent = Inr l \<and> utilization_rate l = Inr u"
proof -
  have "rv (Rate_from_scaled_val borrowed_percent) \<le> wad"
    using assms by (simp add: word_le_nat_alt WAD_def wad_def)
  then obtain b where b: "dv b \<le> wad * unat total_liquidity"
    "try_mul_rate (Decimal_from total_liquidity) (Rate_from_scaled_val borrowed_percent) = Inr b"
    using part_total [of "Decimal_from total_liquidity" total_liquidity "Rate_from_scaled_val borrowed_percent"]
    by auto
  obtain n where n: "try_round_u64 b = Inr n" using round_total [OF b(1)] by blast
  let ?l = "reserve_liquidity_default\<lparr>borrowed_amount_wads := b, available_amount := total_liquidity - n\<rparr>"
  have "test_liquidity total_liquidity borrowed_percent = Inr ?l"
    by (simp add: test_liquidity_def b n)
  moreover have "wad * unat total_liquidity < wad * 2 ^ 64" using unat_less_pow [of total_liquidity] by simp
  then have "\<exists>u. utilization_rate ?l = Inr u"
    using b(1) by (intro utilization_total) (simp_all add: reserve_liquidity_default_def wad_def)
  ultimately show ?thesis by blast
qed

lemma current_utilization_rate_holds:
  "borrowed_percent \<le> WAD \<Longrightarrow> current_utilization_rate total_liquidity borrowed_percent"
  using test_liquidity_total [of borrowed_percent total_liquidity] utilization_le_one
  by (fastforce simp: current_utilization_rate_def rate_le_iff)

lemma rate_test_config_valid:
  assumes "utilizations uo um" and "borrow_rates lo opt hi super"
  shows "validate_reserve_config (rate_test_config uo um lo opt hi super) = Inr ()"
proof -
  have "uo \<le> um" "um \<le> 100" "uo \<le> 100" using assms(1) by (auto simp: utilizations_def)
  with assms(2) show ?thesis
    by (simp add: borrow_rates_def validate_reserve_config_def rate_test_config_def reserve_config_default_def
        reserve_fees_default_def MAX_BONUS_PCT_def WAD_def MAX_PROTOCOL_LIQUIDATION_FEE_DECA_BPS_def
        MIN_SCALED_PRICE_OFFSET_BPS_def MAX_SCALED_PRICE_OFFSET_BPS_def not_less)
qed

theorem current_borrow_rate_test_holds:
  assumes "borrowed_percent \<le> WAD" and "utilizations uo um" and "borrow_rates lo opt hi super"
  shows "current_borrow_rate_test total_liquidity borrowed_percent uo um lo opt hi super"
proof -
  obtain l u where l: "test_liquidity total_liquidity borrowed_percent = Inr l" and u: "utilization_rate l = Inr u"
    using test_liquidity_total [OF assms(1)] by blast
  let ?r = "reserve_default\<lparr>liquidity := l, res_config := rate_test_config uo um lo opt hi super\<rparr>"
  have v: "validate_reserve_config (res_config ?r) = Inr ()"
    using rate_test_config_valid [OF assms(2,3)] by simp
  have u': "utilization_rate (liquidity ?r) = Inr u" using u by simp
  have cfg: "optimal_utilization_rate (res_config ?r) = uo" "max_utilization_rate (res_config ?r) = um"
    "min_borrow_rate (res_config ?r) = lo" "optimal_borrow_rate (res_config ?r) = opt"
    "max_borrow_rate (res_config ?r) = hi" "super_max_borrow_rate (res_config ?r) = super"
    by (simp_all add: rate_test_config_def)
  note pieces = low_rate [OF v u'] mid_rate [OF v u'] top_rate [OF v u']
  have mono: "unat lo * (wad div 100) \<le> unat opt * (wad div 100)" "unat opt * (wad div 100) \<le> unat hi * (wad div 100)"
    "unat hi * (wad div 100) \<le> unat super * (wad div 100)"
    using validate_ok(5,6,7) [OF v] unfolding cfg by (simp_all add: mult_le_mono1)
  show ?thesis
  proof (cases "u \<le> Rate_from_percent uo")
    case True
    with pieces(1) obtain y where y: "current_borrow_rate ?r = Inr y"
      "unat lo * (wad div 100) \<le> rv y" "rv y \<le> unat opt * (wad div 100)" unfolding cfg by blast
    have "rv y \<le> unat super * (wad div 100)" using y(3) mono(2,3) by linarith
    with y True show ?thesis by (simp add: current_borrow_rate_test_def l u rate_le_iff)
  next
    case above: False
    show ?thesis
    proof (cases "u \<le> Rate_from_percent um")
      case True
      with pieces(2) above obtain y where y: "current_borrow_rate ?r = Inr y"
        "unat opt * (wad div 100) \<le> rv y" "rv y \<le> unat hi * (wad div 100)" unfolding cfg by blast
      have "unat lo * (wad div 100) \<le> rv y" "rv y \<le> unat super * (wad div 100)" using y mono by linarith+
      with y True above show ?thesis by (simp add: current_borrow_rate_test_def l u rate_le_iff)
    next
      case False
      with pieces(3) above obtain y where y: "current_borrow_rate ?r = Inr y"
        "unat hi * (wad div 100) \<le> rv y" "rv y \<le> unat super * (wad div 100)" unfolding cfg by blast
      have "unat lo * (wad div 100) \<le> rv y" using y mono by linarith
      with y False above show ?thesis by (simp add: current_borrow_rate_test_def l u rate_le_iff)
    qed
  qed
qed

section \<open>Fees\<close>

definition borrow_fee_calculation :: "u64 \<Rightarrow> u64 \<Rightarrow> u8 \<Rightarrow> u64 \<Rightarrow> bool" where
  "borrow_fee_calculation bfw flw host borrow_amount =
     (case calculate_borrow_fees \<lparr> borrow_fee_wad = bfw, flash_loan_fee_wad = flw, host_fee_percentage = host \<rparr>
         (Decimal_from borrow_amount) Exclusive of
        Inl _ \<Rightarrow> False
      | Inr (total_fee, host_fee) \<Rightarrow>
          total_fee \<le> borrow_amount \<and> host_fee \<le> total_fee \<and>
          (bfw > 0 \<longrightarrow> total_fee > 0) \<and> (host = 100 \<longrightarrow> host_fee = total_fee) \<and>
          (if host > 0 \<and> bfw > 0 then host_fee > 0 else host_fee = 0))"

definition flash_loan_fee_calculation :: "u64 \<Rightarrow> u64 \<Rightarrow> u8 \<Rightarrow> u64 \<Rightarrow> bool" where
  "flash_loan_fee_calculation bfw flw host borrow_amount =
     (case calculate_flash_loan_fees \<lparr> borrow_fee_wad = bfw, flash_loan_fee_wad = flw, host_fee_percentage = host \<rparr>
         (Decimal_from borrow_amount) of
        Inl _ \<Rightarrow> False
      | Inr (origination_fee, host_fee) \<Rightarrow>
          origination_fee + host_fee \<le> borrow_amount \<and>
          (bfw > 0 \<longrightarrow> origination_fee + host_fee > 0) \<and> (host = 100 \<longrightarrow> origination_fee = 0) \<and>
          (if host > 0 \<and> bfw > 0 then host_fee > 0 else host_fee = 0))"

lemma calculate_fees_total:
  assumes "fw < WAD" and "host_fee_percentage fs \<le> 100" and "3 \<le> n"
  shows "\<exists>fee host. calculate_fees fs (Decimal_from n) fw Exclusive = Inr (fee, host)"
proof (cases "0 < fw")
  case True
  let ?n = "unat n" and ?h = "Rate_from_percent (host_fee_percentage fs)"
  let ?min = "if Rate_zero < ?h then 2 else 1 :: u64"
  have fw: "unat fw < wad" "0 < unat fw" using assms(1) True by (simp_all add: word_less_nat_alt WAD_def wad_def)
  have n3: "3 \<le> ?n" using assms(3) by (simp add: word_le_nat_alt)
  have hr: "rv ?h \<le> wad" using assms(2) by (simp add: word_le_nat_alt wad_def)
  have c: "Rate_zero < Rate_from_scaled_val fw \<and> Decimal_zero < Decimal_from n"
    using fw n3 by (simp add: rate_less_iff dec_less_iff)
  obtain bf where bf: "try_mul_rate (Decimal_from n) (Rate_from_scaled_val fw) = Inr bf"
    "dv bf = wad * ?n * unat fw div wad"
    using part_total [of "Decimal_from n" n "Rate_from_scaled_val fw"] fw(1) by auto
  define D where "D = max bf (Decimal_from ?min)"
  have "dv bf < wad * ?n" using bf(2) fw(1) n3 by (simp add: mult.assoc mult.commute)
  moreover have "wad * unat ?min < wad * ?n" using n3 by simp
  ultimately have D: "D < Decimal_from n" by (simp add: D_def dec_less_iff max_def)
  then have Dn: "dv D \<le> wad * ?n" by (simp add: dec_less_iff)
  obtain f where f: "try_round_u64 D = Inr f" using round_total [OF Dn] by blast
  obtain q where q: "try_mul_rate D ?h = Inr q" "dv q \<le> dv D" using part_total [OF Dn hr] by blast
  obtain h where h: "try_round_u64 q = Inr h" using round_total [of q n] q(2) Dn by auto
  show ?thesis
    using c bf(1) D f q(1) h unfolding D_def
    by (cases "Rate_zero < ?h") (simp_all add: calculate_fees_def Let_def not_le)
next
  case False
  then have "fw = 0" by (simp add: word_gt_0)
  then have "\<not> Rate_zero < Rate_from_scaled_val fw" by (simp add: rate_less_iff)
  then show ?thesis by (simp add: calculate_fees_def Let_def)
qed

text \<open>
  Without a host share the host has no fee, and with a share of 100% the two roundings are of
  the same amount.
\<close>

lemma host_share:
  assumes "calculate_fees fs (Decimal_from n) fw fc = Inr (fee, host)"
  shows "host_fee_percentage fs = 100 \<Longrightarrow> host = fee"
    and "host_fee_percentage fs = 0 \<or> fw = 0 \<Longrightarrow> host = 0"
proof -
  have "(host_fee_percentage fs = 100 \<longrightarrow> host = fee) \<and> (host_fee_percentage fs = 0 \<or> fw = 0 \<longrightarrow> host = 0)"
  proof (cases "0 < fw \<and> 0 < n")
    case True
    then have "0 < fw" "Decimal_zero < Decimal_from n" by (simp_all add: dec_less_iff word_less_nat_alt)
    from calculate_fees_Inr [OF assms this] obtain D where
      D: "unat fee = (wad div 2 + dv D) div wad" and h: "if host_fee_percentage fs = 0 then host = 0 \<and> wad \<le> dv D
        else 2 * wad \<le> dv D \<and> unat host =
          max ((wad div 2 + dv D * (unat (host_fee_percentage fs) * (wad div 100)) div wad) div wad) 1" by blast
    have "wad \<le> dv D" using h by (auto split: if_splits)
    then have one: "wad div wad \<le> (wad div 2 + dv D) div wad" by (intro div_le_mono) simp
    have "host = fee" if p: "host_fee_percentage fs = 100"
    proof -
      have "unat host = unat fee" using h one by (simp add: p D percent_100 max_def)
      then show ?thesis by (simp add: word_unat_eq_iff)
    qed
    then show ?thesis using h True by auto
  next
    case False
    then show ?thesis using assms calculate_fees_zero by fastforce
  qed
  then show "host_fee_percentage fs = 100 \<Longrightarrow> host = fee"
    and "host_fee_percentage fs = 0 \<or> fw = 0 \<Longrightarrow> host = 0" by blast+
qed

text \<open>
  C28: the property test of the borrow fee holds for every value its generators can draw, not only for
  those it samples: with a fee rate below one, a host share of at most 100% and a borrow of at
  least three tokens the fee can be computed, is at most the borrow, is positive whenever the rate
  is, and splits into a host fee that is positive exactly if the rate and the share are, and the
  whole fee if the share is 100%.
\<close>
theorem borrow_fee_calculation_holds:
  assumes "bfw < WAD" and "host \<le> 100" and "3 \<le> borrow_amount"
  shows "borrow_fee_calculation bfw flw host borrow_amount"
proof -
  let ?fs = "\<lparr> borrow_fee_wad = bfw, flash_loan_fee_wad = flw, host_fee_percentage = host \<rparr>"
  have pct: "host_fee_percentage ?fs \<le> 100" using assms(2) by simp
  obtain fee hf where f: "calculate_fees ?fs (Decimal_from borrow_amount) bfw Exclusive = Inr (fee, hf)"
    using calculate_fees_total [OF assms(1) pct assms(3)] by blast
  have n: "0 < borrow_amount" using assms(3) by (simp add: word_le_nat_alt word_less_nat_alt)
  note split = fee_split [OF pct f]
  have "host = 100 \<Longrightarrow> hf = fee" using host_share(1) [OF f] by simp
  moreover have "hf = 0" if "\<not> (0 < host \<and> 0 < bfw)"
    using host_share(2) [OF f] that by (auto simp: word_gt_0)
  ultimately show ?thesis using split n f by (auto simp: borrow_fee_calculation_def calculate_borrow_fees_def)
qed

theorem borrow_fee_calculation_holds_witness: "borrow_fee_calculation 10000000000000000 3000000000000000 20 1000"
  by (rule borrow_fee_calculation_holds) (simp_all add: WAD_def)

text \<open>
  The test of the flash loan fee asks about the borrow fee rate where the code uses the flash loan
  fee rate: with a borrow fee and no flash loan fee, and the other way round, its assertions fail.
\<close>

lemma flash_loan_fee_calculation_fails:
  "\<not> flash_loan_fee_calculation 1 0 0 3" "\<not> flash_loan_fee_calculation 0 1 20 3"
  by (simp_all add: flash_loan_fee_calculation_def calculate_flash_loan_fees_def fee_eval)

section \<open>Accruing interest\<close>

definition obligation_accrue_interest_test :: "u128 \<Rightarrow> u128 \<Rightarrow> u64 \<Rightarrow> bool" where
  "obligation_accrue_interest_test current_rate new_rate borrowed =
     (case (try_add Decimal_one (from_scaled_val current_rate), try_add Decimal_one (from_scaled_val new_rate)) of
        (Inr cum, Inr next_cum) \<Rightarrow>
          (case ol_accrue_interest (obligation_liquidity_default\<lparr>ol_cumulative_borrow_rate_wads := cum,
               ol_borrowed_amount_wads := Decimal_from borrowed\<rparr>) next_cum of
             Inl _ \<Rightarrow> False
           | Inr l \<Rightarrow> (if next_cum > cum then ol_borrowed_amount_wads l > Decimal_from borrowed
                      else ol_borrowed_amount_wads l = Decimal_from borrowed))
      | _ \<Rightarrow> False)"

definition cumulative_rates :: "u128 \<Rightarrow> u128 \<Rightarrow> bool" where
  "cumulative_rates rt new_rate \<longleftrightarrow>
     1 \<le> rt \<and> rt \<le> new_rate \<and> new_rate \<le> saturating_mul rt (ucast MAX_COMPOUNDED_INTEREST)"

text \<open>
  Accruing interest never lowers the debt (\<open>obligation_interest_monotone\<close>).  The strict growth that
  the test asserts fails without a debt, and for a debt of one token whose rate grows by the
  least step: the quotient of the rates truncates to one, so that the debt stays while the stored
  rate moves on.
\<close>

lemma obligation_accrue_interest_test_fails:
  "cumulative_rates 1 2 \<and> \<not> obligation_accrue_interest_test 1 2 0"
  "cumulative_rates 1 2 \<and> \<not> obligation_accrue_interest_test 1 2 1"
  by (simp_all add: cumulative_rates_def saturating_mul_def MAX_COMPOUNDED_INTEREST_def
      obligation_accrue_interest_test_def ol_accrue_interest_def from_scaled_val_def test_eval word_le_nat_alt)

definition reserve_accrue_interest_test :: "u64 \<Rightarrow> u64 \<Rightarrow> u8 \<Rightarrow> bool" where
  "reserve_accrue_interest_test elapsed borrowed borrow_rate =
     (let r = reserve_default
            \<lparr>liquidity := reserve_liquidity_default\<lparr>borrowed_amount_wads := Decimal_from borrowed\<rparr>,
             res_config := reserve_config_default\<lparr>min_borrow_rate := borrow_rate, optimal_borrow_rate := borrow_rate,
               max_borrow_rate := borrow_rate, super_max_borrow_rate := ucast borrow_rate\<rparr>\<rparr>
      in case accrue_interest r elapsed of
           Inl _ \<Rightarrow> False
         | Inr r' \<Rightarrow> (if borrow_rate > 0 \<and> elapsed > 0
                     then borrowed_amount_wads (liquidity r') > Decimal_from borrowed
                     else borrowed_amount_wads (liquidity r') = Decimal_from borrowed))"

lemma reserve_accrue_interest_test_fails: "\<not> reserve_accrue_interest_test 1 0 1"
  by (simp add: reserve_accrue_interest_test_def accrue_interest_def slots_elapsed_def current_borrow_rate_def
      utilization_rate_def total_supply_def compound_interest_def try_pow_def try_pow_loop.simps
      reserve_default_def reserve_config_default_def reserve_liquidity_default_def SLOTS_PER_YEAR_def test_eval)

definition collateral_exchange_rate_test :: "u64 \<Rightarrow> u64 \<Rightarrow> u64 \<Rightarrow> u8 \<Rightarrow> bool" where
  "collateral_exchange_rate_test total_liquidity borrowed_percent collateral_multiplier borrow_rate =
     (case and_then (test_liquidity total_liquidity borrowed_percent) (\<lambda>l.
        and_then (try_mul_rate (Decimal_from total_liquidity) (Rate_from_scaled_val collateral_multiplier)) (\<lambda>m.
        and_then (try_round_u64 m) (\<lambda>supply.
          let r = reserve_default
                \<lparr>collateral := reserve_collateral_default\<lparr>mint_total_supply := supply\<rparr>, liquidity := l,
                 res_config := reserve_config_default\<lparr>min_borrow_rate := borrow_rate,
                   optimal_borrow_rate := borrow_rate, optimal_utilization_rate := 100\<rparr>\<rparr>
          in and_then (collateral_exchange_rate r) (\<lambda>er.
             and_then (accrue_interest r 1) (\<lambda>r'.
             and_then (collateral_exchange_rate r') (\<lambda>new_er.
               Inr (er, new_er))))))) of
        Inl _ \<Rightarrow> False
      | Inr (er, new_er) \<Rightarrow>
          Rate_to_scaled_val er \<le> 5 * ucast WAD \<and>
          (if borrow_rate > 0 \<and> total_liquidity > 0 \<and> borrowed_percent > 0
           then new_er < er else new_er = er))"

text \<open>Without collateral tokens the exchange rate is the initial one before and after the interest.\<close>

lemma collateral_exchange_rate_test_fails: "\<not> collateral_exchange_rate_test 1 WAD 0 1"
  by (simp add: collateral_exchange_rate_test_def test_liquidity_def collateral_exchange_rate_def exchange_rate_def
      accrue_interest_def slots_elapsed_def current_borrow_rate_def utilization_rate_def total_supply_def
      compound_interest_def try_pow_def try_pow_loop.simps reserve_default_def reserve_config_default_def
      reserve_liquidity_default_def reserve_collateral_default_def SLOTS_PER_YEAR_def test_eval)

text \<open>
  The test of \<open>compound_interest\<close> compounds a default reserve a thousand times.  Its borrow rate
  index, debt and fees are zero, and every call that succeeds leaves them zero: the test observes
  only whether the power itself overflows.
\<close>

definition compound_interest_step :: "u64 \<Rightarrow> u8 \<Rightarrow> u8 \<Rightarrow> reserve_liquidity \<Rightarrow> program_error + reserve_liquidity" where
  "compound_interest_step elapsed borrow_rate take_rate l =
     and_then (compound_interest l (Rate_from_percent borrow_rate) elapsed (Rate_from_percent take_rate)) (\<lambda>l'.
     and_then (to_scaled_val (cumulative_borrow_rate_wads l')) (\<lambda>_.
     and_then (to_scaled_val (accumulated_protocol_fees_wads l')) (\<lambda>_. Inr l')))"

fun compound_interest_years :: "nat \<Rightarrow> u64 \<Rightarrow> u8 \<Rightarrow> u8 \<Rightarrow> reserve_liquidity \<Rightarrow> program_error + reserve_liquidity" where
  "compound_interest_years 0 elapsed borrow_rate take_rate l = Inr l"
| "compound_interest_years (Suc n) elapsed borrow_rate take_rate l =
     and_then (compound_interest_step elapsed borrow_rate take_rate l)
       (compound_interest_years n elapsed borrow_rate take_rate)"

definition compound_interest_test :: "u64 \<Rightarrow> u8 \<Rightarrow> u8 \<Rightarrow> bool" where
  "compound_interest_test elapsed borrow_rate take_rate =
     (case compound_interest_years 1000 elapsed borrow_rate take_rate reserve_liquidity_default of
        Inl _ \<Rightarrow> False | Inr _ \<Rightarrow> True)"

lemma compound_interest_of_nothing:
  "compound_interest_step elapsed borrow_rate take_rate reserve_liquidity_default = Inr l \<Longrightarrow>
     l = reserve_liquidity_default"
  by (auto simp: compound_interest_step_def compound_interest_def and_then_Inr_iff try_mul_rate_def wad_simps
      reserve_liquidity_default_def dec_eq_iff)

lemma compound_interest_years_of_nothing:
  "compound_interest_years (Suc n) elapsed borrow_rate take_rate reserve_liquidity_default =
     compound_interest_step elapsed borrow_rate take_rate reserve_liquidity_default"
proof (induction n)
  case 0
  show ?case by (cases "compound_interest_step elapsed borrow_rate take_rate reserve_liquidity_default") simp_all
next
  case (Suc n)
  then show ?case
    using compound_interest_of_nothing [of elapsed borrow_rate take_rate]
    by (cases "compound_interest_step elapsed borrow_rate take_rate reserve_liquidity_default") simp_all
qed

lemma compound_interest_test_is_one_step:
  "compound_interest_test elapsed borrow_rate take_rate \<longleftrightarrow>
     compound_interest_step elapsed borrow_rate take_rate reserve_liquidity_default = Inr reserve_liquidity_default"
proof -
  have "compound_interest_years 1000 elapsed borrow_rate take_rate reserve_liquidity_default =
      compound_interest_step elapsed borrow_rate take_rate reserve_liquidity_default"
    using compound_interest_years_of_nothing [of 999 elapsed borrow_rate take_rate] by simp
  then show ?thesis
    using compound_interest_of_nothing [of elapsed borrow_rate take_rate]
    by (auto simp: compound_interest_test_def split: sum.splits)
qed

end
