(* ===== verification/SolendCodecTests.thy ===== *)
theory SolendCodecTests
  imports SolendReserveCodec SolendObligationCodec SolendMarket SolendInstruction
begin

text \<open>
  The round trip tests of \<open>state/reserve.rs\<close>, \<open>state/obligation.rs\<close>, \<open>state/lending_market.rs\<close> and
  \<open>instruction.rs\<close>.  A test draws a value at random and compares it with what unpacking its packed
  form gives.  \<open>drawn_\<close> predicates say what the generators can draw: the fields without a constraint
  are arbitrary, a key of \<open>Pubkey::new_unique\<close> has 32 bytes that are not all zero, and a decimal of
  \<open>rand_decimal\<close> is an arbitrary 128-bit value.
\<close>

section \<open>What the generators draw\<close>

definition unique_key :: "pubkey \<Rightarrow> bool" where
  "unique_key k \<longleftrightarrow> length k = 32 \<and> k \<noteq> replicate 32 0"

definition rand_decimal :: "decimal \<Rightarrow> bool" where
  "rand_decimal d \<longleftrightarrow> dv d < 2 ^ 128"

definition rand_rate_limiter :: "rate_limiter \<Rightarrow> bool" where
  "rand_rate_limiter rl \<longleftrightarrow> rand_decimal (prev_qty rl) \<and> rand_decimal (cur_qty rl)"

definition drawn_liquidity :: "reserve_liquidity \<Rightarrow> bool" where
  "drawn_liquidity l \<longleftrightarrow>
     unique_key (liq_mint_pubkey l) \<and> unique_key (liq_supply_pubkey l) \<and> unique_key (pyth_oracle_pubkey l) \<and>
     unique_key (switchboard_oracle_pubkey l) \<and> rand_decimal (borrowed_amount_wads l) \<and>
     rand_decimal (cumulative_borrow_rate_wads l) \<and> rand_decimal (accumulated_protocol_fees_wads l) \<and>
     rand_decimal (market_price l) \<and> rand_decimal (smoothed_market_price l) \<and>
     pred_option rand_decimal (extra_market_price l)"

definition drawn_config :: "reserve_config \<Rightarrow> bool" where
  "drawn_config c \<longleftrightarrow>
     optimal_utilization_rate c \<le> max_utilization_rate c \<and> liquidation_bonus c \<le> max_liquidation_bonus c \<and>
     liquidation_threshold c \<le> max_liquidation_threshold c \<and> 255 \<le> super_max_borrow_rate c \<and>
     unique_key (fee_receiver c) \<and> cfg_protocol_liquidation_fee c \<le> MAX_PROTOCOL_LIQUIDATION_FEE_DECA_BPS \<and>
     pred_option unique_key (extra_oracle_pubkey c)"

definition drawn_reserve :: "solend_reserve \<Rightarrow> bool" where
  "drawn_reserve r \<longleftrightarrow>
     res_version r = PROGRAM_VERSION \<and> unique_key (res_lending_market r) \<and> drawn_liquidity (liquidity r) \<and>
     unique_key (col_mint_pubkey (collateral r)) \<and> unique_key (col_supply_pubkey (collateral r)) \<and>
     drawn_config (res_config r) \<and>
     (extra_market_price (liquidity r) = None \<longleftrightarrow> extra_oracle_pubkey (res_config r) = None) \<and>
     rand_rate_limiter (res_rate_limiter r) \<and> rand_decimal (res_attributed_borrow_value r)"

definition drawn_obligation :: "obligation \<Rightarrow> bool" where
  "drawn_obligation ob \<longleftrightarrow>
     ob_version ob = PROGRAM_VERSION \<and> unique_key (ob_lending_market ob) \<and> unique_key (ob_owner ob) \<and>
     (case deposits ob of [c] \<Rightarrow> unique_key (deposit_reserve c) \<and> rand_decimal (oc_market_value c) \<and>
          rand_decimal (oc_attributed_borrow_value c) | _ \<Rightarrow> False) \<and>
     (case borrows ob of [l] \<Rightarrow> unique_key (borrow_reserve l) \<and> rand_decimal (ol_cumulative_borrow_rate_wads l) \<and>
          rand_decimal (ol_borrowed_amount_wads l) \<and> rand_decimal (ol_market_value l) | _ \<Rightarrow> False) \<and>
     list_all rand_decimal [deposited_value ob, borrowed_value ob, unweighted_borrowed_value ob,
       borrowed_value_upper_bound ob, allowed_borrow_value ob, unhealthy_borrow_value ob,
       super_unhealthy_borrow_value ob]"

definition drawn_market :: "lending_market \<Rightarrow> bool" where
  "drawn_market m \<longleftrightarrow>
     lm_version m = PROGRAM_VERSION \<and> unique_key (lm_owner m) \<and> (\<exists>b. quote_currency m = replicate 32 b) \<and>
     unique_key (token_program_id m) \<and> unique_key (oracle_program_id m) \<and>
     unique_key (switchboard_oracle_program_id m) \<and> rand_rate_limiter (lm_rate_limiter m) \<and>
     pred_option unique_key (whitelisted_liquidator m) \<and> unique_key (risk_authority m)"

section \<open>The tests\<close>

text \<open>\<open>pack\<close> and \<open>unpack\<close> unwrapped: a panic or an error fails the test.\<close>

definition pack_and_unpack_reserve :: "solend_reserve \<Rightarrow> bool" where
  "pack_and_unpack_reserve r \<longleftrightarrow>
     and_then (reserve_pack r (replicate RESERVE_LEN 0)) reserve_unpack = Inr (Inr r)"

definition pack_and_unpack_obligation :: "obligation \<Rightarrow> bool" where
  "pack_and_unpack_obligation ob \<longleftrightarrow>
     and_then (obligation_pack ob (replicate OBLIGATION_LEN 0)) obligation_unpack = Inr (Inr ob)"

definition pack_and_unpack_lending_market :: "lending_market \<Rightarrow> bool" where
  "pack_and_unpack_lending_market m \<longleftrightarrow>
     and_then (lm_pack m (replicate LENDING_MARKET_LEN 0)) lm_unpack = Inr (Inr m)"

lemmas drawn_defs = unique_key_def rand_decimal_def rand_rate_limiter_def fits_def rl_valid_def

lemma pack_and_unpack_obligation_holds: "drawn_obligation ob \<Longrightarrow> pack_and_unpack_obligation ob"
proof -
  assume "drawn_obligation ob"
  then have "obligation_wf ob" "deposits ob \<noteq> []" "length (deposits ob) + length (borrows ob) \<le> MAX_OBLIGATION_RESERVES"
    by (auto simp: drawn_obligation_def obligation_wf_def collateral_valid_def liquidity_entry_valid_def
        drawn_defs MAX_OBLIGATION_RESERVES_def split: list.splits)
  then have "obligation_valid ob" by (simp add: obligation_wf_valid)
  from obligation_codec.store_load [OF this, of "replicate OBLIGATION_LEN 0"]
  show ?thesis by (auto simp: pack_and_unpack_obligation_def)
qed

lemma pack_and_unpack_lending_market_holds: "drawn_market m \<Longrightarrow> pack_and_unpack_lending_market m"
proof -
  assume "drawn_market m"
  then have "lm_valid m"
    by (auto simp: drawn_market_def lm_valid_def drawn_defs split: option.splits)
  from lm_codec.store_load [OF this, of "replicate LENDING_MARKET_LEN 0"]
  show ?thesis by (auto simp: pack_and_unpack_lending_market_def)
qed

text \<open>
  A drawn reserve survives the round trip exactly if neither limit on the attributed borrows is
  zero: unpacking reads a stored zero as no limit.
\<close>

lemma drawn_reserve_valid:
  assumes "drawn_reserve r" and "attributed_borrow_limit_open (res_config r) \<noteq> 0"
    and "attributed_borrow_limit_close (res_config r) \<noteq> 0"
  shows "reserve_valid r"
proof -
  have "ucast (max_borrow_rate (res_config r)) \<le> (255 :: u64)"
    using unat_less_pow [of "max_borrow_rate (res_config r)"] by (simp add: word_le_nat_alt unat_ucast_up)
  with assms(1) have "ucast (max_borrow_rate (res_config r)) \<le> super_max_borrow_rate (res_config r)"
    by (auto simp: drawn_reserve_def drawn_config_def)
  with assms show ?thesis
    by (auto simp: drawn_reserve_def drawn_config_def drawn_liquidity_def reserve_valid_def liquidity_valid_def
        config_packable_def drawn_defs extra_price_decimal_def split: option.splits)
qed

lemma unpacked_limits:
  "reserve_unpack src = Inr (Inr r) \<Longrightarrow>
     attributed_borrow_limit_open (res_config r) \<noteq> 0 \<and> attributed_borrow_limit_close (res_config r) \<noteq> 0"
  by (auto simp: reserve_unpack_def and_then_Inr_iff Let_def unpack_config_ordered
      split: if_splits sum.splits option.splits)

theorem pack_and_unpack_reserve_iff:
  assumes "drawn_reserve r"
  shows "pack_and_unpack_reserve r \<longleftrightarrow>
    attributed_borrow_limit_open (res_config r) \<noteq> 0 \<and> attributed_borrow_limit_close (res_config r) \<noteq> 0"
proof
  assume "pack_and_unpack_reserve r"
  then show "attributed_borrow_limit_open (res_config r) \<noteq> 0 \<and> attributed_borrow_limit_close (res_config r) \<noteq> 0"
    using unpacked_limits by (auto simp: pack_and_unpack_reserve_def and_then_Inr_iff)
next
  assume "attributed_borrow_limit_open (res_config r) \<noteq> 0 \<and> attributed_borrow_limit_close (res_config r) \<noteq> 0"
  then have "reserve_valid r" using drawn_reserve_valid [OF assms] by blast
  from reserve_codec.store_load [OF this, of "replicate RESERVE_LEN 0"]
  show "pack_and_unpack_reserve r" by (auto simp: pack_and_unpack_reserve_def)
qed

section \<open>Instructions\<close>

text \<open>
  The instructions that one pass of the test builds, from the numbers, keys and configurations
  that it draws.  It leaves out three: the withdrawal of obligation collateral, the donation, and
  the metadata update, which cannot be packed.
\<close>

definition first_test_instructions ::
  "(nat \<Rightarrow> u64) \<Rightarrow> (nat \<Rightarrow> pubkey) \<Rightarrow> u8 \<Rightarrow> pubkey option \<Rightarrow> reserve_config \<Rightarrow> rate_limiter_config
     \<Rightarrow> lending_instruction list" where
  "first_test_instructions amount key byte liquidator cfg rl =
     [InitLendingMarket (key 0) (replicate 32 byte),
      SetLendingMarketOwnerAndConfig (key 1) rl liquidator (key 2),
      InitReserve (amount 0) cfg,
      RefreshReserve,
      DepositReserveLiquidity (amount 1),
      RedeemReserveCollateral (amount 2),
      InitObligation,
      RefreshObligation,
      DepositObligationCollateral (amount 3),
      BorrowObligationLiquidity (amount 4),
      RepayObligationLiquidity (amount 5),
      LiquidateObligation (amount 6)]"

definition second_test_instructions ::
  "(nat \<Rightarrow> u64) \<Rightarrow> u8 \<Rightarrow> bool \<Rightarrow> reserve_config \<Rightarrow> rate_limiter_config \<Rightarrow> lending_instruction list" where
  "second_test_instructions amount index flag cfg rl =
     [FlashLoan (amount 7),
      DepositReserveLiquidityAndObligationCollateral (amount 8),
      WithdrawObligationCollateralAndRedeemReserveCollateral (amount 9),
      UpdateReserveConfig cfg rl,
      LiquidateObligationAndRedeemReserveCollateral (amount 10),
      RedeemFees,
      FlashBorrowReserveLiquidity (amount 11),
      FlashRepayReserveLiquidity (amount 12) index,
      ForgiveDebt (amount 13),
      SetObligationCloseabilityStatus flag]"

definition pack_and_unpack_instructions :: "lending_instruction list \<Rightarrow> bool" where
  "pack_and_unpack_instructions = list_all (\<lambda>i. unpack_instruction (pack_instruction i) = Inr (Inr i))"

lemma pack_and_unpack_instructions_holds:
  assumes "\<And>n. unique_key (key n)" and "pred_option unique_key liquidator"
    and "list_all (\<lambda>c. unique_key (fee_receiver c) \<and> pred_option unique_key (extra_oracle_pubkey c)) [cfg1, cfg2]"
  shows "pack_and_unpack_instructions (first_test_instructions amount key byte liquidator cfg1 rl1 @
    second_test_instructions amount index flag cfg2 rl2)"
proof -
  have trip: "unpack_instruction (pack_instruction i) = Inr (Inr i)" if "packable i" for i
    using unpack_pack [OF that, of "[]"] by simp
  have "key_option_ok liquidator" "config_keys_ok cfg1" "config_keys_ok cfg2"
    using assms by (auto simp: key_option_ok_def config_keys_ok_def unique_key_def split: option.splits)
  then have "list_all packable (first_test_instructions amount key byte liquidator cfg1 rl1 @
      second_test_instructions amount index flag cfg2 rl2)"
    using assms(1) by (simp add: first_test_instructions_def second_test_instructions_def unique_key_def)
  then show ?thesis unfolding pack_and_unpack_instructions_def by (rule list.pred_mono_strong) (rule trip)
qed

end
