(* ===== verification/EngineTests.thy ===== *)
theory EngineTests
  imports Sizing Submit Sim
begin

text \<open>
  The unit tests of \<open>strategy/src/sizing.rs\<close>, \<open>submit/src/dual_path.rs\<close> and \<open>sim/src/replay.rs\<close> as
  definitions that evaluate to true on the model.  The test doubles are translated with the tests:
  the send paths with a fixed outcome and delay, and the adapter and router of the replay.  The
  instructions of a test and the SDK that compiles them are arguments, and what the test expects of
  the length of the compiled transaction is a hypothesis of its lemma.
\<close>

section \<open>Sizing\<close>

definition test_candidate :: "u64 \<Rightarrow> breach_candidate" where
  "test_candidate max_repay =
     \<lparr> bc_protocol = Kamino, position_id = replicate 32 1, collateral_mint = replicate 32 2,
       debt_mint = replicate 32 3, health_factor = f64_lit (9 / 10), close_factor_max_repay = max_repay,
       bc_slot = 100 \<rparr>"

definition repays_full_close_factor_when_flash_depth_is_sufficient :: bool where
  "repays_full_close_factor_when_flash_depth_is_sufficient \<longleftrightarrow>
     size_position (test_candidate 1000000) 5000000 = 1000000"

definition caps_at_flash_source_depth_when_shallower_than_close_factor :: bool where
  "caps_at_flash_source_depth_when_shallower_than_close_factor \<longleftrightarrow>
     size_position (test_candidate 1000000) 400000 = 400000"

definition never_sizes_down_below_available_depth_purely_to_reduce_risk :: bool where
  "never_sizes_down_below_available_depth_purely_to_reduce_risk \<longleftrightarrow>
     size_position (test_candidate 250000) u64_MAX = 250000"

definition repays_full_close_factor_when_route_is_feasible_without_alts ::
  "('ix, 'msg, 'hash) sdk \<Rightarrow> 'ix list \<Rightarrow> pubkey \<Rightarrow> 'hash \<Rightarrow> bool" where
  "repays_full_close_factor_when_route_is_feasible_without_alts sdk ixs payer blockhash =
     (let d = size_position_with_feasibility sdk (test_candidate 1000000) 5000000 (static_route ixs 200000)
            None payer blockhash
      in final_size d = 1000000 \<and> initial_size d = 1000000 \<and> \<not> sd_used_alt d \<and> step_downs d = 0 \<and>
         sd_binding_constraint d = Some CloseFactor)"

definition synthetic_candidate_uses_alt_when_uncompressed_exceeds_max_tx_bytes ::
  "('ix, 'msg, 'hash) sdk \<Rightarrow> 'ix list \<Rightarrow> lookup_table \<Rightarrow> pubkey \<Rightarrow> 'hash \<Rightarrow> bool" where
  "synthetic_candidate_uses_alt_when_uncompressed_exceeds_max_tx_bytes sdk ixs tab payer blockhash =
     (let rp = static_route ixs 250000;
          d0 = size_position_with_feasibility sdk (test_candidate 1000000) 5000000 rp None payer blockhash;
          mgr = register_table tab alt_manager_new;
          d1 = size_position_with_feasibility sdk (test_candidate 1000000) 5000000 rp (Some mgr) payer blockhash
      in final_size d0 = 0 \<and> sd_binding_constraint d0 = Some ByteLimit \<and>
         final_size d1 = 1000000 \<and> sd_used_alt d1 \<and> step_downs d1 = 0 \<and>
         sd_binding_constraint d1 = Some CloseFactor)"

definition synthetic_candidate_steps_down_when_infeasible_at_large_size ::
  "('ix, 'msg, 'hash) sdk \<Rightarrow> 'ix list \<Rightarrow> pubkey \<Rightarrow> 'hash \<Rightarrow> bool" where
  "synthetic_candidate_steps_down_when_infeasible_at_large_size sdk ixs payer blockhash =
     (let rp = dynamic_route (\<lambda>_. ixs) (\<lambda>n. if n > 700000 then 1600000 else 450000);
          d = size_position_with_feasibility sdk (test_candidate 1000000) 5000000 rp None payer blockhash
      in initial_size d = 1000000 \<and> final_size d = 700000 \<and> step_downs d = 3 \<and>
         sd_binding_constraint d = Some ComputeBudget)"

definition synthetic_hopelessly_infeasible_route_steps_down_to_zero ::
  "('ix, 'msg, 'hash) sdk \<Rightarrow> pubkey \<Rightarrow> 'hash \<Rightarrow> bool" where
  "synthetic_hopelessly_infeasible_route_steps_down_to_zero sdk payer blockhash =
     (let d = size_position_with_feasibility sdk (test_candidate 1000000) 5000000 (static_route [] 2000000)
            None payer blockhash
      in final_size d = 0 \<and> step_downs d = 10 \<and> sd_binding_constraint d = Some ComputeBudget)"

lemma sizing_depth_tests:
  "repays_full_close_factor_when_flash_depth_is_sufficient"
  "caps_at_flash_source_depth_when_shallower_than_close_factor"
  "never_sizes_down_below_available_depth_purely_to_reduce_risk"
  by (simp_all add: repays_full_close_factor_when_flash_depth_is_sufficient_def
      caps_at_flash_source_depth_when_shallower_than_close_factor_def
      never_sizes_down_below_available_depth_purely_to_reduce_risk_def size_position_def test_candidate_def min_def)

text \<open>One turn of the stepping loop, by the answer of the check.\<close>

lemma step_loop_turn:
  "chk n = Inr fit \<Longrightarrow> step_loop chk mr initial n downs last_ovf =
     \<lparr> initial_size = initial, final_size = n, sd_used_alt = used_alt fit, step_downs = downs,
       sd_binding_constraint = (if n < initial then last_ovf
         else if initial = mr then Some CloseFactor else Some FlashDepth) \<rparr>"
  "chk n = Inl ovf \<Longrightarrow> n \<le> max (initial div 10) 1 \<Longrightarrow> step_loop chk mr initial n downs last_ovf =
     \<lparr> initial_size = initial, final_size = 0, sd_used_alt = False, step_downs = downs + 1,
       sd_binding_constraint = Some ovf \<rparr>"
  "chk n = Inl ovf \<Longrightarrow> max (initial div 10) 1 < n \<Longrightarrow> step_loop chk mr initial n downs last_ovf =
     step_loop chk mr initial (n - max (initial div 10) 1) (downs + 1) (Some ovf)"
  by (simp_all only: step_loop.simps [of chk mr initial n downs last_ovf] Let_def sum.case if_True
      not_le [symmetric] if_False)

lemma sized_from_a_million:
  "size_position_with_feasibility sdk (test_candidate 1000000) 5000000 rp mgr payer blockhash =
     step_loop (check_feasibility sdk rp mgr payer blockhash) 1000000 1000000 1000000 0 None"
  by (simp add: size_position_with_feasibility_def test_candidate_def Let_def min_def)

lemma million_step: "max ((1000000 :: u64) div 10) 1 = 100000"
  by (simp add: max_def word_le_nat_alt)

lemmas feasibility_eval = check_feasibility_def static_route_def dynamic_route_def MAX_TX_CU_def MAX_TX_BYTES_def
  Let_def min_def

lemma rejected_at_every_size:
  assumes "\<And>n. chk n = Inl ovf"
  shows "step_loop chk 1000000 1000000 1000000 0 None =
    \<lparr> initial_size = 1000000, final_size = 0, sd_used_alt = False, step_downs = 10, sd_binding_constraint = Some ovf \<rparr>"
  by (simp add: step_loop_turn(2,3) [OF assms] million_step)

lemma feasible_route_test:
  assumes "tx_len sdk payer (set_compute_unit_limit sdk 200000 # ixs) [] blockhash \<le> 1232"
  shows "repays_full_close_factor_when_route_is_feasible_without_alts sdk ixs payer blockhash"
proof -
  have "check_feasibility sdk (static_route ixs 200000) None payer blockhash 1000000 =
      Inr \<lparr> used_alt = False, fit_tx_bytes = tx_len sdk payer (set_compute_unit_limit sdk 200000 # ixs) [] blockhash,
            fit_cu = 200000 \<rparr>"
    using assms by (simp add: feasibility_eval)
  then show ?thesis
    by (simp add: repays_full_close_factor_when_route_is_feasible_without_alts_def sized_from_a_million
        step_loop_turn(1))
qed

lemma one_table: "get_all_tables (register_table tab alt_manager_new) = [tab]"
  by (simp add: get_all_tables_def register_table_def alt_manager_new_def hm_insert_def hm_new_def)

lemma alt_route_test:
  assumes "1232 < tx_len sdk payer (set_compute_unit_limit sdk 250000 # ixs) [] blockhash"
    and "tx_len sdk payer (set_compute_unit_limit sdk 250000 # ixs) [tab] blockhash \<le> 1232"
  shows "synthetic_candidate_uses_alt_when_uncompressed_exceeds_max_tx_bytes sdk ixs tab payer blockhash"
proof -
  have "check_feasibility sdk (static_route ixs 250000) None payer blockhash n = Inl ByteLimit" for n
    using assms(1) by (simp add: feasibility_eval)
  moreover have "check_feasibility sdk (static_route ixs 250000) (Some (register_table tab alt_manager_new))
      payer blockhash 1000000 =
    Inr \<lparr> used_alt = True, fit_tx_bytes = tx_len sdk payer (set_compute_unit_limit sdk 250000 # ixs) [tab] blockhash,
          fit_cu = 250000 \<rparr>"
    using assms by (simp add: feasibility_eval one_table)
  ultimately show ?thesis
    by (simp add: synthetic_candidate_uses_alt_when_uncompressed_exceeds_max_tx_bytes_def sized_from_a_million
        step_loop_turn(1) rejected_at_every_size)
qed

lemma stepping_test:
  assumes "tx_len sdk payer (set_compute_unit_limit sdk 450000 # ixs) [] blockhash \<le> 1232"
  shows "synthetic_candidate_steps_down_when_infeasible_at_large_size sdk ixs payer blockhash"
proof -
  let ?chk = "check_feasibility sdk (dynamic_route (\<lambda>_. ixs) (\<lambda>n. if n > 700000 then 1600000 else 450000))
    None payer blockhash"
  have "?chk 1000000 = Inl ComputeBudget" "?chk 900000 = Inl ComputeBudget" "?chk 800000 = Inl ComputeBudget"
    "?chk 700000 = Inr \<lparr> used_alt = False,
       fit_tx_bytes = tx_len sdk payer (set_compute_unit_limit sdk 450000 # ixs) [] blockhash, fit_cu = 450000 \<rparr>"
    using assms by (simp_all add: feasibility_eval)
  then show ?thesis
    by (simp add: synthetic_candidate_steps_down_when_infeasible_at_large_size_def sized_from_a_million
        step_loop_turn million_step)
qed

lemma hopeless_route_test: "synthetic_hopelessly_infeasible_route_steps_down_to_zero sdk payer blockhash"
proof -
  have "check_feasibility sdk (static_route [] 2000000) None payer blockhash n = Inl ComputeBudget" for n
    by (simp add: feasibility_eval)
  then show ?thesis
    by (simp add: synthetic_hopelessly_infeasible_route_steps_down_to_zero_def sized_from_a_million
        rejected_at_every_size)
qed

section \<open>Submission\<close>

definition dummy_bundle :: tx_bundle where
  "dummy_bundle =
     \<lparr> bundle_sim =
         \<lparr> routed =
             \<lparr> candidate = test_candidate 1000, repay_amount = 500,
               flash_source = \<lparr> fs_protocol = Kamino, reserve = replicate 32 4, fee_bps = 5 \<rparr>,
               expected = \<lparr> bonus_usd = f64_lit 40, est_slippage_usd = f64_lit 2, flash_fee_usd = f64_lit 1,
                 est_cu_cost_usd = f64_lit (1 / 2), bid_tip_usd = f64_lit 10, net_usd = f64_lit (53 / 2) \<rparr> \<rparr>,
           feasible = True, cu_measured = 150000, tx_bytes = 900, profitable = True \<rparr>,
       versioned_tx = replicate 4 0, alt_keys = [] \<rparr>"

text \<open>A path that answers after a fixed delay, in milliseconds, with a fixed outcome.\<close>

definition fake_path :: "path_outcome \<Rightarrow> nat \<Rightarrow> string \<Rightarrow> send_path" where
  "fake_path out delay nm = \<lparr> path_send = (\<lambda>_. Some (delay, out)), path_name = nm \<rparr>"

definition first_path_to_land_wins_the_race :: "bool \<Rightarrow> bool" where
  "first_path_to_land_wins_the_race sf =
     (case submit sf (submitter_new (fake_path (PathLanded 101 (f64_lit 25)) 5 ''staked_quic'')
         (fake_path (PathLanded 102 (f64_lit 24)) 50 ''jito'') 1000) dummy_bundle of
        Landed slot _ \<Rightarrow> slot = 101
      | _ \<Rightarrow> False)"

definition revert_on_the_winning_path_is_reported_even_if_the_other_would_have_landed :: "bool \<Rightarrow> bool" where
  "revert_on_the_winning_path_is_reported_even_if_the_other_would_have_landed sf \<longleftrightarrow>
     submit sf (submitter_new (fake_path (PathReverted RaceLost) 5 ''staked_quic'')
       (fake_path (PathLanded 200 (f64_lit 10)) 50 ''jito'') 1000) dummy_bundle = Reverted RaceLost"

definition both_paths_hanging_past_the_timeout_reports_not_included :: "bool \<Rightarrow> bool" where
  "both_paths_hanging_past_the_timeout_reports_not_included sf \<longleftrightarrow>
     submit sf (submitter_new (fake_path PathTimedOut 10000 ''staked_quic'')
       (fake_path PathTimedOut 10000 ''jito'') 20) dummy_bundle = NotIncluded"

text \<open>\<open>post\<close> is the exchange with the address that nothing listens on.\<close>

definition test_get_tip_accounts_fallback_and_live_refresh :: "(string \<Rightarrow> json \<Rightarrow> http_result) \<Rightarrow> bool" where
  "test_get_tip_accounts_fallback_and_live_refresh post =
     (let manager = tip_manager_new ''http://127.0.0.1:19999'';
          initial = get_active_tip_accounts manager;
          custom = [''CustomTip1'', ''CustomTip2''];
          manager1 = update_accounts manager custom;
          (res, manager2) = refresh_tip_accounts post manager1;
          fallback = get_active_tip_accounts manager2
      in length DEFAULT_JITO_TIP_ACCOUNTS = 8 \<and> length initial = 8 \<and> initial ! 0 = DEFAULT_JITO_TIP_ACCOUNTS ! 0 \<and>
         get_active_tip_accounts manager1 = custom \<and> isl res \<and>
         length fallback = 8 \<and> fallback ! 0 = DEFAULT_JITO_TIP_ACCOUNTS ! 0)"

text \<open>
  The two tests of leader awareness: the outcome, and which of the two paths were called.
\<close>

definition leader_aware_submitter :: "u64 list \<Rightarrow> dual_path_submitter" where
  "leader_aware_submitter jito_slots =
     with_leader_schedule (submitter_new (fake_path (PathLanded 101 (f64_lit 50)) 5 ''staked_quic'')
       (fake_path (PathLanded 101 (f64_lit 50)) 5 ''jito'') 1000) 2 (has_jito_leader_in_window jito_slots)"

definition leader_awareness_calls :: "u64 list \<Rightarrow> bool \<Rightarrow> bool \<Rightarrow> bool" where
  "leader_awareness_calls jito_slots jito_called sf =
     (let s = leader_aware_submitter jito_slots; called = map path_name (sent_paths s dummy_bundle)
      in (case submit sf s dummy_bundle of Landed slot _ \<Rightarrow> slot = 101 | _ \<Rightarrow> False) \<and>
         ''staked_quic'' \<in> set called \<and> (''jito'' \<in> set called \<longleftrightarrow> jito_called))"

definition test_leader_awareness_skips_jito_leg_when_no_jito_leader :: "bool \<Rightarrow> bool" where
  "test_leader_awareness_skips_jito_leg_when_no_jito_leader sf = leader_awareness_calls [200] False sf"

definition test_leader_awareness_fires_jito_leg_when_jito_leader_present :: "bool \<Rightarrow> bool" where
  "test_leader_awareness_fires_jito_leg_when_jito_leader_present sf = leader_awareness_calls [101] True sf"

lemmas submit_eval = submit_def submitter_new_def should_send_jito_def select_of_def timeout_of_def
  to_submit_outcome_def fake_path_def

lemma race_tests:
  "first_path_to_land_wins_the_race sf"
  "revert_on_the_winning_path_is_reported_even_if_the_other_would_have_landed sf"
  "both_paths_hanging_past_the_timeout_reports_not_included sf"
  by (simp_all add: first_path_to_land_wins_the_race_def
      revert_on_the_winning_path_is_reported_even_if_the_other_would_have_landed_def
      both_paths_hanging_past_the_timeout_reports_not_included_def submit_eval)

lemma tip_account_tests:
  assumes "\<And>url request. \<exists>e. post url request = TransportError e"
  shows "test_get_tip_accounts_fallback_and_live_refresh post"
proof -
  obtain e where "post (bundles_endpoint ''http://127.0.0.1:19999'') (json_rpc ''getTipAccounts'' []) = TransportError e"
    using assms by blast
  then show ?thesis
    by (simp add: test_get_tip_accounts_fallback_and_live_refresh_def tip_manager_new_def get_active_tip_accounts_def
        update_accounts_def refresh_tip_accounts_def fallback_to_defaults_def DEFAULT_JITO_TIP_ACCOUNTS_def)
qed

lemma leader_tests:
  "test_leader_awareness_skips_jito_leg_when_no_jito_leader sf"
  "test_leader_awareness_fires_jito_leg_when_jito_leader_present sf"
proof -
  have slot: "bc_slot (candidate (routed (bundle_sim dummy_bundle))) = 100"
    by (simp add: dummy_bundle_def test_candidate_def)
  have window: "\<not> has_jito_leader_in_window [200] 100 2" "has_jito_leader_in_window [101] 100 2"
    by (simp_all add: has_jito_leader_in_window_def upt_rec)
  show "test_leader_awareness_skips_jito_leg_when_no_jito_leader sf"
    "test_leader_awareness_fires_jito_leg_when_jito_leader_present sf"
    by (simp_all add: test_leader_awareness_skips_jito_leg_when_no_jito_leader_def
        test_leader_awareness_fires_jito_leg_when_jito_leader_present_def leader_awareness_calls_def
        leader_aware_submitter_def with_leader_schedule_def sent_paths_def slot window submit_eval)
qed

section \<open>Replay\<close>

text \<open>The stub adapter keeps the accounts it reports as breaches; it does not change.\<close>

definition stub_on_update :: "pubkey list \<Rightarrow> account_update \<Rightarrow> breach_candidate option \<times> pubkey list" where
  "stub_on_update breaches u =
     (if au_pubkey u \<in> set breaches
      then Some \<lparr> bc_protocol = Kamino, position_id = au_pubkey u, collateral_mint = replicate 32 1,
             debt_mint = replicate 32 2, health_factor = f64_lit (9 / 10), close_factor_max_repay = 1000,
             bc_slot = au_slot u \<rparr>
      else None, breaches)"

definition stub_route :: "pubkey \<Rightarrow> u64 \<Rightarrow> pubkey \<Rightarrow> u64 \<Rightarrow> flash_source option" where
  "stub_route res available mint amount =
     (if available \<ge> amount then Some \<lparr> fs_protocol = Kamino, reserve = res, fee_bps = 5 \<rparr> else None)"

definition synthetic_event :: "pubkey \<Rightarrow> pubkey \<Rightarrow> u64 \<Rightarrow> historical_event" where
  "synthetic_event position best_reserve available =
     \<lparr> ev_protocol = Kamino, ev_position_id = position, ev_collateral_mint = replicate 32 1,
       ev_debt_mint = replicate 32 2, breach_slot = 100, health_factor_at_breach_slot = f64_lit (9 / 10),
       obligation_data_base64 = [], obligation_owner = replicate 32 9, best_flash_reserve = best_reserve,
       best_flash_reserve_available_liquidity = available, landed_slot = Some 101 \<rparr>"

definition stub_replay :: "(string \<Rightarrow> bytes option) \<Rightarrow> pubkey list \<Rightarrow> pubkey \<Rightarrow> historical_event \<Rightarrow> event_result" where
  "stub_replay b64 breaches routed_to e = fst (replay_event b64 stub_on_update (stub_route routed_to 1000000) e breaches)"

definition detected_and_correctly_routed_event_passes_both_axes :: "(string \<Rightarrow> bytes option) \<Rightarrow> bool" where
  "detected_and_correctly_routed_event_passes_both_axes b64 =
     (let position = replicate 32 5; res = replicate 32 6;
          r = stub_replay b64 [position] res (synthetic_event position res 1000000)
      in detected r \<and> routed_ok r = Some True)"

definition missed_detection_short_circuits_routing_check :: "(string \<Rightarrow> bytes option) \<Rightarrow> bool" where
  "missed_detection_short_circuits_routing_check b64 =
     (let position = replicate 32 5; res = replicate 32 6;
          r = stub_replay b64 [] res
            ((synthetic_event position res 1000000)\<lparr>health_factor_at_breach_slot := f64_lit (3 / 2)\<rparr>)
      in \<not> detected r \<and> routed_ok r = None)"

definition routed_to_wrong_reserve_fails_routing_axis_even_when_detected :: "(string \<Rightarrow> bytes option) \<Rightarrow> bool" where
  "routed_to_wrong_reserve_fails_routing_axis_even_when_detected b64 =
     (let position = replicate 32 5; correct_reserve = replicate 32 6;
          r = stub_replay b64 [position] (replicate 32 7) (synthetic_event position correct_reserve 1000000)
      in detected r \<and> routed_ok r = Some False)"

definition report_aggregates_pass_fail_correctly :: bool where
  "report_aggregates_pass_fail_correctly =
     (let first = \<lparr> er_position_id = replicate 32 1, detected = True, routed_ok = Some True, feasibility_checked = False \<rparr>;
          second = \<lparr> er_position_id = replicate 32 2, detected = False, routed_ok = None, feasibility_checked = False \<rparr>
      in all_detected [first] \<and> all_routed_with_sufficient_liquidity [first] \<and> \<not> all_detected [first, second])"

lemma test_health_factors: "f64_lt (f64_lit (9 / 10)) (Fin 1)" "\<not> f64_lt (f64_lit (3 / 2)) (Fin 1)"
proof -
  obtain r where "f64_round (9 / 10) = Fin r" "r \<le> 31 / 32"
    by (rule f64_round_between [of "1 / 2" "9 / 10" "31 / 32"])
       (use f64_round_dyadic [of 1 1] f64_round_dyadic [of 31 5] in simp_all)
  then show "f64_lt (f64_lit (9 / 10)) (Fin 1)" by (simp add: f64_lit_def)
  show "\<not> f64_lt (f64_lit (3 / 2)) (Fin 1)" using f64_round_dyadic [of 3 1] by (simp add: f64_lit_def)
qed

lemma replay_tests:
  "detected_and_correctly_routed_event_passes_both_axes b64"
  "missed_detection_short_circuits_routing_check b64"
  "routed_to_wrong_reserve_fails_routing_axis_even_when_detected b64"
  "report_aggregates_pass_fail_correctly"
proof -
  note defs = stub_replay_def replay_event_def decode_base64_def synthetic_event_def stub_route_def test_health_factors
  show "detected_and_correctly_routed_event_passes_both_axes b64"
    "missed_detection_short_circuits_routing_check b64"
    "routed_to_wrong_reserve_fails_routing_axis_even_when_detected b64"
    by (simp_all add: detected_and_correctly_routed_event_passes_both_axes_def
        missed_detection_short_circuits_routing_check_def
        routed_to_wrong_reserve_fails_routing_axis_even_when_detected_def defs)
  show "report_aggregates_pass_fail_correctly"
    by (simp add: report_aggregates_pass_fail_correctly_def all_detected_def all_routed_with_sufficient_liquidity_def)
qed

end
