(* ===== verification/Spec2Isabelle.thy ===== *)
theory Spec2Isabelle
  imports Dashboard Readiness SimTools Arbitration Treasury DexRouter SolendObligationProps
    SolendObligationCodec SolendDisplay SolendPropertyTests SolendCodecTests EngineTests
begin

text \<open>
  \<^bold>\<open>A verification of the gyrfalcon liquidation engine.\<close>

  Gyrfalcon watches the accounts of the Kamino lending program on Solana, detects obligations that
  have become liquidatable, sizes a repayment, chooses a flash-loan source and a tip, simulates,
  assembles one transaction and submits it over two racing paths.  The repository also carries a
  patched copy of the Save (Solend) SDK, whose account layouts and arithmetic the router and the
  transaction builders rely on.  This development models the Rust crates under \<open>src/crates\<close> and
  that SDK, \<open>src/patches/solend-sdk\<close>, as HOL functions, one theory per component, and proves what
  makes the components and their composition correct, or shows where they are not.

  \<^bold>\<open>How the parts interact.\<close>
  An account event enters through the feed and the registry of watched owners (\<open>Ingestion\<close>), goes
  to the health adapter (\<open>KaminoHealth\<close>), which may return a breach candidate; the candidate passes
  the circuit breakers (\<open>Breakers\<close>), sizing and routing (\<open>Sizing\<close> over \<open>FlashRouter\<close> and \<open>Tips\<close>), the
  simulator (\<open>Sim\<close>), transaction assembly (\<open>Bundler\<close>) and the submitter (\<open>Submit\<close>); outcomes go to the
  breakers, the dashboard and the background log writer (\<open>Store\<close>).  \<open>Engine\<close> is this loop: one turn is
  \<open>engine_step\<close>, a run is \<open>engine_run\<close>, and \<open>engine_reach\<close> is the same as a step relation.  Arbitration
  between several candidates and the profit ledger are library code that the loop does not call
  yet; they are modelled and verified on their own.

  \<^bold>\<open>Theories and sources.\<close>

  \<^item> \<open>Prelude\<close>, \<open>F64\<close>, \<open>HashMaps\<close>: what the sources use of the language: machine words with checked,
    saturating and wrapping operations, \<open>Result\<close> and panics as sums, stable sorting and
    \<open>min_by\<close>/\<open>max_by\<close>, IEEE double precision as exact rationals with correct rounding, and hash maps
    (locale \<open>hash_map\<close>, implemented by association lists).
  \<^item> \<open>Core\<close> (\<open>crates/core\<close>, \<open>crates/config\<close>): the data types, the configuration and its validation, and the
    trait \<open>HealthAdapter\<close> as the locale \<open>health_adapter\<close>.
  \<^item> \<open>Ingestion\<close> (\<open>crates/ingestion\<close>): decoding, recorded and live feeds, the ring buffer and the drain;
    \<open>KaminoHealth\<close> (\<open>crates/health\<close>): the adapter, interpreted as \<open>health_adapter\<close>.
  \<^item> \<open>FlashRouter\<close>, \<open>DexRouter\<close> (\<open>crates/router\<close>): flash sources (locale \<open>flash_source_router\<close>, the trait of
    that name) and swap routes.
  \<^item> \<open>Breakers\<close>, \<open>Tips\<close>, \<open>Arbitration\<close>, \<open>Sizing\<close> (\<open>crates/strategy\<close>): breakers, static and dynamic tips, slot
    budget and arbitration, position sizing and profit estimates.
  \<^item> \<open>Alt\<close>, \<open>Bundler\<close> (\<open>crates/bundler\<close>): lookup tables, instruction builders, token accounts, assembly;
    \<open>Submit\<close> (\<open>crates/submit\<close>): the two send paths, tip accounts, leader window and the race.
  \<^item> \<open>Store\<close> (\<open>crates/store\<close>), \<open>Treasury\<close> (\<open>crates/treasury\<close>): position book, liquidation log and its writer;
    ledger and sweep.
  \<^item> \<open>Sim\<close>, \<open>SimTools\<close> (\<open>crates/sim\<close>): account mirror, simulator, fixtures and replay; the command-line tools
    and the profiler.
  \<^item> \<open>Engine\<close>, \<open>Dashboard\<close>, \<open>Readiness\<close> (\<open>crates/gyrfalcon-bin\<close>): \<open>main.rs\<close> and the readiness tool.
  \<^item> \<open>SolendMath\<close>, \<open>SolendDisplay\<close>, \<open>SolendLimiter\<close>, \<open>SolendReserve\<close>, \<open>SolendObligation\<close>, \<open>SolendMarket\<close>,
    \<open>SolendCodec\<close>, \<open>SolendReserveCodec\<close>, \<open>SolendObligationCodec\<close>, \<open>SolendInstruction\<close>, \<open>SolendBuilders\<close>
    (\<open>patches/solend-sdk\<close>): the fixed-point types (locale \<open>wad_math\<close>, interpreted on \<open>Decimal\<close> and
    \<open>Rate\<close>), their printed form and the error codes, the rate limiter, reserves, obligations and
    markets with all their operations, the byte layouts (locale \<open>account_codec\<close>, interpreted four
    times) and the instruction encoding and builders.  \<open>SolendReserveProps\<close> and
    \<open>SolendObligationProps\<close> hold the proofs about the operations.
  \<^item> \<open>SolendTests\<close>, \<open>SolendStateTests\<close>, \<open>SolendPropertyTests\<close>, \<open>SolendCodecTests\<close>, \<open>EngineTests\<close>: the test modules
    of the SDK and those of sizing, submission and replay.  A unit test is a predicate that the
    model evaluates to true; a property test is a predicate on what its generators draw.

  \<^bold>\<open>What is shown.\<close>

  \<^item> The engine (\<open>Engine\<close>, \<open>Dashboard\<close>): the loop never panics; nothing is submitted in observe mode; every
    submission was found in breach, is within close factor, depth and profit bounds and has a
    serving source; the dashboard counts submissions and outcomes.  The same model shows that the
    consecutive-revert breaker never stops anything, that the daemon as started never submits,
    that all its transactions are one and the same transfer of nothing, or zero bytes, and that the
    breaker indicator never lights.
  \<^item> Decisions: the breakers refine a specification that reads the whole history; the router's answer
    is optimal; sizing ends within nineteen steps at the largest feasible size of its grid; bids
    are within their caps; arbitration fires distinct reserves and stays within the slot budget.
  \<^item> Data paths: the mirror keeps the freshest update, the drain forwards in order, a log survives a
    restart, pruning keeps windowed sums.  Of the records the background writer accepts, exactly
    those that serialise reach a file that can be opened, in order; the others are lost in silence.
  \<^item> The tools: what a passing replay means, that the exporter's fixture passes it, and that the
    readiness tool can never pass.
  \<^item> The SDK: compounding never overcharges; depositors' assets, interest, rates and exchange are
    monotone and bounded; liquidations never take more than the debt and the deposit; the rate
    limiter refines a specification over its whole history and lets through at most twice its maximum
    per window duration; obligations stay within ten entries, with no reserve twice among the
    deposits or among the borrows; all layouts and the instruction encoding are read back, decoding is
    canonical, and what unpacking a reserve does is told for all bytes.
  \<^item> The tests: the model computes every value that the unit tests and tables expect.  The property
    tests on repaying, utilization, the borrow rate curve and the borrow fee hold for all drawn
    values; those on the flash loan fee, on accruing interest and on the exchange rate are false
    for some, which the lemmas name, and the reserve round trip fails exactly on a zero limit.
  \<^item> The submitter reports the first path to finish, which is how a landing can be hidden.

  \<^bold>\<open>Bounds and termination.\<close>
  No definition needs fuel: loops are structural or carry a termination proof (the step-down of
  sizing decreases the size by at least one unit of its grid, \<open>lines_of\<close> consumes a line, the power
  halves its exponent).  Integers keep their width as words (\<open>u64\<close>, \<open>u128\<close>, 192 bits for \<open>Decimal\<close>); release
  builds wrap, and a panic aborts the process, so functions that can panic return \<open>panic + 'a\<close>.
  Doubles round to nearest, ties to even, with infinities and not-a-number; signed zero and
  payloads are not distinguished, which no source code observes.  The iteration order of a hash map
  is that of an association list.  Theorems about choices hold for every order, because the lists
  are arbitrary.

  \<^bold>\<open>Parameters and hypotheses.\<close>
  Code outside the repository is an argument: the decoders of \<open>klend_interface\<close>
  (record \<open>klend\<close>, hypothesis \<open>sf_ok\<close>: the fixed-point conversion gives finite numbers, none negative),
  \<open>serde_json\<close>, TOML, base58 and base64 (hypothesis \<open>stored_as\<close>: a record is written as one line that is
  read back), \<open>crossbeam\<close>'s queue (locale \<open>array_queue\<close>), the Solana SDK, HTTP exchanges and their timing,
  \<open>LiteSVM\<close>, clap and axum.  Witnesses instantiate them with concrete functions.

  \<^bold>\<open>Not modelled.\<close>
  Module declarations and re-exports; logging, message texts of errors and derived formatting; the
  TCP listener and the scheduler of tokio beyond the interleaving of tasks; the test modules of the
  other crates.  The
  virtual machine is not linked in by the source itself, whose simulator only compares fields.
\<close>

end
